(* ===== verification/Prelude.thy ===== *)
theory Prelude
  imports Main "HOL-Library.Word"
begin

text \<open>
  Shared vocabulary of the development: the machine integers of the x86-64 ABI, the ways a
  kernel function can stop without returning, the sum-typed results of operations that may
  stop, array accesses that respect the bounds of a C array, and the generic lemmas on
  words, lists and results that the component theories use.
\<close>

unbundle bit_operations_syntax

named_theorems mm_simps \<open>evaluation rules of the memory manager\<close>
named_theorems res_simps \<open>rules for results of operations that may stop\<close>

section \<open>Machine integers\<close>

type_synonym u8 = "8 word"
type_synonym u16 = "16 word"
type_synonym u32 = "32 word"
type_synonym u64 = "64 word"

text \<open>A C test \<open>if (x & flag)\<close>.\<close>

abbreviation has_bits :: "'a::len word \<Rightarrow> 'a word \<Rightarrow> bool" where
  "has_bits x m \<equiv> x AND m \<noteq> 0"

section \<open>Stopping without a result\<close>

text \<open>
  A kernel function returns, or stops in one of four ways: \<open>Panic\<close> is \<open>panic()\<close>, which
  loops for ever after its message; \<open>Fault\<close> is an access outside the object the code
  indexes (the C text has undefined behaviour there); \<open>Diverge\<close> is a loop that has used
  up its fuel; \<open>Do_exit c s\<close> is a call of \<open>do_exit(c)\<close> in state \<open>s\<close>, which ends the current
  task and never returns to the caller.
\<close>

datatype 's kstop = Panic string | Fault | Diverge | Do_exit int 's

type_synonym ('s, 'a) res = "'s kstop + 'a \<times> 's"

definition bindE :: "'e + 'a \<Rightarrow> ('a \<Rightarrow> 'e + 'b) \<Rightarrow> 'e + 'b" where
  "bindE m f = (case m of Inl e \<Rightarrow> Inl e | Inr x \<Rightarrow> f x)"

lemma bindE_simps [simp]:
  "bindE (Inl e) f = Inl e"
  "bindE (Inr x) f = f x"
  by (simp_all add: bindE_def)

lemma bindE_cong [fundef_cong]:
  "m = m' \<Longrightarrow> (\<And>x. m' = Inr x \<Longrightarrow> f x = f' x) \<Longrightarrow> bindE m f = bindE m' f'"
  by (cases m') (simp_all add: bindE_def)

lemma bindE_eq_Inr [res_simps]:
  "bindE m f = Inr y \<longleftrightarrow> (\<exists>x. m = Inr x \<and> f x = Inr y)"
  by (cases m) simp_all

lemma bindE_eq_Inl [res_simps]:
  "bindE m f = Inl e \<longleftrightarrow> m = Inl e \<or> (\<exists>x. m = Inr x \<and> f x = Inl e)"
  by (cases m) simp_all

lemma bindE_assoc: "bindE (bindE m f) g = bindE m (\<lambda>x. bindE (f x) g)"
  by (cases m) simp_all

text \<open>Reading and writing a C array that has \<open>length xs\<close> elements.\<close>

definition aget :: "'a list \<Rightarrow> nat \<Rightarrow> 's kstop + 'a" where
  "aget xs i = (if i < length xs then Inr (xs ! i) else Inl Fault)"

definition aset :: "'a list \<Rightarrow> nat \<Rightarrow> 'a \<Rightarrow> 's kstop + 'a list" where
  "aset xs i v = (if i < length xs then Inr (xs[i := v]) else Inl Fault)"

lemma aget_in [simp]: "i < length xs \<Longrightarrow> aget xs i = Inr (xs ! i)"
  by (simp add: aget_def)

lemma aget_out [simp]: "\<not> i < length xs \<Longrightarrow> aget xs i = Inl Fault"
  by (simp add: aget_def)

lemma aset_in [simp]: "i < length xs \<Longrightarrow> aset xs i v = Inr (xs[i := v])"
  by (simp add: aset_def)

lemma aset_out [simp]: "\<not> i < length xs \<Longrightarrow> aset xs i v = Inl Fault"
  by (simp add: aset_def)

lemma aget_eq_Inr [res_simps]: "aget xs i = Inr x \<longleftrightarrow> i < length xs \<and> x = xs ! i"
  by (auto simp: aget_def)

lemma aset_eq_Inr [res_simps]: "aset xs i v = Inr ys \<longleftrightarrow> i < length xs \<and> ys = xs[i := v]"
  by (auto simp: aset_def)

section \<open>Total and partial correctness of operations\<close>

text \<open>
  \<open>keeps I f\<close>: whenever \<open>f\<close> returns from a state with \<open>I\<close>, the state it leaves has \<open>I\<close>.
\<close>

definition keeps :: "('s \<Rightarrow> bool) \<Rightarrow> ('s \<Rightarrow> ('s, 'a) res) \<Rightarrow> bool" where
  "keeps I f \<longleftrightarrow> (\<forall>s x s'. I s \<longrightarrow> f s = Inr (x, s') \<longrightarrow> I s')"

lemma keepsI: "(\<And>s x s'. I s \<Longrightarrow> f s = Inr (x, s') \<Longrightarrow> I s') \<Longrightarrow> keeps I f"
  by (auto simp: keeps_def)

lemma keepsD: "keeps I f \<Longrightarrow> I s \<Longrightarrow> f s = Inr (x, s') \<Longrightarrow> I s'"
  by (auto simp: keeps_def)

lemma keeps_bindE:
  assumes "keeps I f" and "\<And>x. keeps I (g x)"
  shows "keeps I (\<lambda>s. bindE (f s) (\<lambda>(x, s). g x s))"
proof (rule keepsI)
  fix s y s'
  assume I: "I s" and eq: "bindE (f s) (\<lambda>(x, s). g x s) = Inr (y, s')"
  then obtain x s1 where f: "f s = Inr (x, s1)" and g: "g x s1 = Inr (y, s')"
    by (auto simp: res_simps)
  from keepsD [OF assms(1) I f] keepsD [OF assms(2) _ g] show "I s'"
    by blast
qed

section \<open>Operations on a state\<close>

text \<open>
  Sequential code that reads and changes the state: \<open>ret\<close> returns a value, \<open>bnd\<close> and \<open>thn\<close> run
  one operation after the other, \<open>rd\<close> and \<open>upd\<close> read and change the state, \<open>stop\<close> ends without a
  result, \<open>acts\<close> runs a list of statements.
\<close>

type_synonym ('s, 'a) act = "'s \<Rightarrow> ('s, 'a) res"

definition ret :: "'a \<Rightarrow> ('s, 'a) act" where "ret x s = Inr (x, s)"

definition bnd :: "('s, 'a) act \<Rightarrow> ('a \<Rightarrow> ('s, 'b) act) \<Rightarrow> ('s, 'b) act" where
  "bnd f g s = bindE (f s) (\<lambda>(x, s). g x s)"

definition thn :: "('s, 'a) act \<Rightarrow> ('s, 'b) act \<Rightarrow> ('s, 'b) act" where
  "thn f g = bnd f (\<lambda>_. g)"

definition rd :: "('s \<Rightarrow> 'a) \<Rightarrow> ('s, 'a) act" where "rd f s = Inr (f s, s)"

definition upd :: "('s \<Rightarrow> 's) \<Rightarrow> ('s, unit) act" where "upd f s = Inr ((), f s)"

definition stop :: "'s kstop \<Rightarrow> ('s, 'a) act" where "stop e s = Inl e"

definition onlyif :: "bool \<Rightarrow> ('s, unit) act \<Rightarrow> ('s, unit) act" where
  "onlyif b f = (if b then f else ret ())"

fun acts :: "('s, unit) act list \<Rightarrow> ('s, unit) act" where
  "acts [] = ret ()"
| "acts (f # fs) = thn f (acts fs)"

lemma act_simps [simp]:
  "ret x s = Inr (x, s)" "rd f s = Inr (f s, s)" "upd g s = Inr ((), g s)" "stop e s = Inl e"
  by (simp_all add: ret_def rd_def upd_def stop_def)

lemma bnd_simps [simp]:
  "f s = Inl e \<Longrightarrow> bnd f g s = Inl e"
  "f s = Inr (x, s') \<Longrightarrow> bnd f g s = g x s'"
  "f s = Inl e \<Longrightarrow> thn f h s = Inl e"
  "f s = Inr (x, s') \<Longrightarrow> thn f h s = h s'"
  by (simp_all add: bnd_def thn_def)

lemma onlyif_simps [simp]: "onlyif True f = f" "onlyif False f = ret ()"
  by (simp_all add: onlyif_def)

lemma bnd_eq_Inr [res_simps]:
  "bnd f g s = Inr (y, t) \<longleftrightarrow> (\<exists>x u. f s = Inr (x, u) \<and> g x u = Inr (y, t))"
  "thn f h s = Inr (y, t) \<longleftrightarrow> (\<exists>x u. f s = Inr (x, u) \<and> h u = Inr (y, t))"
  by (auto simp: bnd_def thn_def bindE_eq_Inr)

text \<open>
  A pointer into a table is the index plus one, and 0 is \<open>NULL\<close>. \<open>tab_rd\<close> and \<open>tab_upd\<close> read
  and change the entry a pointer points to.
\<close>

definition in_tab :: "nat \<Rightarrow> 'a list \<Rightarrow> bool" where
  "in_tab p xs \<longleftrightarrow> 0 < p \<and> p \<le> length xs"

definition tab_rd :: "('s \<Rightarrow> 'a list) \<Rightarrow> nat \<Rightarrow> ('a \<Rightarrow> 'b) \<Rightarrow> ('s, 'b) act" where
  "tab_rd t p f s = (if in_tab p (t s) then Inr (f (t s ! (p - 1)), s) else Inl Fault)"

definition tab_upd :: "('s \<Rightarrow> 'a list) \<Rightarrow> (('a list \<Rightarrow> 'a list) \<Rightarrow> 's \<Rightarrow> 's) \<Rightarrow> nat \<Rightarrow> ('a \<Rightarrow> 'a) \<Rightarrow> ('s, unit) act" where
  "tab_upd t u p f s =
     (if in_tab p (t s) then Inr ((), u (\<lambda>xs. xs[p - 1 := f (xs ! (p - 1))]) s) else Inl Fault)"

lemma tab_simps [simp]:
  "in_tab p (t s) \<Longrightarrow> tab_rd t p f s = Inr (f (t s ! (p - 1)), s)"
  "\<not> in_tab p (t s) \<Longrightarrow> tab_rd t p f s = Inl Fault"
  "in_tab p (t s) \<Longrightarrow> tab_upd t u p g s = Inr ((), u (\<lambda>xs. xs[p - 1 := g (xs ! (p - 1))]) s)"
  "\<not> in_tab p (t s) \<Longrightarrow> tab_upd t u p g s = Inl Fault"
  by (simp_all add: tab_rd_def tab_upd_def)

lemma tab_eq_Inr [res_simps]:
  "tab_rd t p f s = Inr (x, s') \<longleftrightarrow> in_tab p (t s) \<and> x = f (t s ! (p - 1)) \<and> s' = s"
  "tab_upd t u p g s = Inr (y, s') \<longleftrightarrow> in_tab p (t s) \<and> s' = u (\<lambda>xs. xs[p - 1 := g (xs ! (p - 1))]) s"
  by (auto simp: tab_rd_def tab_upd_def)

text \<open>The first index of a table that satisfies a test, or the length.\<close>

fun first_index :: "('a \<Rightarrow> bool) \<Rightarrow> 'a list \<Rightarrow> nat" where
  "first_index P [] = 0"
| "first_index P (x # xs) = (if P x then 0 else Suc (first_index P xs))"

lemma first_index_le: "first_index P xs \<le> length xs"
  by (induction xs) auto

lemma first_index_lt: "first_index P xs < length xs \<longleftrightarrow> (\<exists>x\<in>set xs. P x)"
  by (induction xs) auto

lemma first_index_sat: "first_index P xs < length xs \<Longrightarrow> P (xs ! first_index P xs)"
  by (induction xs) auto

lemma first_index_before: "i < first_index P xs \<Longrightarrow> \<not> P (xs ! i)"
  by (induction xs arbitrary: i) (auto simp: nth_Cons' split: if_splits)

section \<open>C arithmetic\<close>

text \<open>The value of an \<open>int\<close> expression, and the C operators \<open>/\<close> and \<open>%\<close>, which round to zero.\<close>

definition c_int :: "int \<Rightarrow> 's kstop + int" where
  "c_int x = (if - (2 ^ 31) \<le> x \<and> x < 2 ^ 31 then Inr x else Inl Fault)"

definition c_div :: "int \<Rightarrow> int \<Rightarrow> int" where
  "c_div a b = sgn a * sgn b * (\<bar>a\<bar> div \<bar>b\<bar>)"

definition c_mod :: "int \<Rightarrow> int \<Rightarrow> int" where
  "c_mod a b = a - c_div a b * b"

section \<open>Lists\<close>

lemma nth_update_cases:
  "i < length xs \<Longrightarrow> (xs[i := v]) ! j = (if j = i then v else xs ! j)"
  by simp

end
