(* ===== verification/Vsprintf.thy ===== *)
theory Vsprintf
  imports Prelude
begin

text \<open>
  Formatted output, \<open>src/kernel/vsprintf.c\<close>. The format is the list of its characters before the
  zero byte; what the code stores through \<open>str\<close> is the list of characters the functions return.
  An argument is a 64-bit slot or a pointer to a string; fetching an argument that is not
  there, or of the other kind, is undefined in C and is \<open>None\<close> here. Field widths and
  precisions are within the range of \<open>int\<close>.
\<close>

section \<open>Numbers\<close>

definition is_digit :: "char \<Rightarrow> bool" where
  "is_digit c = (48 \<le> (of_char c :: nat) \<and> (of_char c :: nat) \<le> 57)"

fun atoi_loop :: "int \<Rightarrow> string \<Rightarrow> int \<times> string" where
  "atoi_loop i [] = (i, [])"
| "atoi_loop i (c # s) = (if is_digit c then atoi_loop (i * 10 + of_char c - 48) s else (i, c # s))"

definition skip_atoi :: "string \<Rightarrow> int \<times> string" where
  "skip_atoi s = atoi_loop 0 s"

abbreviation ZEROPAD :: u32 where "ZEROPAD \<equiv> 1"
abbreviation SIGN :: u32 where "SIGN \<equiv> 2"
abbreviation PLUS :: u32 where "PLUS \<equiv> 4"
abbreviation SPACE :: u32 where "SPACE \<equiv> 8"
abbreviation LEFT :: u32 where "LEFT \<equiv> 16"
abbreviation SPECIAL :: u32 where "SPECIAL \<equiv> 32"
abbreviation SMALL :: u32 where "SMALL \<equiv> 64"

abbreviation upper_digits :: string where "upper_digits \<equiv> ''0123456789ABCDEFGHIJKLMNOPQRSTUVWXYZ''"
abbreviation lower_digits :: string where "lower_digits \<equiv> ''0123456789abcdefghijklmnopqrstuvwxyz''"

text \<open>
  \<open>while (num != 0) tmp[i++] = digits[do_div(num, base)];\<close> The assembly of \<open>do_div\<close> divides the
  unsigned 32-bit number; \<open>tmp\<close> holds the least significant digit first.
\<close>

function digit_loop :: "string \<Rightarrow> nat \<Rightarrow> nat \<Rightarrow> string" where
  "digit_loop digits base num =
     (if num = 0 \<or> base < 2 then [] else digits ! (num mod base) # digit_loop digits base (num div base))"
  by pat_completeness auto
termination by (relation "measure (\<lambda>(_, _, num). num)") auto

declare digit_loop.simps [simp del]

text \<open>\<open>while (size-- > 0) *str++ = c;\<close> with the value \<open>size\<close> has afterwards.\<close>

definition pad :: "int \<Rightarrow> char \<Rightarrow> string \<times> int" where
  "pad sz c = (replicate (nat sz) c, if sz > 0 then -1 else sz - 1)"

text \<open>
  The sign and the number whose digits are printed; the prefix, and the width that is set
  aside for it; \<open>tmp[0..i-1]\<close>.
\<close>

definition num_sign :: "u32 \<Rightarrow> u32 \<Rightarrow> string" where
  "num_sign type num =
     (if has_bits type SIGN \<and> sint num < 0 then ''-''
      else if has_bits type PLUS then ''+'' else if has_bits type SPACE then '' '' else [])"

definition num_abs :: "u32 \<Rightarrow> u32 \<Rightarrow> u32" where
  "num_abs type num = (if has_bits type SIGN \<and> sint num < 0 then - num else num)"

definition prefix_size :: "u32 \<Rightarrow> nat \<Rightarrow> int" where
  "prefix_size type base =
     (if has_bits type SPECIAL then if base = 16 then 2 else if base = 8 then 1 else 0 else 0)"

definition num_prefix :: "u32 \<Rightarrow> nat \<Rightarrow> string \<Rightarrow> string" where
  "num_prefix type base digits =
     (if has_bits type SPECIAL
      then if base = 8 then ''0'' else if base = 16 then [CHR ''0'', digits ! 33] else []
      else [])"

definition num_tmp :: "string \<Rightarrow> nat \<Rightarrow> u32 \<Rightarrow> string" where
  "num_tmp digits base num = (if num = 0 then ''0'' else digit_loop digits base (unat num))"

text \<open>The stores of \<open>number\<close>, once the width left for padding is known.\<close>

definition emit :: "u32 \<Rightarrow> int \<Rightarrow> int \<Rightarrow> string \<Rightarrow> string \<Rightarrow> string \<Rightarrow> string" where
  "emit type sz precision sign prefix tmp =
     (let c = (if has_bits type ZEROPAD then CHR ''0'' else CHR '' '');
          (blanks, sz) = (if \<not> has_bits type (ZEROPAD + LEFT) then pad sz CHR '' '' else ([], sz));
          (fill, sz) = (if \<not> has_bits type LEFT then pad sz c else ([], sz));
          zeros = replicate (nat (precision - int (length tmp))) CHR ''0'';
          (trail, sz) = pad sz CHR '' ''
      in blanks @ sign @ prefix @ fill @ zeros @ rev tmp @ trail)"

definition number :: "u32 \<Rightarrow> nat \<Rightarrow> int \<Rightarrow> int \<Rightarrow> u32 \<Rightarrow> string option" where
  "number num base sz precision type =
     (let digits = (if has_bits type SMALL then lower_digits else upper_digits);
          type = (if has_bits type LEFT then type AND NOT ZEROPAD else type) in
      if base < 2 \<or> base > 36 then None
      else let
          sign = num_sign type num;
          num = num_abs type num;
          sz = (if sign \<noteq> [] then sz - 1 else sz);
          sz = sz - prefix_size type base;
          tmp = num_tmp digits base num;
          i = int (length tmp);
          precision = (if i > precision then i else precision);
          sz = sz - precision
        in Some (emit type sz precision sign (num_prefix type base digits) tmp))"

section \<open>Formats\<close>

datatype varg = AInt u64 | AStr string

text \<open>The flags after \<open>%\<close>: \<open>repeat: ++fmt; switch (*fmt) ...\<close>\<close>

fun flags_loop :: "u32 \<Rightarrow> string \<Rightarrow> u32 \<times> string" where
  "flags_loop flags [] = (flags, [])"
| "flags_loop flags (c # fmt) =
     (if c = CHR ''-'' then flags_loop (flags OR LEFT) fmt
      else if c = CHR ''+'' then flags_loop (flags OR PLUS) fmt
      else if c = CHR '' '' then flags_loop (flags OR SPACE) fmt
      else if c = CHR ''#'' then flags_loop (flags OR SPECIAL) fmt
      else if c = CHR ''0'' then flags_loop (flags OR ZEROPAD) fmt
      else (flags, c # fmt))"

text \<open>\<open>va_arg(args, int)\<close> and \<open>va_arg(args, unsigned long)\<close>.\<close>

fun arg_word :: "varg list \<Rightarrow> (u64 \<times> varg list) option" where
  "arg_word (AInt w # args) = Some (w, args)"
| "arg_word _ = None"

fun arg_str :: "varg list \<Rightarrow> (string \<times> varg list) option" where
  "arg_str (AStr s # args) = Some (s, args)"
| "arg_str _ = None"

definition arg_int :: "varg list \<Rightarrow> (int \<times> varg list) option" where
  "arg_int args = map_option (\<lambda>(w, args). (sint (ucast w :: u32), args)) (arg_word args)"

text \<open>
  The field width. After a \<open>*\<close> the argument is taken but the format pointer stays on the
  \<open>*\<close>.
\<close>

definition get_width :: "u32 \<Rightarrow> string \<Rightarrow> varg list \<Rightarrow> (int \<times> u32 \<times> string \<times> varg list) option" where
  "get_width flags fmt args =
     (case fmt of
        [] \<Rightarrow> Some (-1, flags, fmt, args)
      | c # _ \<Rightarrow>
          if is_digit c then let (w, fmt) = skip_atoi fmt in Some (w, flags, fmt, args)
          else if c = CHR ''*''
          then map_option (\<lambda>(w, args).
                 if w < 0 then (- w, flags OR LEFT, fmt, args) else (w, flags, fmt, args)) (arg_int args)
          else Some (-1, flags, fmt, args))"

definition get_precision :: "string \<Rightarrow> varg list \<Rightarrow> (int \<times> string \<times> varg list) option" where
  "get_precision fmt args =
     (case fmt of
        [] \<Rightarrow> Some (-1, fmt, args)
      | c # fmt' \<Rightarrow>
          if c = CHR ''.''
          then map_option (\<lambda>(p, fmt, args). (if p < 0 then 0 else p, fmt, args))
            (case fmt' of
               [] \<Rightarrow> Some (-1, fmt', args)
             | d # _ \<Rightarrow>
                 if is_digit d then let (p, fmt) = skip_atoi fmt' in Some (p, fmt, args)
                 else if d = CHR ''*'' then map_option (\<lambda>(p, args). (p, fmt', args)) (arg_int args)
                 else Some (-1, fmt', args))
          else Some (-1, fmt, args))"

definition skip_qualifier :: "string \<Rightarrow> string" where
  "skip_qualifier fmt =
     (case fmt of
        [] \<Rightarrow> []
      | c # fmt' \<Rightarrow> if c = CHR ''h'' \<or> c = CHR ''l'' \<or> c = CHR ''L'' then fmt' else fmt)"

text \<open>\<open>while (--w > 0) *str++ = ' ';\<close> and \<open>while (len < w--) *str++ = ' ';\<close>\<close>

definition pre_pad :: "int \<Rightarrow> string \<times> int" where
  "pre_pad w = (replicate (nat (w - 1)) CHR '' '', if w > 1 then 0 else w - 1)"

definition post_pad :: "int \<Rightarrow> int \<Rightarrow> string \<times> int" where
  "post_pad len w = (replicate (nat (w - len)) CHR '' '', if w > len then len - 1 else w - 1)"

definition conv_char :: "u32 \<Rightarrow> int \<Rightarrow> char \<Rightarrow> string" where
  "conv_char flags w c =
     (let (p, w) = (if \<not> has_bits flags LEFT then pre_pad w else ([], w));
          (q, w) = pre_pad w
      in p @ [c] @ q)"

definition conv_str :: "u32 \<Rightarrow> int \<Rightarrow> int \<Rightarrow> string \<Rightarrow> string" where
  "conv_str flags w precision s =
     (let len = int (length s);
          len = (if precision < 0 then len else if len > precision then precision else len);
          (p, w) = (if \<not> has_bits flags LEFT then post_pad len w else ([], w));
          (q, w) = post_pad len w
      in p @ take (nat len) s @ q)"

text \<open>
  One conversion, from the character after the qualifier on. The result is what is printed,
  the rest of the arguments and of the format, and the pointer a \<open>%n\<close> stores the count through. The slot
  of a \<open>char *\<close> argument is a string; \<open>%n\<close> takes a pointer slot.
\<close>

definition conv_num ::
    "nat \<Rightarrow> int \<Rightarrow> int \<Rightarrow> u32 \<Rightarrow> string \<Rightarrow> varg list \<Rightarrow>
     (string \<times> u64 option \<times> string \<times> varg list) option" where
  "conv_num base w precision flags fmt args =
     (case arg_word args of
        None \<Rightarrow> None
      | Some (x, args) \<Rightarrow>
          map_option (\<lambda>s. (s, None, fmt, args)) (number (ucast x) base w precision flags))"

definition conversion ::
    "u32 \<Rightarrow> int \<Rightarrow> int \<Rightarrow> string \<Rightarrow> varg list \<Rightarrow> (string \<times> u64 option \<times> string \<times> varg list) option" where
  "conversion flags w precision fmt args =
     (case fmt of
        [] \<Rightarrow> Some (''%'', None, [], args)
      | c # fmt \<Rightarrow>
          if c = CHR ''c''
          then map_option (\<lambda>(x, args). (conv_char flags w (char_of (unat (ucast x :: u8))), None, fmt, args))
                 (arg_word args)
          else if c = CHR ''s''
          then map_option (\<lambda>(s, args). (conv_str flags w precision s, None, fmt, args)) (arg_str args)
          else if c = CHR ''o'' then conv_num 8 w precision flags fmt args
          else if c = CHR ''p''
          then if w = -1 then conv_num 16 8 precision (flags OR ZEROPAD) fmt args
               else conv_num 16 w precision flags fmt args
          else if c = CHR ''x'' then conv_num 16 w precision (flags OR SMALL) fmt args
          else if c = CHR ''X'' then conv_num 16 w precision flags fmt args
          else if c = CHR ''d'' \<or> c = CHR ''i'' then conv_num 10 w precision (flags OR SIGN) fmt args
          else if c = CHR ''u'' then conv_num 10 w precision flags fmt args
          else if c = CHR ''n'' then map_option (\<lambda>(x, args). ([], Some x, fmt, args)) (arg_word args)
          else Some ((if c \<noteq> CHR ''%'' then ''%'' else []) @ [c], None, fmt, args))"

definition directive ::
    "string \<Rightarrow> varg list \<Rightarrow> (string \<times> u64 option \<times> string \<times> varg list) option" where
  "directive fmt args =
     (let (flags, fmt) = flags_loop 0 fmt in
      Option.bind (get_width flags fmt args) (\<lambda>(w, flags, fmt, args).
      Option.bind (get_precision fmt args) (\<lambda>(precision, fmt, args).
      conversion flags w precision (skip_qualifier fmt) args)))"

lemma atoi_loop_length: "atoi_loop i s = (n, r) \<Longrightarrow> length r \<le> length s"
  by (induction i s rule: atoi_loop.induct) (auto split: if_splits)

lemma flags_loop_length: "flags_loop f s = (g, r) \<Longrightarrow> length r \<le> length s"
  by (induction f s rule: flags_loop.induct) (auto split: if_splits)

lemma get_width_length: "get_width f s a = Some (w, g, r, b) \<Longrightarrow> length r \<le> length s"
  by (auto simp: get_width_def skip_atoi_def split: list.splits if_splits prod.splits
      dest: atoi_loop_length)

lemma get_precision_length: "get_precision s a = Some (p, r, b) \<Longrightarrow> length r \<le> length s"
  by (auto simp: get_precision_def skip_atoi_def split: list.splits if_splits prod.splits
      dest!: atoi_loop_length)

lemma skip_qualifier_length: "length (skip_qualifier s) \<le> length s"
  by (simp add: skip_qualifier_def split: list.split)

lemma conv_num_rest: "conv_num base w p f s a = Some (out, ip, r, b) \<Longrightarrow> r = s"
  by (auto simp: conv_num_def split: option.splits)

lemma conversion_rest:
  assumes "conversion f w p (c # s) a = Some (out, ip, r, b)"
  shows "r = s"
proof -
  have case_if: "(if P then x else y) = z \<Longrightarrow> (x = z \<Longrightarrow> Q) \<Longrightarrow> (y = z \<Longrightarrow> Q) \<Longrightarrow> Q"
    for P Q and x y z :: "(string \<times> u64 option \<times> string \<times> varg list) option"
    by (cases P) simp_all
  show ?thesis
    using assms unfolding conversion_def list.case
    by (elim case_if) (auto dest: conv_num_rest)
qed

lemma conversion_length: "conversion f w p s a = Some (out, ip, r, b) \<Longrightarrow> length r \<le> length s"
  by (cases s) (simp add: conversion_def, auto dest!: conversion_rest)

lemma directive_length:
  assumes "directive s a = Some (out, ip, r, b)"
  shows "length r \<le> length s"
proof -
  obtain f s1 where 1: "flags_loop 0 s = (f, s1)" by fastforce
  obtain w f2 s2 a2 where 2: "get_width f s1 a = Some (w, f2, s2, a2)"
    using assms by (auto simp: directive_def 1 Option.bind_eq_Some_conv)
  obtain p s3 a3 where 3: "get_precision s2 a2 = Some (p, s3, a3)"
    using assms by (auto simp: directive_def 1 2 Option.bind_eq_Some_conv)
  have 4: "conversion f2 w p (skip_qualifier s3) a3 = Some (out, ip, r, b)"
    using assms by (simp add: directive_def 1 2 3)
  show ?thesis
    using flags_loop_length [OF 1] get_width_length [OF 2] get_precision_length [OF 3]
      conversion_length [OF 4] skip_qualifier_length [of s3] by linarith
qed

text \<open>
  The loop over the format; \<open>out\<close> is \<open>buf\<close> up to \<open>str\<close>. The second part of the result lists
  the stores of \<open>%n\<close>.
\<close>

function vs_loop :: "string \<Rightarrow> varg list \<Rightarrow> string \<Rightarrow> (string \<times> (u64 \<times> nat) list) option" where
  "vs_loop [] args out = Some (out, [])"
| "vs_loop (c # fmt) args out =
     (if c \<noteq> CHR ''%'' then vs_loop fmt args (out @ [c])
      else case directive fmt args of
             None \<Rightarrow> None
           | Some (s, ip, fmt', args') \<Rightarrow>
               map_option (\<lambda>(res, ns). (res, case ip of None \<Rightarrow> ns | Some p \<Rightarrow> (p, length out) # ns))
                 (vs_loop fmt' args' (out @ s)))"
  by pat_completeness auto
termination
  by (relation "measure (\<lambda>(fmt, _, _). length fmt)") (auto dest!: directive_length)

text \<open>\<open>vsprintf\<close>: the count it returns, the string in \<open>buf\<close> and the stores of \<open>%n\<close>.\<close>

definition vsprintf :: "string \<Rightarrow> varg list \<Rightarrow> (nat \<times> string \<times> (u64 \<times> nat) list) option" where
  "vsprintf fmt args = map_option (\<lambda>(res, ns). (length res, res, ns)) (vs_loop fmt args [])"

section \<open>Reading back\<close>

definition digit_val :: "char \<Rightarrow> nat" where
  "digit_val c =
     (let n = of_char c in
      if 48 \<le> n \<and> n \<le> 57 then n - 48 else if 65 \<le> n \<and> n \<le> 90 then n - 55 else n - 87)"

definition read_num :: "nat \<Rightarrow> string \<Rightarrow> nat" where
  "read_num base s = foldl (\<lambda>a c. a * base + digit_val c) 0 s"

lemma read_num_snoc [simp]: "read_num b (s @ [c]) = read_num b s * b + digit_val c"
  by (simp add: read_num_def)

lemma read_num_Nil [simp]: "read_num b [] = 0"
  by (simp add: read_num_def)

lemma read_num_zeros: "read_num b (replicate n CHR ''0'' @ s) = read_num b s"
proof -
  have "foldl (\<lambda>a c. a * b + digit_val c) 0 (replicate n CHR ''0'') = 0"
    by (induction n) (simp_all add: digit_val_def)
  then show ?thesis by (simp add: read_num_def)
qed

abbreviation digit_table :: "string \<Rightarrow> bool" where
  "digit_table digits \<equiv> (\<forall>k<36. digit_val (digits ! k) = k)"

lemma digit_tableI:
  assumes "map digit_val digits = [0..<36]"
  shows "digit_table digits"
  using assms by (metis add_0 diff_zero length_map length_upt nth_map nth_upt)

lemma upper_table: "digit_table upper_digits"
  by (rule digit_tableI) (simp add: digit_val_def upt_rec)

lemma lower_table: "digit_table lower_digits"
  by (rule digit_tableI) (simp add: digit_val_def upt_rec)

lemma read_digit_loop:
  assumes "digit_table digits" "2 \<le> base" "base \<le> 36"
  shows "read_num base (rev (digit_loop digits base n)) = n"
  using assms
proof (induction n rule: less_induct)
  case (less n)
  show ?case
  proof (cases "n = 0")
    case True
    then show ?thesis by (simp add: digit_loop.simps)
  next
    case False
    then have "n div base < n" using less.prems by simp
    then have "read_num base (rev (digit_loop digits base (n div base))) = n div base"
      using less.IH less.prems by blast
    moreover have "digit_val (digits ! (n mod base)) = n mod base"
      using less.prems by (meson mod_less_divisor less_le_trans zero_less_numeral)
    ultimately show ?thesis
      using False less.prems digit_loop.simps [of digits base n] by simp
  qed
qed


lemma digit_loop_nonempty: "0 < n \<Longrightarrow> 2 \<le> base \<Longrightarrow> digit_loop digits base n \<noteq> []"
  by (subst digit_loop.simps) simp

text \<open>The digits of \<open>number\<close>, before padding and with the precision applied.\<close>

lemma number_digits:
  assumes "digit_table digits" "2 \<le> base" "base \<le> 36" "0 \<le> k"
    and "tmp = (if num = 0 then ''0'' else digit_loop digits base (unat (num :: u32)))"
  shows "tmp \<noteq> []" "read_num base (replicate k CHR ''0'' @ rev tmp) = unat num"
proof -
  show "tmp \<noteq> []"
    using assms(2,5) by (simp add: digit_loop_nonempty unat_gt_0)
  show "read_num base (replicate k CHR ''0'' @ rev tmp) = unat num"
    using assms(1-3,5) read_digit_loop [of digits base "unat num"]
    by (auto simp: read_num_zeros) (simp add: read_num_def digit_val_def)
qed

lemma digit_loop_bound:
  assumes "2 \<le> base" "n < 2 ^ k"
  shows "length (digit_loop digits base n) \<le> k"
  using assms
proof (induction k arbitrary: n)
  case 0
  then show ?case by (simp add: digit_loop.simps)
next
  case (Suc k)
  have "n div base \<le> n div 2" using Suc.prems(1) by (simp add: div_le_mono2)
  also have "\<dots> < 2 ^ k" using Suc.prems(2) by auto
  finally have "length (digit_loop digits base (n div base)) \<le> k" using Suc.IH Suc.prems(1) by blast
  then show ?case using digit_loop.simps [of digits base n] by simp
qed

lemma has_both: "x AND 17 = 0 \<longleftrightarrow> x AND ZEROPAD = 0 \<and> x AND LEFT = 0"
proof -
  have "x AND 17 = (x AND ZEROPAD) OR (x AND LEFT)"
    by (simp flip: bit.conj_disj_distrib)
  then show ?thesis by (simp add: or_eq_0_iff)
qed

lemma unpadded_bits:
  "(x AND NOT ZEROPAD) AND ZEROPAD = 0"
  "(x AND NOT ZEROPAD) AND SIGN = x AND SIGN"
  "(x AND NOT ZEROPAD) AND PLUS = x AND PLUS"
  "(x AND NOT ZEROPAD) AND SPACE = x AND SPACE"
  "(x AND NOT ZEROPAD) AND LEFT = x AND LEFT"
  "(x AND NOT ZEROPAD) AND SPECIAL = x AND SPECIAL"
  by (simp_all add: and.assoc)

lemma unpadded_parts:
  "num_sign (x AND NOT ZEROPAD) num = num_sign x num"
  "num_abs (x AND NOT ZEROPAD) num = num_abs x num"
  "prefix_size (x AND NOT ZEROPAD) base = prefix_size x base"
  "num_prefix (x AND NOT ZEROPAD) base digits = num_prefix x base digits"
  by (simp_all only: num_sign_def num_abs_def prefix_size_def num_prefix_def unpadded_bits)

lemma num_sizes:
  "int (length (num_prefix x base digits)) = prefix_size x base"
  "length (num_sign x num) = (if num_sign x num \<noteq> [] then 1 else 0)"
  by (simp_all add: num_prefix_def prefix_size_def num_sign_def)

text \<open>The three layouts: left justified, filled with zeros, filled with blanks.\<close>

definition layout :: "u32 \<Rightarrow> int \<Rightarrow> string \<Rightarrow> string \<Rightarrow> string \<Rightarrow> string" where
  "layout type k sign prefix ds =
     (if has_bits type LEFT then sign @ prefix @ ds @ replicate (nat k) CHR '' ''
      else if has_bits type ZEROPAD then sign @ prefix @ replicate (nat k) CHR ''0'' @ ds
      else replicate (nat k) CHR '' '' @ sign @ prefix @ ds)"

lemma emit_layout:
  "emit (if has_bits type LEFT then type AND NOT ZEROPAD else type) sz precision sign prefix tmp =
   layout type sz sign prefix (replicate (nat (precision - int (length tmp))) CHR ''0'' @ rev tmp)"
proof (cases "has_bits type LEFT")
  case True
  define t where "t = type AND NOT ZEROPAD"
  have "t AND ZEROPAD = 0" "has_bits t LEFT"
    using True by (simp_all only: t_def unpadded_bits not_False_eq_True)
  then show ?thesis
    using True unfolding t_def [symmetric] by (simp add: emit_def has_both layout_def pad_def)
next
  case False
  then show ?thesis
    by (cases "has_bits type ZEROPAD") (simp_all add: emit_def has_both layout_def pad_def)
qed

lemma number_layout:
  assumes "2 \<le> base" "base \<le> 36"
    and "digits = (if has_bits type SMALL then lower_digits else upper_digits)"
    and "tmp = num_tmp digits base (num_abs type num)"
    and "p = max precision (int (length tmp))"
    and "sign = num_sign type num" and "prefix = num_prefix type base digits"
  shows "number num base sz precision type =
    Some (layout type (sz - int (length sign) - int (length prefix) - p) sign prefix
            (replicate (nat (p - int (length tmp))) CHR ''0'' @ rev tmp))"
proof -
  define type' where "type' = (if has_bits type LEFT then type AND NOT ZEROPAD else type)"
  have parts: "num_sign type' num = sign" "num_abs type' num = num_abs type num"
    "prefix_size type' base = int (length prefix)" "num_prefix type' base digits = prefix"
    unfolding assms(6,7) num_sizes(1) type'_def
    by (simp_all only: unpadded_parts split: if_split) simp_all
  have sz: "(if sign \<noteq> [] then sz - 1 else sz) = sz - int (length sign)"
    using num_sizes(2) [of type num] assms(6) by auto
  have p: "(if int (length tmp) > precision then int (length tmp) else precision) = p"
    using assms(5) by simp
  have "\<not> (base < 2 \<or> base > 36)" using assms(1,2) by simp
  then show ?thesis
    using emit_layout [of type _ p sign prefix tmp]
    unfolding number_def Let_def type'_def [symmetric] assms(3) [symmetric] parts
      assms(4) [symmetric] sz p by simp
qed

lemma sint_neg_unat:
  assumes "sint (num :: u32) < 0"
  shows "uint (- num) = - sint num"
proof -
  have u: "uint num = sint num + 2 ^ 32"
  proof -
    have "- (2 ^ 31) \<le> sint num" using sint_greater_eq [of num] by simp
    then have "(sint num + 2 ^ 32) mod 2 ^ 32 = sint num + 2 ^ 32"
      using assms by (intro mod_pos_pos_trivial) simp_all
    then show ?thesis by (simp add: uint_sint take_bit_eq_mod)
  qed
  have "0 < uint num" "uint num < 2 ^ 32"
    using u sint_greater_eq [of num] uint_lt2p [of num] by (simp_all add: word_size)
  then have "uint (- num) = 2 ^ 32 - uint num"
    by (simp add: uint_word_ariths zmod_zminus1_eq_if)
  then show ?thesis using u by simp
qed



section \<open>Decimal numbers in a format\<close>

lemma digit_val_digit: "is_digit c \<Longrightarrow> int (digit_val c) = of_char c - 48"
  by (simp add: is_digit_def digit_val_def Let_def of_nat_diff of_nat_of_char)

lemma atoi_loop_digits:
  "list_all is_digit ds \<Longrightarrow>
   atoi_loop (int a) ds = (int (foldl (\<lambda>a c. a * 10 + digit_val c) a ds), [])"
proof (induction ds arbitrary: a)
  case (Cons c ds)
  have "int a * 10 + of_char c - 48 = int (a * 10 + digit_val c)"
    using Cons.prems by (simp add: digit_val_digit)
  then show ?case
    using Cons.IH [of "a * 10 + digit_val c"] Cons.prems by (simp del: of_nat_add of_nat_mult)
qed simp

lemma skip_atoi_digits: "list_all is_digit ds \<Longrightarrow> skip_atoi ds = (int (read_num 10 ds), [])"
  using atoi_loop_digits [of ds 0] by (simp add: skip_atoi_def read_num_def)

lemma decimal_digits: "list_all is_digit (map (nth upper_digits) [0..<10])"
  by (simp add: is_digit_def upt_rec)

lemma digit_loop_decimal: "list_all is_digit (digit_loop upper_digits 10 n)"
proof (induction n rule: less_induct)
  case (less n)
  have "n mod 10 \<in> set [0..<10]" by simp
  then have "is_digit (upper_digits ! (n mod 10))"
    using decimal_digits unfolding list_all_iff set_map by blast
  then show ?case using less digit_loop.simps [of upper_digits 10 n] by simp
qed

lemma number_decimal:
  "number num 10 (-1) (-1) SIGN =
     Some (num_sign SIGN num @ rev (num_tmp upper_digits 10 (num_abs SIGN num)))"
  using number_layout [of 10 upper_digits SIGN _ num _ "-1" _ _ "-1", OF _ _ _ refl refl refl refl]
  by (simp add: layout_def num_prefix_def)

lemma vs_loop_text: "CHR ''%'' \<notin> set t \<Longrightarrow> vs_loop (t @ fmt) args out = vs_loop fmt args (out @ t)"
  by (induction t arbitrary: out) auto

lemma directive_d:
  "directive (CHR ''d'' # fmt) (AInt x # args) =
     Some (num_sign SIGN (ucast x) @ rev (num_tmp upper_digits 10 (num_abs SIGN (ucast x))), None, fmt, args)"
  by (simp add: directive_def get_width_def get_precision_def skip_qualifier_def conversion_def
      conv_num_def is_digit_def number_decimal)



text \<open>
  A \<open>*\<close> width is broken: the argument is taken, but the format pointer is not moved past
  the \<open>*\<close>, so \<open>%*d\<close> prints itself instead of the next argument.
\<close>

theorem vsprintf_star: "vsprintf ''%*d'' [AInt w, AInt x] = Some (3, ''%*d'', [])"
  by (simp add: vsprintf_def directive_def get_width_def get_precision_def skip_qualifier_def
      conversion_def arg_int_def is_digit_def split: if_split)

end
