(* ===== verification/Memory.thy ===== *)
theory Memory
  imports Vsprintf
begin

text \<open>
  The memory manager, \<open>src/mm/memory.c\<close>: the page allocator with its reference counts
  \<open>mem_map\<close>, the walk of the four-level page tables, the copy-on-write copy of a range for
  \<open>fork\<close>, the removal of a range, and the page-fault handlers.

  Every memory access of \<open>memory.c\<close> is to an aligned \<open>unsigned long\<close>, so physical memory is
  a function \<open>qmem\<close> from the address of such a word to its value. A pointer is its address and
  \<open>0\<close> is \<open>NULL\<close>. \<open>mem_map\<close> is an array of \<open>PAGING_PAGES\<close> counters; an index past its end
  is a \<open>Fault\<close>.
\<close>

section \<open>State and constants\<close>

record mm =
  qmem :: "u64 \<Rightarrow> u64"
  mem_map :: "u16 list"
  tlb_loads :: nat \<comment> \<open>how often \<open>invalidate()\<close> has reloaded CR3\<close>
  klog :: "(string \<times> varg list) list" \<comment> \<open>the \<open>printk\<close> calls made, latest first\<close>

abbreviation newline :: string where "newline \<equiv> [CHR 0x0A]"

definition printk :: "string \<Rightarrow> varg list \<Rightarrow> 'a mm_scheme \<Rightarrow> 'a mm_scheme" where
  "printk fmt args s = s\<lparr>klog := (fmt, args) # klog s\<rparr>"

abbreviation HIGH_MEMORY :: u64 where "HIGH_MEMORY \<equiv> 0x800000"
abbreviation BUFFER_END :: u64 where "BUFFER_END \<equiv> 0x200000"
abbreviation LOW_MEM :: u64 where "LOW_MEM \<equiv> BUFFER_END"
abbreviation PAGING_PAGES :: nat where "PAGING_PAGES \<equiv> 1536"
abbreviation PML4_ADDR :: u64 where "PML4_ADDR \<equiv> 0x1000"

abbreviation PAGE_PRESENT :: u64 where "PAGE_PRESENT \<equiv> 0x001"
abbreviation PAGE_WRITE :: u64 where "PAGE_WRITE \<equiv> 0x002"
abbreviation PAGE_USER :: u64 where "PAGE_USER \<equiv> 0x004"
abbreviation SIGSEGV :: int where "SIGSEGV \<equiv> 11"

definition PML4_INDEX :: "u64 \<Rightarrow> u64" where "PML4_INDEX addr = drop_bit 39 addr AND 0x1FF"
definition PDPT_INDEX :: "u64 \<Rightarrow> u64" where "PDPT_INDEX addr = drop_bit 30 addr AND 0x1FF"
definition PD_INDEX :: "u64 \<Rightarrow> u64" where "PD_INDEX addr = drop_bit 21 addr AND 0x1FF"
definition PT_INDEX :: "u64 \<Rightarrow> u64" where "PT_INDEX addr = drop_bit 12 addr AND 0x1FF"
definition PAGE_OFFSET :: "u64 \<Rightarrow> u64" where "PAGE_OFFSET addr = addr AND 0xFFF"
definition PTE_ADDR :: "u64 \<Rightarrow> u64" where "PTE_ADDR pte = pte AND 0x000FFFFFFFFFF000"
definition MAP_NR :: "u64 \<Rightarrow> nat" where "MAP_NR addr = unat (drop_bit 12 (addr - LOW_MEM))"

text \<open>\<open>p[i]\<close> for an \<open>unsigned long *p\<close>: the address of the element.\<close>

definition elem :: "u64 \<Rightarrow> u64 \<Rightarrow> u64" where "elem p i = p + 8 * i"

definition invalidate :: "'a mm_scheme \<Rightarrow> 'a mm_scheme" where
  "invalidate s = s\<lparr>tlb_loads := Suc (tlb_loads s)\<rparr>"

definition write_q :: "u64 \<Rightarrow> u64 \<Rightarrow> 'a mm_scheme \<Rightarrow> 'a mm_scheme" where
  "write_q a v s = s\<lparr>qmem := (qmem s)(a := v)\<rparr>"

section \<open>The page allocator\<close>

text \<open>\<open>for (i = 0; i < 4096/sizeof(unsigned long); i++) dst[i] = src[i];\<close>\<close>

definition copy_page :: "u64 \<Rightarrow> u64 \<Rightarrow> 'a mm_scheme \<Rightarrow> 'a mm_scheme" where
  "copy_page src dst s =
     s\<lparr>qmem := fold (\<lambda>i m. m(elem dst (of_nat i) := m (elem src (of_nat i)))) [0..<512] (qmem s)\<rparr>"

text \<open>The loop \<open>for (j = 0; ...; j++) p[j] = 0;\<close> of \<open>get_free_page\<close>.\<close>

definition zero_page :: "u64 \<Rightarrow> 'a mm_scheme \<Rightarrow> 'a mm_scheme" where
  "zero_page p s = s\<lparr>qmem := fold (\<lambda>j m. m(elem p (of_nat j) := 0)) [0..<512] (qmem s)\<rparr>"

text \<open>The downward search: the greatest index below \<open>n\<close> whose counter is zero.\<close>

fun last_free :: "nat \<Rightarrow> u16 list \<Rightarrow> nat option" where
  "last_free 0 m = None"
| "last_free (Suc i) m = (if m ! i = 0 then Some i else last_free i m)"

definition page_of :: "nat \<Rightarrow> u64" where
  "page_of i = LOW_MEM + push_bit 12 (of_nat i)"

definition get_free_page :: "'a mm_scheme \<Rightarrow> u64 \<times> 'a mm_scheme" where
  "get_free_page s =
     (case last_free PAGING_PAGES (mem_map s) of
        Some i \<Rightarrow> (page_of i, zero_page (page_of i) (s\<lparr>mem_map := (mem_map s)[i := 1]\<rparr>))
      | None \<Rightarrow> (0, s))"

definition free_page :: "u64 \<Rightarrow> 'a mm_scheme \<Rightarrow> ('a mm_scheme, unit) res" where
  "free_page addr s =
     (if addr < LOW_MEM then Inr ((), s)
      else if addr > HIGH_MEMORY then Inl (Panic ''trying to free nonexistent page'')
      else let n = MAP_NR addr in
        bindE (aget (mem_map s) n) (\<lambda>c.
        if c \<noteq> 0 then Inr ((), s\<lparr>mem_map := (mem_map s)[n := c - 1]\<rparr>)
        else Inl (Panic ''trying to free free page'')))"

section \<open>The walk of the page tables\<close>

definition get_pml4 :: u64 where "get_pml4 = PML4_ADDR"

definition get_pdpt :: "u64 \<Rightarrow> bool \<Rightarrow> 'a mm_scheme \<Rightarrow> u64 \<times> 'a mm_scheme" where
  "get_pdpt addr create s =
     (let pml4 = get_pml4; pml4e = qmem s (elem pml4 (PML4_INDEX addr)) in
      if \<not> has_bits pml4e PAGE_PRESENT then
        if \<not> create then (0, s)
        else let (page, s) = get_free_page s in
          if page = 0 then (0, s)
          else (page, write_q (elem pml4 (PML4_INDEX addr))
                        (page OR PAGE_PRESENT OR PAGE_WRITE OR PAGE_USER) s)
      else (PTE_ADDR pml4e, s))"

definition get_pd :: "u64 \<Rightarrow> bool \<Rightarrow> 'a mm_scheme \<Rightarrow> u64 \<times> 'a mm_scheme" where
  "get_pd addr create s =
     (let (pdpt, s) = get_pdpt addr create s in
      if pdpt = 0 then (0, s)
      else let pdpte = qmem s (elem pdpt (PDPT_INDEX addr)) in
        if \<not> has_bits pdpte PAGE_PRESENT then
          if \<not> create then (0, s)
          else let (page, s) = get_free_page s in
            if page = 0 then (0, s)
            else (page, write_q (elem pdpt (PDPT_INDEX addr))
                          (page OR PAGE_PRESENT OR PAGE_WRITE OR PAGE_USER) s)
        else (PTE_ADDR pdpte, s))"

definition get_pt :: "u64 \<Rightarrow> bool \<Rightarrow> 'a mm_scheme \<Rightarrow> u64 \<times> 'a mm_scheme" where
  "get_pt addr create s =
     (let (pd, s) = get_pd addr create s in
      if pd = 0 then (0, s)
      else let pde = qmem s (elem pd (PD_INDEX addr)) in
        if \<not> has_bits pde PAGE_PRESENT then
          if \<not> create then (0, s)
          else let (page, s) = get_free_page s in
            if page = 0 then (0, s)
            else (page, write_q (elem pd (PD_INDEX addr))
                          (page OR PAGE_PRESENT OR PAGE_WRITE OR PAGE_USER) s)
        else (PTE_ADDR pde, s))"

definition get_pte :: "u64 \<Rightarrow> bool \<Rightarrow> 'a mm_scheme \<Rightarrow> u64 \<times> 'a mm_scheme" where
  "get_pte addr create s =
     (let (pt, s) = get_pt addr create s in
      if pt = 0 then (0, s) else (elem pt (PT_INDEX addr), s))"

section \<open>Ranges of pages\<close>

text \<open>
  \<open>size = (size + 0x1FFFFF) & ~0x1FFFFF\<close>, and the addresses \<open>from, from + 0x1000, ...\<close> below
  \<open>limit\<close>. Both ends of every loop below are multiples of 2 MB, so \<open>addr += 0x1000\<close> meets the
  limit exactly and the number of steps is the distance divided by the page size; with
  \<open>limit < from\<close> (the sum has wrapped around) the loop does not run at all.
\<close>

definition round_2MB :: "u64 \<Rightarrow> u64" where
  "round_2MB sz = (sz + 0x1FFFFF) AND NOT 0x1FFFFF"

definition page_steps :: "u64 \<Rightarrow> u64 \<Rightarrow> u64 list" where
  "page_steps from limit =
     (if from < limit
      then map (\<lambda>k. from + 0x1000 * of_nat k) [0..<unat (limit - from) div 0x1000]
      else [])"

text \<open>The body of the loop of \<open>free_page_tables\<close>.\<close>

definition free_one :: "u64 \<Rightarrow> 'a mm_scheme \<Rightarrow> ('a mm_scheme, unit) res" where
  "free_one addr s =
     (let (pte, s) = get_pte addr False s in
      if pte \<noteq> 0 \<and> has_bits (qmem s pte) PAGE_PRESENT then
        let page = PTE_ADDR (qmem s pte) in
        bindE (if page \<ge> LOW_MEM then free_page page s else Inr ((), s)) (\<lambda>(_, s).
        Inr ((), write_q pte 0 s))
      else Inr ((), s))"

fun free_loop :: "u64 list \<Rightarrow> 'a mm_scheme \<Rightarrow> ('a mm_scheme, unit) res" where
  "free_loop [] s = Inr ((), s)"
| "free_loop (addr # addrs) s = bindE (free_one addr s) (\<lambda>(_, s). free_loop addrs s)"

definition free_page_tables :: "u64 \<Rightarrow> u64 \<Rightarrow> 'a mm_scheme \<Rightarrow> ('a mm_scheme, int) res" where
  "free_page_tables from sz s =
     (if has_bits from 0x1FFFFF then Inl (Panic ''free_page_tables called with wrong alignment'')
      else if from = 0 then Inl (Panic ''Trying to free up swapper memory space'')
      else let sz = round_2MB sz in
        bindE (free_loop (page_steps from (from + sz)) s) (\<lambda>(_, s).
        Inr (0, invalidate s)))"

text \<open>
  The body of the loop of \<open>copy_page_tables\<close>; \<open>False\<close> is the early \<open>return -1\<close> for lack of
  memory. \<open>mem_map[MAP_NR(phys)]++\<close> has no upper bound check.
\<close>

definition copy_one :: "u64 \<Rightarrow> u64 \<Rightarrow> 'a mm_scheme \<Rightarrow> ('a mm_scheme, bool) res" where
  "copy_one from_addr to_addr s =
     (let (from_pte, s) = get_pte from_addr False s in
      if from_pte = 0 \<or> \<not> has_bits (qmem s from_pte) PAGE_PRESENT then Inr (True, s)
      else let (to_pte, s) = get_pte to_addr True s in
        if to_pte = 0 then Inr (False, s)
        else let this_page = qmem s from_pte AND NOT PAGE_WRITE;
                 s = write_q to_pte this_page s;
                 phys = PTE_ADDR this_page in
          if phys \<ge> LOW_MEM then
            let s = write_q from_pte this_page s in
            bindE (aget (mem_map s) (MAP_NR phys)) (\<lambda>c.
            Inr (True, s\<lparr>mem_map := (mem_map s)[MAP_NR phys := c + 1]\<rparr>))
          else Inr (True, s))"

fun copy_loop :: "u64 \<Rightarrow> u64 \<Rightarrow> u64 list \<Rightarrow> 'a mm_scheme \<Rightarrow> ('a mm_scheme, bool) res" where
  "copy_loop from to [] s = Inr (True, s)"
| "copy_loop from to (addr # addrs) s =
     bindE (copy_one (from + addr) (to + addr) s) (\<lambda>(ok, s).
     if ok then copy_loop from to addrs s else Inr (False, s))"

definition copy_page_tables ::
    "u64 \<Rightarrow> u64 \<Rightarrow> u64 \<Rightarrow> 'a mm_scheme \<Rightarrow> ('a mm_scheme, int) res" where
  "copy_page_tables from to sz s =
     (if has_bits from 0x1FFFFF \<or> has_bits to 0x1FFFFF
      then Inl (Panic ''copy_page_tables called with wrong alignment'')
      else let sz = round_2MB sz in
        bindE (copy_loop from to (page_steps 0 sz) s) (\<lambda>(ok, s).
        if ok then Inr (0, invalidate s) else Inr (-1, s)))"

section \<open>Single pages and the page-fault handlers\<close>

definition put_page :: "u64 \<Rightarrow> u64 \<Rightarrow> 'a mm_scheme \<Rightarrow> ('a mm_scheme, u64) res" where
  "put_page page address s =
     (let s = (if page < LOW_MEM \<or> page > HIGH_MEMORY
               then printk (''Trying to put page %p at %p'' @ newline) [AInt page, AInt address] s else s) in
      bindE (aget (mem_map s) (MAP_NR page)) (\<lambda>c.
      let s = (if c \<noteq> 1 then printk (''mem_map disagrees with %p at %p'' @ newline) [AInt page, AInt address] s else s);
          (pte, s) = get_pte address True s in
      if pte = 0 then Inr (0, s)
      else Inr (page, write_q pte (page OR PAGE_PRESENT OR PAGE_WRITE OR PAGE_USER) s)))"

definition un_wp_page :: "u64 \<Rightarrow> 'a mm_scheme \<Rightarrow> ('a mm_scheme, unit) res" where
  "un_wp_page table_entry s =
     (let old_page = PTE_ADDR (qmem s table_entry) in
      bindE (if old_page \<ge> LOW_MEM
             then bindE (aget (mem_map s) (MAP_NR old_page)) (\<lambda>c. Inr (c = 1))
             else Inr False) (\<lambda>sole.
      if sole
      then Inr ((), invalidate (write_q table_entry (qmem s table_entry OR PAGE_WRITE) s))
      else let (new_page, s) = get_free_page s in
        if new_page = 0 then Inl (Do_exit SIGSEGV s)
        else
          bindE (if old_page \<ge> LOW_MEM
                 then bindE (aget (mem_map s) (MAP_NR old_page)) (\<lambda>c.
                      Inr (s\<lparr>mem_map := (mem_map s)[MAP_NR old_page := c - 1]\<rparr>))
                 else Inr s) (\<lambda>s.
          Inr ((), copy_page old_page new_page (invalidate
            (write_q table_entry (new_page OR PAGE_PRESENT OR PAGE_WRITE OR PAGE_USER) s))))))"

definition do_wp_page :: "u64 \<Rightarrow> u64 \<Rightarrow> 'a mm_scheme \<Rightarrow> ('a mm_scheme, unit) res" where
  "do_wp_page error_code address s =
     (let (pte, s) = get_pte address False s in
      if pte \<noteq> 0 then un_wp_page pte s else Inr ((), s))"

definition write_verify :: "u64 \<Rightarrow> 'a mm_scheme \<Rightarrow> ('a mm_scheme, unit) res" where
  "write_verify address s =
     (let (pte, s) = get_pte address False s in
      if pte = 0 then Inr ((), s)
      else if qmem s pte AND (PAGE_PRESENT OR PAGE_WRITE) = PAGE_PRESENT
      then un_wp_page pte s else Inr ((), s))"

definition do_no_page :: "u64 \<Rightarrow> u64 \<Rightarrow> 'a mm_scheme \<Rightarrow> ('a mm_scheme, unit) res" where
  "do_no_page error_code address s =
     (let (page, s) = get_free_page s in
      if page \<noteq> 0 then
        bindE (put_page page address s) (\<lambda>(r, s).
        if r \<noteq> 0 then Inr ((), s) else Inl (Do_exit SIGSEGV s))
      else Inl (Do_exit SIGSEGV s))"

definition calc_mem :: "'a mm_scheme \<Rightarrow> 'a mm_scheme" where
  "calc_mem s =
     (let free = length (filter (\<lambda>i. mem_map s ! i = 0) [0..<PAGING_PAGES]) in
      printk (''%d pages free (of %d)'' @ newline @ [CHR 0x0D]) [AInt (of_nat free), AInt (of_nat PAGING_PAGES)] s)"

section \<open>Pages and table entries as words\<close>

definition page_aligned :: "u64 \<Rightarrow> bool" where "page_aligned p \<longleftrightarrow> p AND 0xFFF = 0"

lemma mask12: "(0xFFF :: u64) = mask 12" by (simp add: mask_eq_exp_minus_1)

lemma page_aligned_dvd: "page_aligned p \<longleftrightarrow> 4096 dvd unat p"
  using and_mask_dvd_nat [of 12 p] by (simp add: page_aligned_def mask12)

lemma unat_page_of: "i < PAGING_PAGES \<Longrightarrow> unat (page_of i) = 0x200000 + 4096 * i"
  by (simp add: page_of_def push_bit_eq_mult unat_word_ariths unat_of_nat)

lemma page_aligned_page_of: "i < PAGING_PAGES \<Longrightarrow> page_aligned (page_of i)"
  by (auto simp: page_aligned_dvd unat_page_of)

lemma page_of_neq_0: "i < PAGING_PAGES \<Longrightarrow> page_of i \<noteq> 0"
  using unat_page_of [of i] by auto

lemma page_of_inj: "i < PAGING_PAGES \<Longrightarrow> j < PAGING_PAGES \<Longrightarrow> page_of i = page_of j \<longleftrightarrow> i = j"
  by (simp add: word_unat_eq_iff unat_page_of)

lemma MAP_NR_page_of: "i < PAGING_PAGES \<Longrightarrow> MAP_NR (page_of i) = i"
  by (simp add: MAP_NR_def page_of_def push_bit_eq_mult drop_bit_eq_div unat_div unat_word_ariths unat_of_nat)

lemma page_of_range: "i < PAGING_PAGES \<Longrightarrow> LOW_MEM \<le> page_of i \<and> page_of i < HIGH_MEMORY"
  by (simp add: word_le_nat_alt word_less_nat_alt unat_page_of)

lemma MAP_NR_eq: "LOW_MEM \<le> p \<Longrightarrow> MAP_NR p = (unat p - 0x200000) div 4096"
  by (simp add: MAP_NR_def drop_bit_eq_div unat_div unat_sub)

lemma page_of_MAP_NR:
  assumes "page_aligned p" "LOW_MEM \<le> p" "p < HIGH_MEMORY"
  shows "MAP_NR p < PAGING_PAGES" and "page_of (MAP_NR p) = p"
proof -
  have lo: "0x200000 \<le> unat p" and hi: "unat p < 0x800000"
    using assms(2,3) by (simp_all add: word_le_nat_alt word_less_nat_alt)
  have d: "4096 dvd unat p" using assms(1) by (simp add: page_aligned_dvd)
  show 1: "MAP_NR p < PAGING_PAGES"
    using lo hi by (simp add: MAP_NR_eq assms(2)) 
  have "unat (page_of (MAP_NR p)) = unat p"
    using lo hi d unat_page_of [OF 1] by (auto simp: MAP_NR_eq assms(2) elim!: dvdE)
  then show "page_of (MAP_NR p) = p" by (simp add: word_unat_eq_iff)
qed

lemma unat_elem:
  assumes "page_aligned p" "i < 512"
  shows "unat (elem p i) = unat p + 8 * unat i"
proof -
  obtain k where k: "unat p = 4096 * k" using assms(1) by (auto simp: page_aligned_dvd elim!: dvdE)
  have "unat p < 2 ^ 64" using unsigned_less [of p] by simp
  with k have "k < 2 ^ 52" by simp
  moreover have "unat i < 512" using assms(2) by (simp add: word_less_nat_alt)
  ultimately show ?thesis using k by (simp add: elem_def unat_word_ariths)
qed

lemma elem_eq_iff:
  assumes "page_aligned p" "i < 512" "page_aligned p'" "i' < 512"
  shows "elem p i = elem p' i' \<longleftrightarrow> p = p' \<and> i = i'"
proof
  assume "elem p i = elem p' i'"
  then have eq: "unat p + 8 * unat i = unat p' + 8 * unat i'"
    using unat_elem [OF assms(1,2)] unat_elem [OF assms(3,4)] by simp
  obtain k where k: "unat p = 4096 * k" using assms(1) by (auto simp: page_aligned_dvd elim!: dvdE)
  obtain k' where k': "unat p' = 4096 * k'" using assms(3) by (auto simp: page_aligned_dvd elim!: dvdE)
  have "unat i < 512" "unat i' < 512" using assms(2,4) by (simp_all add: word_less_nat_alt)
  then have "(unat p + 8 * unat i) div 4096 = k" "(unat p' + 8 * unat i') div 4096 = k'"
    by (simp_all add: k k')
  with eq k k' have "unat p = unat p' \<and> unat i = unat i'" by simp
  then show "p = p' \<and> i = i'" by (simp add: word_unat_eq_iff)
qed simp

lemma page_aligned_PTE_ADDR: "page_aligned (PTE_ADDR e)"
  by (simp add: page_aligned_def PTE_ADDR_def and.assoc)


lemma take_bit_word_less:
  "unat x < 2 ^ n \<Longrightarrow> n < LENGTH('a) \<Longrightarrow> take_bit n (x :: 'a::len word) = x"
  by (metis take_bit_nat_eq_self unsigned_take_bit_eq word_unat_eq_iff)

lemma bit_word_bound:
  "unat x < 2 ^ n \<Longrightarrow> n < LENGTH('a) \<Longrightarrow> bit (x :: 'a::len word) k \<Longrightarrow> k < n"
  using take_bit_word_less [of x n] by (metis bit_take_bit_iff)

lemma PTE_ADDR_low_page:
  assumes "page_aligned p" "unat p < 2 ^ 52" "f < 8"
  shows "PTE_ADDR (p OR f) = p"
proof (rule bit_word_eqI)
  fix n :: nat assume n: "n < LENGTH(64)"
  have m: "(0x000FFFFFFFFFF000 :: u64) = push_bit 12 (mask 40)" by (simp add: mask_eq_exp_minus_1)
  have f: "bit f n \<Longrightarrow> n < 3"
    using assms(3) by (auto intro: bit_word_bound simp: word_less_nat_alt)
  have p: "bit p n \<Longrightarrow> n < 52"
    using assms(2) by (auto intro: bit_word_bound)
  have a: "12 \<le> n" if "bit p n"
  proof (rule ccontr)
    assume "\<not> 12 \<le> n"
    moreover have "\<not> bit (p AND mask 12) n" using assms(1) by (simp add: page_aligned_def mask12)
    ultimately show False using n that by (simp add: bit_and_iff bit_mask_iff)
  qed
  show "bit (PTE_ADDR (p OR f)) n = bit p n"
    unfolding PTE_ADDR_def m bit_and_iff bit_or_iff bit_push_bit_iff bit_mask_iff possible_bit_word
    using f p a n by fastforce
qed

lemma PTE_ADDR_page:
  "i < PAGING_PAGES \<Longrightarrow> f < 8 \<Longrightarrow> PTE_ADDR (page_of i OR f) = page_of i"
  by (rule PTE_ADDR_low_page) (simp_all add: page_aligned_page_of unat_page_of)

lemma has_bits_or: "has_bits (p OR (f :: u64)) g \<longleftrightarrow> has_bits p g \<or> has_bits f g"
  unfolding bit.conj_disj_distrib2 or_eq_0_iff by blast


end
