(* ===== verification/Page_Tables.thy ===== *)
theory Page_Tables
  imports Memory
begin

text \<open>
  What the page tables of \<open>src/mm/memory.c\<close> mean, and the memory manager's correctness.

  A \<^emph>\<open>path\<close> is a list of table indices, the last one first. \<open>tab m p\<close> is the table (or, for
  four indices, the page frame) that the hardware reaches from the PML4 along \<open>p\<close>, and
  \<open>ent m p\<close> the entry it reads last. \<open>mm_wf\<close> is the invariant: the tables form a tree, the
  counters of \<open>mem_map\<close> cover every table and every mapping of a page outside the kernel's
  identity map.
\<close>

section \<open>The meaning of the page tables\<close>

fun tab :: "(u64 \<Rightarrow> u64) \<Rightarrow> u64 list \<Rightarrow> u64 option" where
  "tab m [] = Some PML4_ADDR"
| "tab m (i # p) =
     (case tab m p of
        None \<Rightarrow> None
      | Some t \<Rightarrow> if has_bits (m (elem t i)) PAGE_PRESENT then Some (PTE_ADDR (m (elem t i))) else None)"

fun ent :: "(u64 \<Rightarrow> u64) \<Rightarrow> u64 list \<Rightarrow> u64" where
  "ent m [] = 0"
| "ent m (i # p) = (case tab m p of None \<Rightarrow> 0 | Some t \<Rightarrow> m (elem t i))"

definition vpath :: "u64 \<Rightarrow> u64 list" where
  "vpath va = [PT_INDEX va, PD_INDEX va, PDPT_INDEX va, PML4_INDEX va]"

definition pte_of :: "'a mm_scheme \<Rightarrow> u64 \<Rightarrow> u64" where
  "pte_of s va = ent (qmem s) (vpath va)"

definition idx_ok :: "u64 list \<Rightarrow> bool" where
  "idx_ok p \<longleftrightarrow> list_all (\<lambda>i. i < 512) p"

definition tpath :: "u64 list \<Rightarrow> bool" where
  "tpath p \<longleftrightarrow> length p \<le> 3 \<and> idx_ok p"

text \<open>The boot code maps the first 16 MB (PML4[0], PDPT[0], PD[0] to PD[7]) identically;
  everything else is a user path.\<close>

definition upath :: "u64 list \<Rightarrow> bool" where
  "upath p \<longleftrightarrow> length p = 4 \<and> idx_ok p \<and> \<not> (p ! 1 < 8 \<and> p ! 2 = 0 \<and> p ! 3 = 0)"

definition mappers :: "(u64 \<Rightarrow> u64) \<Rightarrow> u64 \<Rightarrow> u64 list set" where
  "mappers m f = {p. upath p \<and> tab m p = Some f}"

definition mm_wf :: "'a mm_scheme \<Rightarrow> bool" where
  "mm_wf s \<longleftrightarrow>
     length (mem_map s) = PAGING_PAGES \<and>
     (\<forall>p t. tpath p \<longrightarrow> tab (qmem s) p = Some t \<longrightarrow>
        t \<noteq> 0 \<and> t < HIGH_MEMORY \<and> (LOW_MEM \<le> t \<longrightarrow> mem_map s ! MAP_NR t \<noteq> 0)) \<and>
     (\<forall>p q t. tpath p \<longrightarrow> tpath q \<longrightarrow> tab (qmem s) p = Some t \<longrightarrow> tab (qmem s) q = Some t \<longrightarrow> p = q) \<and>
     (\<forall>p q f. upath p \<longrightarrow> tab (qmem s) p = Some f \<longrightarrow> LOW_MEM \<le> f \<longrightarrow>
        f < HIGH_MEMORY \<and> (tpath q \<longrightarrow> tab (qmem s) q \<noteq> Some f)) \<and>
     (\<forall>i < PAGING_PAGES. card (mappers (qmem s) (page_of i)) \<le> unat (mem_map s ! i))"

section \<open>Basic facts\<close>

lemma PML4_aligned [simp]: "page_aligned PML4_ADDR" by (simp add: page_aligned_def)

lemma tab_aligned: "tab m p = Some t \<Longrightarrow> page_aligned t"
  by (cases p) (auto simp: page_aligned_PTE_ADDR split: option.splits if_splits)

lemma tpath_Nil [simp]: "tpath []" by (simp add: tpath_def idx_ok_def)

lemma tpath_Cons: "tpath (i # p) \<longleftrightarrow> i < 512 \<and> length p \<le> 2 \<and> tpath p"
  by (auto simp: tpath_def idx_ok_def)

lemma upath_Cons_tpath: "upath (i # p) \<Longrightarrow> i < 512 \<and> tpath p \<and> length p = 3"
  by (auto simp: tpath_def idx_ok_def upath_def)

lemma finite_upaths: "finite {p. upath p}"
proof (rule finite_subset)
  show "{p. upath p} \<subseteq> {p. set p \<subseteq> UNIV \<and> length p = 4}" by (auto simp: upath_def)
qed (rule finite_lists_length_eq, simp)

lemma finite_mappers [simp]: "finite (mappers m f)"
  by (rule finite_subset [OF _ finite_upaths]) (auto simp: mappers_def)

lemma and_mask9_less: "(x AND 0x1FF :: u64) < 512"
proof -
  have "(0x1FF :: u64) = mask 9" by (simp add: mask_eq_exp_minus_1)
  then show ?thesis using and_mask_less_size [of 9 x] by (simp add: word_size)
qed

lemma index_less [simp]:
  "PML4_INDEX va < 512" "PDPT_INDEX va < 512" "PD_INDEX va < 512" "PT_INDEX va < 512"
  by (simp_all add: PML4_INDEX_def PDPT_INDEX_def PD_INDEX_def PT_INDEX_def and_mask9_less)

lemma tab_Cons_ent:
  "tab m (i # p) = (if has_bits (ent m (i # p)) PAGE_PRESENT then Some (PTE_ADDR (ent m (i # p))) else None)"
  by (auto split: option.splits)

lemma tab_None_suffix: "tab m p = None \<Longrightarrow> tab m (q @ p) = None"
  by (induction q) auto


section \<open>Writes to memory and the tables\<close>

definition table_page :: "(u64 \<Rightarrow> u64) \<Rightarrow> u64 \<Rightarrow> bool" where
  "table_page m t \<longleftrightarrow> (\<exists>p. tpath p \<and> tab m p = Some t)"

lemma mm_wf_length: "mm_wf s \<Longrightarrow> length (mem_map s) = PAGING_PAGES"
  by (simp add: mm_wf_def)

lemma mm_wf_table:
  "mm_wf s \<Longrightarrow> tpath p \<Longrightarrow> tab (qmem s) p = Some t \<Longrightarrow>
     t \<noteq> 0 \<and> t < HIGH_MEMORY \<and> (LOW_MEM \<le> t \<longrightarrow> mem_map s ! MAP_NR t \<noteq> 0)"
  by (simp add: mm_wf_def)

lemma mm_wf_inj:
  "mm_wf s \<Longrightarrow> tpath p \<Longrightarrow> tpath q \<Longrightarrow> tab (qmem s) p = Some t \<Longrightarrow> tab (qmem s) q = Some t \<Longrightarrow> p = q"
  unfolding mm_wf_def by blast

lemma mm_wf_frame:
  "mm_wf s \<Longrightarrow> upath p \<Longrightarrow> tab (qmem s) p = Some f \<Longrightarrow> LOW_MEM \<le> f \<Longrightarrow>
     f < HIGH_MEMORY \<and> \<not> table_page (qmem s) f"
  unfolding mm_wf_def table_page_def by blast

lemma mm_wf_count:
  "mm_wf s \<Longrightarrow> i < PAGING_PAGES \<Longrightarrow> card (mappers (qmem s) (page_of i)) \<le> unat (mem_map s ! i)"
  by (simp add: mm_wf_def)

lemma mm_wfI:
  assumes "length (mem_map s) = PAGING_PAGES"
    and "\<And>p t. tpath p \<Longrightarrow> tab (qmem s) p = Some t \<Longrightarrow>
        t \<noteq> 0 \<and> t < HIGH_MEMORY \<and> (LOW_MEM \<le> t \<longrightarrow> mem_map s ! MAP_NR t \<noteq> 0)"
    and "\<And>p q t. tpath p \<Longrightarrow> tpath q \<Longrightarrow> tab (qmem s) p = Some t \<Longrightarrow> tab (qmem s) q = Some t \<Longrightarrow> p = q"
    and "\<And>p f. upath p \<Longrightarrow> tab (qmem s) p = Some f \<Longrightarrow> LOW_MEM \<le> f \<Longrightarrow>
        f < HIGH_MEMORY \<and> \<not> table_page (qmem s) f"
    and "\<And>i. i < PAGING_PAGES \<Longrightarrow> card (mappers (qmem s) (page_of i)) \<le> unat (mem_map s ! i)"
  shows "mm_wf s"
  using assms unfolding mm_wf_def table_page_def by blast

text \<open>A write that hits no table entry changes no path.\<close>

lemma tab_frame:
  assumes "\<And>t i. table_page m t \<Longrightarrow> i < 512 \<Longrightarrow> m' (elem t i) = m (elem t i)"
  shows "idx_ok q \<Longrightarrow> length q \<le> 4 \<Longrightarrow> tab m' q = tab m q \<and> ent m' q = ent m q"
proof (induction q)
  case (Cons j q)
  then have tq: "tpath q" and j: "j < 512" by (auto simp: tpath_def idx_ok_def)
  have "tab m' q = tab m q" using Cons by (auto simp: idx_ok_def)
  moreover have "m' (elem t j) = m (elem t j)" if "tab m q = Some t" for t
    using assms [of t j] that tq j by (auto simp: table_page_def)
  ultimately show ?case by (auto split: option.splits)
qed simp

text \<open>Writing the entry \<open>i\<close> of the table at \<open>p\<close> changes only the paths through \<open>i # p\<close>.\<close>

lemma tab_write:
  assumes inj: "\<And>q t. tpath q \<Longrightarrow> tab m p = Some t \<Longrightarrow> tab m q = Some t \<Longrightarrow> q = p"
    and p: "tpath p" "tab m p = Some t" "i < 512"
    and m': "\<forall>a. a \<noteq> elem t i \<longrightarrow> m' a = m a"
  shows "idx_ok q \<Longrightarrow> length q \<le> 4 \<Longrightarrow> \<not> (\<exists>r. q = r @ i # p) \<Longrightarrow>
     tab m' q = tab m q \<and> ent m' q = ent m q"
proof (induction q)
  case (Cons j q)
  then have tq: "tpath q" and j: "j < 512" by (auto simp: tpath_def idx_ok_def)
  have ns: "\<not> (\<exists>r. q = r @ i # p)" using Cons.prems(3) by (metis append_Cons)
  have "idx_ok q" "length q \<le> 4" using Cons.prems by (auto simp: idx_ok_def)
  then have IH: "tab m' q = tab m q" using Cons.IH ns by blast
  have "m' (elem t' j) = m (elem t' j)" if t': "tab m q = Some t'" for t'
  proof (rule m' [rule_format], rule notI)
    assume "elem t' j = elem t i"
    then have "t' = t" "j = i"
      using elem_eq_iff [OF tab_aligned [OF t'] j tab_aligned [OF p(2)] p(3)] by auto
    with inj [OF tq p(2)] t' have "j # q = [] @ i # p" by simp
    with Cons.prems(3) show False by blast
  qed
  with IH show ?case by (auto split: option.splits)
qed simp

section \<open>Filling a page\<close>

lemma unat_of_nat_less [simp]: "k < 512 \<Longrightarrow> (of_nat k :: u64) < 512"
  by (simp add: word_less_nat_alt unat_of_nat)

lemma of_nat_idx_inj: "k < 512 \<Longrightarrow> l < 512 \<Longrightarrow> (of_nat k :: u64) = of_nat l \<longleftrightarrow> k = l"
  by (simp add: word_unat_eq_iff unat_of_nat)

lemma elem_of_nat_inj:
  "page_aligned p \<Longrightarrow> k < 512 \<Longrightarrow> l < 512 \<Longrightarrow> elem p (of_nat k) = elem p (of_nat l) \<longleftrightarrow> k = l"
  by (simp add: elem_eq_iff of_nat_idx_inj)

lemma fold_zero:
  "fold (\<lambda>j m. m(f j := 0)) js m a = (if \<exists>j\<in>set js. a = f j then 0 else m a)"
  by (induction js arbitrary: m) auto

lemma qmem_zero_page:
  "qmem (zero_page p s) a = (if \<exists>k<512. a = elem p (of_nat k) then 0 else qmem s a)"
  by (auto simp: zero_page_def fold_zero)

lemma zero_page_in: "i < 512 \<Longrightarrow> qmem (zero_page p s) (elem p i) = 0"
proof -
  assume i: "i < 512"
  have "elem p i = elem p (of_nat (unat i))" by simp
  moreover have "unat i < 512" using i by (simp add: word_less_nat_alt)
  ultimately show ?thesis by (auto simp: qmem_zero_page)
qed

lemma zero_page_out:
  "page_aligned p \<Longrightarrow> page_aligned t \<Longrightarrow> i < 512 \<Longrightarrow> t \<noteq> p \<Longrightarrow>
     qmem (zero_page p s) (elem t i) = qmem s (elem t i)"
  by (auto simp: qmem_zero_page elem_eq_iff)

lemma zero_page_rest [simp]:
  "mem_map (zero_page p s) = mem_map s" "tlb_loads (zero_page p s) = tlb_loads s"
  "klog (zero_page p s) = klog s" "mm.more (zero_page p s) = mm.more s"
  by (simp_all add: zero_page_def)

text \<open>\<open>copy_page\<close> between two different pages copies every word and touches nothing else.\<close>

lemma fold_copy:
  assumes "page_aligned src" "page_aligned dst" "src \<noteq> dst"
  shows "n \<le> 512 \<Longrightarrow>
     (\<forall>k<n. fold (\<lambda>i m. m(elem dst (of_nat i) := m (elem src (of_nat i)))) [0..<n] m (elem dst (of_nat k))
              = m (elem src (of_nat k))) \<and>
     (\<forall>a. (\<forall>k<n. a \<noteq> elem dst (of_nat k)) \<longrightarrow>
        fold (\<lambda>i m. m(elem dst (of_nat i) := m (elem src (of_nat i)))) [0..<n] m a = m a)"
proof (induction n)
  case (Suc n)
  have "elem src (of_nat n) \<noteq> elem dst (of_nat k)" if "k < n" for k
    using assms that Suc.prems by (simp add: elem_eq_iff)
  moreover have "elem dst (of_nat k) \<noteq> elem dst (of_nat n)" if "k < n" for k
    using assms(2) that Suc.prems by (simp add: elem_of_nat_inj)
  ultimately show ?case using Suc by (auto simp: less_Suc_eq)
qed simp

lemma idx_of_nat: "(i :: u64) < 512 \<Longrightarrow> \<exists>k<512. i = of_nat k"
  by (rule exI [of _ "unat i"]) (simp add: word_less_nat_alt)

lemma copy_page_in:
  "page_aligned src \<Longrightarrow> page_aligned dst \<Longrightarrow> src \<noteq> dst \<Longrightarrow> i < 512 \<Longrightarrow>
     qmem (copy_page src dst s) (elem dst i) = qmem s (elem src i)"
  using fold_copy [of src dst 512 "qmem s"] idx_of_nat [of i] by (auto simp: copy_page_def)

lemma copy_page_out:
  "page_aligned src \<Longrightarrow> page_aligned dst \<Longrightarrow> src \<noteq> dst \<Longrightarrow> page_aligned t \<Longrightarrow> i < 512 \<Longrightarrow> t \<noteq> dst \<Longrightarrow>
     qmem (copy_page src dst s) (elem t i) = qmem s (elem t i)"
  using fold_copy [of src dst 512 "qmem s"] by (auto simp: copy_page_def elem_eq_iff)

lemma copy_page_rest [simp]:
  "mem_map (copy_page p q s) = mem_map s" "tlb_loads (copy_page p q s) = tlb_loads s"
  "klog (copy_page p q s) = klog s"
  by (simp_all add: copy_page_def)

section \<open>Allocating a page\<close>

lemma last_free_Some:
  "last_free n m = Some i \<Longrightarrow> i < n \<and> m ! i = 0 \<and> (\<forall>j. i < j \<longrightarrow> j < n \<longrightarrow> m ! j \<noteq> 0)"
  by (induction n) (auto split: if_splits simp: less_Suc_eq)

lemma last_free_None: "last_free n m = None \<longleftrightarrow> (\<forall>j<n. m ! j \<noteq> 0)"
  by (induction n) (auto simp: less_Suc_eq)

text \<open>\<open>fresh s pg\<close>: the page \<open>pg\<close> is allocated once, is zeroed, and nothing refers to it.\<close>

definition fresh :: "'a mm_scheme \<Rightarrow> u64 \<Rightarrow> bool" where
  "fresh s pg \<longleftrightarrow> (\<exists>i<PAGING_PAGES. pg = page_of i \<and> mem_map s ! i = 1) \<and>
     \<not> table_page (qmem s) pg \<and> mappers (qmem s) pg = {} \<and>
     (\<forall>i<512. qmem s (elem pg i) = 0)"

definition same_tree :: "(u64 \<Rightarrow> u64) \<Rightarrow> (u64 \<Rightarrow> u64) \<Rightarrow> bool" where
  "same_tree m m' \<longleftrightarrow> (\<forall>q. idx_ok q \<longrightarrow> length q \<le> 4 \<longrightarrow> tab m' q = tab m q \<and> ent m' q = ent m q)"

lemma same_tree_table_page: "same_tree m m' \<Longrightarrow> table_page m' t = table_page m t"
  by (auto simp: same_tree_def table_page_def tpath_def)

lemma same_tree_mappers: "same_tree m m' \<Longrightarrow> mappers m' f = mappers m f"
  by (auto simp: same_tree_def mappers_def upath_def)

lemma mm_wf_same_tree:
  assumes "mm_wf s" "same_tree (qmem s) (qmem s')" "length (mem_map s') = PAGING_PAGES"
    and "\<And>i. i < PAGING_PAGES \<Longrightarrow> unat (mem_map s ! i) \<le> unat (mem_map s' ! i)"
  shows "mm_wf s'"
proof (rule mm_wfI)
  note st = assms(2) [unfolded same_tree_def]
  fix p t assume p: "tpath p" and t: "tab (qmem s') p = Some t"
  then have t': "tab (qmem s) p = Some t" using st by (auto simp: tpath_def)
  note w = mm_wf_table [OF assms(1) p t']
  have "mem_map s' ! MAP_NR t \<noteq> 0" if "LOW_MEM \<le> t"
  proof -
    have "MAP_NR t < PAGING_PAGES" using page_of_MAP_NR(1) [OF tab_aligned [OF t]] w that by blast
    from assms(4) [OF this] w that show ?thesis by (auto simp: word_unat_eq_iff)
  qed
  with w show "t \<noteq> 0 \<and> t < HIGH_MEMORY \<and> (LOW_MEM \<le> t \<longrightarrow> mem_map s' ! MAP_NR t \<noteq> 0)" by blast
next
  note st = assms(2) [unfolded same_tree_def]
  fix p q t assume "tpath p" "tpath q" "tab (qmem s') p = Some t" "tab (qmem s') q = Some t"
  then show "p = q" using mm_wf_inj [OF assms(1), of p q t] st by (auto simp: tpath_def)
next
  note st = assms(2) [unfolded same_tree_def]
  fix p f assume "upath p" "tab (qmem s') p = Some f" "LOW_MEM \<le> f"
  then show "f < HIGH_MEMORY \<and> \<not> table_page (qmem s') f"
    using mm_wf_frame [OF assms(1), of p f] st same_tree_table_page [OF assms(2)] by (auto simp: upath_def)
next
  fix i assume i: "i < PAGING_PAGES"
  from mm_wf_count [OF assms(1) i] assms(4) [OF i]
  show "card (mappers (qmem s') (page_of i)) \<le> unat (mem_map s' ! i)"
    unfolding same_tree_mappers [OF assms(2)] by (rule order.trans)
qed (rule assms(3))


lemma free_not_used:
  assumes "mm_wf s" "i < PAGING_PAGES" "mem_map s ! i = 0"
  shows "\<not> table_page (qmem s) (page_of i)" and "mappers (qmem s) (page_of i) = {}"
proof -
  show "\<not> table_page (qmem s) (page_of i)"
    using mm_wf_table [OF assms(1)] page_of_range [OF assms(2)] MAP_NR_page_of [OF assms(2)] assms(3)
    unfolding table_page_def by metis
  show "mappers (qmem s) (page_of i) = {}"
    using mm_wf_count [OF assms(1,2)] assms(3) by simp
qed

lemma table_page_aligned: "table_page m t \<Longrightarrow> page_aligned t"
  by (auto simp: table_page_def intro: tab_aligned)

lemma same_tree_zero_page:
  assumes "page_aligned pg" "\<not> table_page (qmem s) pg"
  shows "same_tree (qmem s) (qmem (zero_page pg s))"
  unfolding same_tree_def
proof (intro allI impI tab_frame)
  fix t i assume t: "table_page (qmem s) t" and i: "(i :: u64) < 512"
  with assms show "qmem (zero_page pg s) (elem t i) = qmem s (elem t i)"
    by (intro zero_page_out) (auto dest: table_page_aligned)
qed

lemma get_free_page_None:
  "get_free_page s = (0, s') \<Longrightarrow> s' = s \<and> (\<forall>i<PAGING_PAGES. mem_map s ! i \<noteq> 0)"
  by (auto simp: get_free_page_def last_free_None page_of_neq_0 split: option.splits dest: last_free_Some)

lemma get_free_page_Some:
  assumes wf: "mm_wf s" and g: "get_free_page s = (pg, s')" and pg: "pg \<noteq> 0"
  obtains i where "i < PAGING_PAGES" "pg = page_of i" "mem_map s ! i = 0"
    "mem_map s' = (mem_map s)[i := 1]" "s' = zero_page pg (s\<lparr>mem_map := (mem_map s)[i := 1]\<rparr>)"
    "mm_wf s'" "same_tree (qmem s) (qmem s')" "fresh s' pg"
    "\<forall>j. i < j \<longrightarrow> j < PAGING_PAGES \<longrightarrow> mem_map s ! j \<noteq> 0"
proof -
  from g pg obtain i where lf: "last_free PAGING_PAGES (mem_map s) = Some i" and pgi: "pg = page_of i"
    and s': "s' = zero_page pg (s\<lparr>mem_map := (mem_map s)[i := 1]\<rparr>)"
    by (auto simp: get_free_page_def split: option.splits)
  from last_free_Some [OF lf] have i: "i < PAGING_PAGES" and z: "mem_map s ! i = 0"
    and mx: "\<forall>j. i < j \<longrightarrow> j < PAGING_PAGES \<longrightarrow> mem_map s ! j \<noteq> 0" by auto
  note len = mm_wf_length [OF wf] and nu = free_not_used [OF wf i z]
  have mm: "mem_map s' = (mem_map s)[i := 1]" by (simp add: s')
  have st: "same_tree (qmem s) (qmem s')"
    using same_tree_zero_page [of pg "s\<lparr>mem_map := (mem_map s)[i := 1]\<rparr>"] nu(1)
    by (simp add: s' pgi page_aligned_page_of i)
  have wf': "mm_wf s'"
    by (rule mm_wf_same_tree [OF wf st]) (auto simp: mm len nth_list_update z i)
  have "fresh s' pg"
    unfolding fresh_def same_tree_table_page [OF st] same_tree_mappers [OF st]
    using nu i len zero_page_in by (auto simp: pgi mm s')
  then show thesis by (rule that [OF i pgi z mm s' wf' st _ mx])
qed


section \<open>Writing table entries\<close>

lemma path_ext_cases:
  "q = r @ i # p \<Longrightarrow> q \<noteq> i # p \<Longrightarrow> idx_ok q \<Longrightarrow> \<exists>r' j. q = r' @ j # i # p \<and> j < 512"
  by (cases r rule: rev_cases) (auto simp: idx_ok_def)

text \<open>A new table: the entry was not present, and the new table is an empty fresh page.\<close>

lemma tab_install:
  assumes wf: "mm_wf s" and fr: "fresh s pg"
    and p: "tpath p" "length p \<le> 2" "tab (qmem s) p = Some t" "i < 512" "tab (qmem s) (i # p) = None"
    and s': "s' = write_q (elem t i) (pg OR 7) s"
  shows "tab (qmem s') (i # p) = Some pg"
    and "idx_ok q \<Longrightarrow> length q \<le> 4 \<Longrightarrow> q \<noteq> i # p \<Longrightarrow> tab (qmem s') q = tab (qmem s) q"
    and "idx_ok q \<Longrightarrow> length q = 4 \<Longrightarrow> ent (qmem s') q = ent (qmem s) q"
proof -
  let ?m = "qmem s" and ?m' = "qmem s'"
  have m': "\<forall>a. a \<noteq> elem t i \<longrightarrow> ?m' a = ?m a" and mt: "?m' (elem t i) = pg OR 7"
    by (auto simp: s' write_q_def)
  from fr obtain k where k: "k < PAGING_PAGES" "pg = page_of k" by (auto simp: fresh_def)
  note inj = mm_wf_inj [OF wf _ p(1)]
  have same: "idx_ok q \<Longrightarrow> length q \<le> 4 \<Longrightarrow> \<not> (\<exists>r. q = r @ i # p) \<Longrightarrow>
     tab ?m' q = tab ?m q \<and> ent ?m' q = ent ?m q" for q
    by (rule tab_write [OF _ p(1,3,4) m']) (use inj in blast)+
  have tp: "tab ?m' p = Some t" using same [of p] p by (auto simp: tpath_def)
  show new: "tab ?m' (i # p) = Some pg"
    by (simp add: tp mt k PTE_ADDR_page has_bits_or)
  have ta: "table_page ?m t" using p by (auto simp: table_page_def)
  then have ne: "elem pg j \<noteq> elem t i" if "j < 512" for j
    using fr that p(4) elem_eq_iff [of pg j t i] tab_aligned [OF p(3)] page_aligned_page_of k
    by (auto simp: fresh_def)
  have empty: "?m' (elem pg j) = 0" if "j < 512" for j
    using m' [rule_format, OF ne [OF that]] fr that by (auto simp: fresh_def)
  have below: "tab ?m' (r @ j # i # p) = None" "tab ?m (r @ j # i # p) = None" if "j < 512" for r j
    using empty [OF that] new p(5) by (auto intro!: tab_None_suffix)
  show "tab ?m' q = tab ?m q" if q: "idx_ok q" "length q \<le> 4" "q \<noteq> i # p"
  proof (cases "\<exists>r. q = r @ i # p")
    case True
    then obtain r' j where "q = r' @ j # i # p" "j < 512" using path_ext_cases q by blast
    then show ?thesis using below by auto
  qed (use same q in auto)
  show "ent ?m' q = ent ?m q" if q: "idx_ok q" "length q = 4"
  proof (cases "\<exists>r. q = r @ i # p")
    case True
    then obtain r' k where q': "q = r' @ k # i # p" and k': "k < 512"
      using path_ext_cases [of q _ i p] q p(2) by fastforce
    show ?thesis using new empty [OF k'] p(5) below k' by (cases r') (auto simp: q')
  qed (use same q in auto)
qed


lemma write_q_simps [simp]:
  "mem_map (write_q a v s) = mem_map s" "qmem (write_q a v s) = (qmem s)(a := v)"
  "tlb_loads (write_q a v s) = tlb_loads s" "klog (write_q a v s) = klog s"
  by (simp_all add: write_q_def)

declare tab.simps(2) [simp del]

lemma mm_wf_install:
  assumes wf: "mm_wf s" and fr: "fresh s pg"
    and p: "tpath p" "length p \<le> 2" "tab (qmem s) p = Some t" "i < 512" "tab (qmem s) (i # p) = None"
    and s': "s' = write_q (elem t i) (pg OR 7) s"
  shows "mm_wf s'"
proof -
  note ins = tab_install [OF assms]
  from fr obtain k where k: "k < PAGING_PAGES" "pg = page_of k" "mem_map s ! k = 1" by (auto simp: fresh_def)
  have pg: "pg \<noteq> 0" "pg < HIGH_MEMORY" "MAP_NR pg = k" "\<not> table_page (qmem s) pg" "mappers (qmem s) pg = {}"
    using page_of_neq_0 page_of_range MAP_NR_page_of k fr by (auto simp: fresh_def)
  have tp: "tab (qmem s') q = (if q = i # p then Some pg else tab (qmem s) q)" if "tpath q" for q
    using ins(1) ins(2) [of q] that by (auto simp: tpath_def)
  have up: "tab (qmem s') q = tab (qmem s) q" if "upath q" for q
  proof -
    have "q \<noteq> i # p" using that p(2) by (auto simp: upath_def)
    then show ?thesis using ins(2) [of q] that by (simp add: upath_def)
  qed
  have mm: "mem_map s' = mem_map s" by (simp add: s')
  have mapp: "mappers (qmem s') f = mappers (qmem s) f" for f by (auto simp: mappers_def up)
  have tpg: "table_page (qmem s') f \<Longrightarrow> f = pg \<or> table_page (qmem s) f" for f
    unfolding table_page_def using tp by (metis option.inject)
  show ?thesis
  proof (rule mm_wfI)
    fix q f assume "tpath q" "tab (qmem s') q = Some f"
    then show "f \<noteq> 0 \<and> f < HIGH_MEMORY \<and> (LOW_MEM \<le> f \<longrightarrow> mem_map s' ! MAP_NR f \<noteq> 0)"
      using mm_wf_table [OF wf, of q f] pg k(3) by (cases "q = i # p") (auto simp: tp mm)
  next
    fix q r f assume "tpath q" "tpath r" "tab (qmem s') q = Some f" "tab (qmem s') r = Some f"
    then show "q = r"
      using mm_wf_inj [OF wf, of q r f] pg(4) by (auto simp: tp table_page_def split: if_splits)
  next
    fix q f assume q: "upath q" "tab (qmem s') q = Some f" "LOW_MEM \<le> f"
    then have "f < HIGH_MEMORY \<and> \<not> table_page (qmem s) f" "f \<noteq> pg"
      using mm_wf_frame [OF wf, of q f] up pg(5) by (auto simp: mappers_def)
    then show "f < HIGH_MEMORY \<and> \<not> table_page (qmem s') f" using tpg by blast
  qed (auto simp: mm mapp mm_wf_length [OF wf] mm_wf_count [OF wf])
qed

text \<open>What \<open>get_pte(addr, 1)\<close> may change: it adds tables, taken from free pages, and changes
  no mapping and no page in use.\<close>

definition used :: "'a mm_scheme \<Rightarrow> u64 \<Rightarrow> bool" where
  "used s f \<longleftrightarrow> page_aligned f \<and> f < HIGH_MEMORY \<and> (LOW_MEM \<le> f \<longrightarrow> mem_map s ! MAP_NR f \<noteq> 0)"

definition grown :: "'a mm_scheme \<Rightarrow> 'a mm_scheme \<Rightarrow> bool" where
  "grown s s' \<longleftrightarrow> mm_wf s' \<and>
     (\<forall>q. idx_ok q \<longrightarrow> length q = 4 \<longrightarrow> ent (qmem s') q = ent (qmem s) q) \<and>
     (\<forall>p t. tpath p \<longrightarrow> tab (qmem s) p = Some t \<longrightarrow> tab (qmem s') p = Some t) \<and>
     (\<forall>f. used s f \<longrightarrow> table_page (qmem s') f \<longrightarrow> table_page (qmem s) f) \<and>
     (\<forall>i < PAGING_PAGES. mem_map s ! i \<noteq> 0 \<longrightarrow> mem_map s' ! i = mem_map s ! i) \<and>
     (\<forall>i < PAGING_PAGES. mem_map s ! i = 0 \<longrightarrow> unat (mem_map s' ! i) \<le> 1) \<and>
     (\<forall>f i. used s f \<longrightarrow> \<not> table_page (qmem s) f \<longrightarrow> i < 512 \<longrightarrow> qmem s' (elem f i) = qmem s (elem f i)) \<and>
     tlb_loads s' = tlb_loads s \<and> klog s' = klog s"

lemma grown_refl [simp]: "mm_wf s \<Longrightarrow> grown s s"
  by (simp add: grown_def)

lemma grown_used: "grown s s' \<Longrightarrow> used s f \<Longrightarrow> used s' f"
  using page_of_MAP_NR(1) [of f] by (auto simp: grown_def used_def)

lemma grown_table: "grown s s' \<Longrightarrow> used s f \<Longrightarrow> table_page (qmem s') f \<Longrightarrow> table_page (qmem s) f"
  by (simp add: grown_def)

lemma grown_trans:
  assumes "grown s s'" "grown s' s''"
  shows "grown s s''"
proof -
  note a = assms(1) [unfolded grown_def] and b = assms(2) [unfolded grown_def]
  have t: "used s f \<Longrightarrow> table_page (qmem s'') f \<Longrightarrow> table_page (qmem s) f" for f
    by (rule grown_table [OF assms(1)], assumption, rule grown_table [OF assms(2) grown_used [OF assms(1)]])
  have "qmem s'' (elem f i) = qmem s (elem f i)" if f: "used s f" "\<not> table_page (qmem s) f" "i < 512" for f i
    using a b f grown_used [OF assms(1) f(1)] by metis
  moreover have "mem_map s ! i \<noteq> 0 \<longrightarrow> mem_map s'' ! i = mem_map s ! i" if "i < PAGING_PAGES" for i
    using a b that by metis
  moreover have "unat (mem_map s'' ! i) \<le> 1" if "i < PAGING_PAGES" "mem_map s ! i = 0" for i
    using a b that by (cases "mem_map s' ! i = 0") auto
  ultimately show ?thesis using a b t unfolding grown_def by simp
qed

section \<open>The walk\<close>

text \<open>The common shape of \<open>get_pdpt\<close>, \<open>get_pd\<close> and \<open>get_pt\<close>: one level down.\<close>

definition descend :: "u64 \<Rightarrow> u64 \<Rightarrow> bool \<Rightarrow> 'a mm_scheme \<Rightarrow> u64 \<times> 'a mm_scheme" where
  "descend t i create s =
     (let e = qmem s (elem t i) in
      if \<not> has_bits e PAGE_PRESENT then
        if \<not> create then (0, s)
        else let (page, s) = get_free_page s in
          if page = 0 then (0, s) else (page, write_q (elem t i) (page OR 7) s)
      else (PTE_ADDR e, s))"

lemma flags_7: "pg OR PAGE_PRESENT OR PAGE_WRITE OR PAGE_USER = pg OR (7 :: u64)"
  by (simp add: or.assoc)

lemma get_pdpt_descend: "get_pdpt addr c s = descend PML4_ADDR (PML4_INDEX addr) c s"
  unfolding get_pdpt_def descend_def get_pml4_def flags_7 Let_def ..

lemma get_pd_descend:
  "get_pd addr c s = (let (t, s) = get_pdpt addr c s in if t = 0 then (0, s) else descend t (PDPT_INDEX addr) c s)"
  unfolding get_pd_def descend_def flags_7 Let_def ..

lemma get_pt_descend:
  "get_pt addr c s = (let (t, s) = get_pd addr c s in if t = 0 then (0, s) else descend t (PD_INDEX addr) c s)"
  unfolding get_pt_def descend_def flags_7 Let_def ..

text \<open>The number of free pages, the number \<open>calc_mem\<close> prints.\<close>

definition free_pages :: "'a mm_scheme \<Rightarrow> nat" where
  "free_pages s = length (filter (\<lambda>c. c = 0) (mem_map s))"

lemma free_pages_0: "mm_wf s \<Longrightarrow> free_pages s = 0 \<longleftrightarrow> (\<forall>i<PAGING_PAGES. mem_map s ! i \<noteq> 0)"
  by (auto simp: free_pages_def mm_wf_length filter_empty_conv in_set_conv_nth)

lemma free_pages_take:
  assumes "i < length (mem_map s)" "mem_map s ! i = 0" "mem_map s' = (mem_map s)[i := c]" "c \<noteq> 0"
  shows "free_pages s = Suc (free_pages s')"
proof -
  let ?A = "{j. j < length (mem_map s) \<and> mem_map s ! j = 0}"
  have "{j. j < length (mem_map s') \<and> mem_map s' ! j = 0} = ?A - {i}"
    using assms by (auto simp: nth_list_update split: if_splits)
  moreover have "card ?A = Suc (card (?A - {i}))"
    by (rule card.remove) (use assms in auto)
  ultimately show ?thesis by (simp add: free_pages_def length_filter_conv_card)
qed

text \<open>\<open>walked create p s r s'\<close>: the walk along \<open>p\<close> from \<open>s\<close> gave table \<open>r\<close> and state \<open>s'\<close>.\<close>

definition walked :: "bool \<Rightarrow> u64 list \<Rightarrow> 'a mm_scheme \<Rightarrow> u64 \<Rightarrow> 'a mm_scheme \<Rightarrow> bool" where
  "walked create p s r s' \<longleftrightarrow> grown s s' \<and> (\<not> create \<longrightarrow> s' = s) \<and>
     tab (qmem s') p = (if r = 0 then None else Some r) \<and>
     (create \<longrightarrow> r = 0 \<longrightarrow> (\<forall>i<PAGING_PAGES. mem_map s' ! i \<noteq> 0)) \<and>
     free_pages s \<le> free_pages s' + length p"

lemma grown_new_table:
  assumes wf: "mm_wf s" and g: "get_free_page s = (pg, s1)" "pg \<noteq> 0"
    and p: "tpath p" "length p \<le> 2" "tab (qmem s) p = Some t" "i < 512" "tab (qmem s) (i # p) = None"
  shows "grown s (write_q (elem t i) (pg OR 7) s1)" (is "grown s ?s'")
    and "free_pages s = Suc (free_pages (write_q (elem t i) (pg OR 7) s1))"
    and "tab (qmem (write_q (elem t i) (pg OR 7) s1)) (i # p) = Some pg"
proof -
  from get_free_page_Some [OF wf g] obtain k where k: "k < PAGING_PAGES" "pg = page_of k" "mem_map s ! k = 0"
    "mem_map s1 = (mem_map s)[k := 1]" and s1: "s1 = zero_page pg (s\<lparr>mem_map := (mem_map s)[k := 1]\<rparr>)"
    and wf1: "mm_wf s1" and st: "same_tree (qmem s) (qmem s1)" and fr: "fresh s1 pg" by metis
  have p1: "tab (qmem s1) p = Some t" "tab (qmem s1) (i # p) = None"
    using st p by (auto simp: same_tree_def tpath_def idx_ok_def)
  note ins = tab_install [OF wf1 fr p(1,2) p1(1) p(4) p1(2) refl]
  show new: "tab (qmem ?s') (i # p) = Some pg" by (rule ins(1))
  show "free_pages s = Suc (free_pages ?s')"
    by (rule free_pages_take [of k _ _ 1]) (use k mm_wf_length [OF wf] in simp_all)
  have tabs: "tab (qmem ?s') q = Some f" if "tpath q" "tab (qmem s) q = Some f" for q f
  proof -
    have "q \<noteq> i # p" using that p(5) by auto
    then show ?thesis using ins(2) [of q] st that by (auto simp: same_tree_def tpath_def)
  qed
  have tpg: "table_page (qmem s) f" if f: "used s f" "table_page (qmem ?s') f" for f
  proof -
    have "f \<noteq> pg" using f(1) k page_of_range MAP_NR_page_of by (auto simp: used_def)
    moreover obtain q where q: "tpath q" "tab (qmem ?s') q = Some f" using f(2) by (auto simp: table_page_def)
    ultimately have "q \<noteq> i # p" using new by auto
    then show ?thesis using q ins(2) [of q] st by (auto simp: table_page_def tpath_def same_tree_def)
  qed
  have cont: "qmem ?s' (elem f j) = qmem s (elem f j)"
    if f: "used s f" "\<not> table_page (qmem s) f" "j < 512" for f j
  proof -
    have fa: "page_aligned f" using f(1) by (simp add: used_def)
    have "f \<noteq> t" using f(2) p by (auto simp: table_page_def)
    then have "elem f j \<noteq> elem t i" using elem_eq_iff [OF fa f(3) tab_aligned [OF p(3)] p(4)] by blast
    moreover have "f \<noteq> pg" using f(1) k page_of_range MAP_NR_page_of by (auto simp: used_def)
    ultimately show ?thesis
      using f fa zero_page_out [of pg f j "s\<lparr>mem_map := (mem_map s)[k := 1]\<rparr>"] page_aligned_page_of [OF k(1)]
      by (simp add: s1 k(2))
  qed
  show "grown s ?s'"
    unfolding grown_def
  proof (intro conjI allI impI)
    show "mm_wf ?s'" by (rule mm_wf_install [OF wf1 fr p(1,2) p1(1) p(4) p1(2) refl])
    show "ent (qmem ?s') q = ent (qmem s) q" if "idx_ok q" "length q = 4" for q
      using ins(3) [OF that] st that by (simp add: same_tree_def)
    show "mem_map ?s' ! j = mem_map s ! j" if "mem_map s ! j \<noteq> 0" for j
      using that k by (cases "j = k") auto
    show "unat (mem_map ?s' ! j) \<le> 1" if "j < PAGING_PAGES" "mem_map s ! j = 0" for j
      using that k mm_wf_length [OF wf] by (cases "j = k") auto
  qed (use tabs tpg cont s1 in auto)
qed

lemma walked_descend:
  assumes w: "walked c p s t s1" and t: "t \<noteq> 0" and p: "tpath p" "length p \<le> 2" and i: "i < 512"
    and d: "descend t i c s1 = (r, s')"
  shows "walked c (i # p) s r s'"
proof -
  have g: "grown s s1" and tp: "tab (qmem s1) p = Some t" and nc: "\<not> c \<Longrightarrow> s1 = s"
    and fp: "free_pages s \<le> free_pages s1 + length p"
    using w t by (auto simp: walked_def)
  then have wf: "mm_wf s1" by (simp add: grown_def)
  show ?thesis
  proof (cases "tab (qmem s1) (i # p)")
    case None
    then have np: "\<not> has_bits (qmem s1 (elem t i)) PAGE_PRESENT" by (auto simp: tab.simps tp split: if_splits)
    show ?thesis
    proof (cases c)
      case True
      obtain pg s2 where gp: "get_free_page s1 = (pg, s2)" by fastforce
      show ?thesis
      proof (cases "pg = 0")
        case True
        then show ?thesis using d np \<open>c\<close> gp g fp None get_free_page_None [of s1 s2]
          by (auto simp: walked_def descend_def)
      next
        case False
        then show ?thesis using d np \<open>c\<close> gp fp grown_trans [OF g] grown_new_table [OF wf gp False p tp i None]
          by (auto simp: walked_def descend_def simp del: write_q_simps)
      qed
    next
      case False
      then show ?thesis using d np g None nc by (auto simp: walked_def descend_def)
    qed
  next
    case (Some f)
    have "f \<noteq> 0" using mm_wf_table [OF wf _ Some] p i by (auto simp: tpath_Cons)
    then show ?thesis using Some d g nc tp fp
      by (auto simp: walked_def descend_def tab.simps split: if_splits)
  qed
qed


lemma walked_stop: "walked c p s 0 s' \<Longrightarrow> walked c (i # p) s 0 s'"
  by (auto simp: walked_def tab.simps)

lemma walked_step:
  assumes "walked c p s t s1" "tpath p" "length p \<le> 2" "i < 512"
    and "(if t = 0 then (0, s1) else descend t i c s1) = (r, s')"
  shows "walked c (i # p) s r s'"
  using assms walked_descend [of c p s t s1 i r s'] walked_stop [of c p s s1 i]
  by (auto split: if_splits)

lemma walked_get_pt:
  assumes "mm_wf s" "get_pt addr c s = (r, s')"
  shows "walked c (tl (vpath addr)) s r s'"
proof -
  obtain t1 s1 where 1: "get_pdpt addr c s = (t1, s1)" by fastforce
  obtain t2 s2 where 2: "get_pd addr c s = (t2, s2)" by fastforce
  have "walked c [] s PML4_ADDR s" using assms(1) by (auto simp: walked_def)
  then have "walked c [PML4_INDEX addr] s t1 s1"
    by (rule walked_descend) (use 1 in \<open>simp_all add: get_pdpt_descend\<close>)
  then have "walked c [PDPT_INDEX addr, PML4_INDEX addr] s t2 s2"
    by (rule walked_step) (use 1 2 in \<open>simp_all add: get_pd_descend tpath_Cons\<close>)
  then have "walked c [PD_INDEX addr, PDPT_INDEX addr, PML4_INDEX addr] s r s'"
    by (rule walked_step) (use 2 assms(2) in \<open>simp_all add: get_pt_descend tpath_Cons\<close>)
  then show ?thesis by (simp add: vpath_def)
qed

lemma elem_neq_0: "page_aligned t \<Longrightarrow> t \<noteq> 0 \<Longrightarrow> i < 512 \<Longrightarrow> elem t i \<noteq> 0"
  using unat_elem [of t i] by (auto simp: word_unat_eq_iff)

lemma vpath_tpath: "tpath (tl (vpath va))" "idx_ok (vpath va)" "length (vpath va) = 4"
  by (simp_all add: vpath_def tpath_def idx_ok_def)

lemma vpath_Cons: "vpath va = PT_INDEX va # tl (vpath va)"
  by (simp add: vpath_def)

lemma ent_vpath: "ent m (vpath va) = (case tab m (tl (vpath va)) of None \<Rightarrow> 0 | Some t \<Rightarrow> m (elem t (PT_INDEX va)))"
  by (subst vpath_Cons) simp

text \<open>The specification of \<open>get_pte\<close>: either it finds the entry that the hardware reads for
  \<open>addr\<close>, or it returns \<open>NULL\<close> and the table is missing (and, for \<open>create\<close>, memory is full).\<close>

lemma get_pte_cases:
  assumes wf: "mm_wf s" and g: "get_pte addr c s = (pte, s')"
  obtains (entry) t where "pte = elem t (PT_INDEX addr)" "pte \<noteq> 0" "tab (qmem s') (tl (vpath addr)) = Some t"
      "grown s s'" "\<not> c \<longrightarrow> s' = s" "qmem s' pte = pte_of s addr" "pte_of s' addr = pte_of s addr"
      "free_pages s \<le> free_pages s' + 3"
    | (none) "pte = 0" "grown s s'" "\<not> c \<longrightarrow> s' = s" "pte_of s addr = 0"
      "c \<longrightarrow> free_pages s \<le> 3"
proof -
  obtain r where r: "get_pt addr c s = (r, s')"
    and pte: "pte = (if r = 0 then 0 else elem r (PT_INDEX addr))"
    using g by (auto simp: get_pte_def Let_def split: prod.splits if_splits)
  note w = walked_get_pt [OF wf r, unfolded walked_def]
  have l3: "length (tl (vpath addr)) = 3" by (simp add: vpath_def)
  have same: "pte_of s' addr = pte_of s addr"
    using w vpath_tpath [of addr] by (simp add: grown_def pte_of_def)
  show thesis
  proof (cases "r = 0")
    case True
    then have "pte_of s' addr = 0" using w by (simp add: pte_of_def ent_vpath)
    moreover have "c \<longrightarrow> free_pages s' = 0" using w True free_pages_0 [of s'] by (auto simp: grown_def)
    ultimately show thesis using same True w pte l3 by (intro none) auto
  next
    case False
    then have t: "tab (qmem s') (tl (vpath addr)) = Some r" using w by simp
    then have "qmem s' (elem r (PT_INDEX addr)) = pte_of s' addr"
      by (simp add: pte_of_def ent_vpath)
    moreover have "elem r (PT_INDEX addr) \<noteq> 0" using False elem_neq_0 [OF tab_aligned [OF t] False] by simp
    ultimately show thesis using False w pte same t l3 by (intro entry) auto
  qed
qed

section \<open>Writing a leaf entry\<close>

lemma leaf_write:
  assumes wf: "mm_wf s" and p: "tpath p" "length p = 3" "tab (qmem s) p = Some t" "i < 512"
    and m': "\<forall>a. a \<noteq> elem t i \<longrightarrow> m' a = qmem s a"
  shows "idx_ok q \<Longrightarrow> length q \<le> 4 \<Longrightarrow> q \<noteq> i # p \<Longrightarrow> tab m' q = tab (qmem s) q \<and> ent m' q = ent (qmem s) q"
    and "ent m' (i # p) = m' (elem t i)"
proof -
  note inj = mm_wf_inj [OF wf _ p(1)]
  have same: "idx_ok q \<Longrightarrow> length q \<le> 4 \<Longrightarrow> \<not> (\<exists>r. q = r @ i # p) \<Longrightarrow>
     tab m' q = tab (qmem s) q \<and> ent m' q = ent (qmem s) q" for q
    by (rule tab_write [OF _ p(1,3,4) m']) (use inj in blast)+
  show "idx_ok q \<Longrightarrow> length q \<le> 4 \<Longrightarrow> q \<noteq> i # p \<Longrightarrow> tab m' q = tab (qmem s) q \<and> ent m' q = ent (qmem s) q"
    by (rule same) (use p(2) in auto)
  have "tab m' p = Some t" using same [of p] p by (auto simp: tpath_def)
  then show "ent m' (i # p) = m' (elem t i)" by simp
qed

declare ent.simps(2) [simp del]

lemma mappers_leaf:
  assumes wf: "mm_wf s" and p: "tpath p" "length p = 3" "tab (qmem s) p = Some t" "i < 512"
    and m': "\<forall>a. a \<noteq> elem t i \<longrightarrow> m' a = qmem s a"
  shows "mappers m' f = (mappers (qmem s) f - {i # p}) \<union>
     (if upath (i # p) \<and> has_bits (m' (elem t i)) PAGE_PRESENT \<and> PTE_ADDR (m' (elem t i)) = f then {i # p} else {})"
proof -
  note lw = leaf_write [OF wf p m']
  have "tab m' q = (if q = i # p then (if has_bits (m' (elem t i)) PAGE_PRESENT then Some (PTE_ADDR (m' (elem t i))) else None)
      else tab (qmem s) q)" if "upath q" for q
    using lw(1) [of q] that by (simp add: upath_def tab_Cons_ent lw(2))
  then show ?thesis by (auto simp: mappers_def split: if_splits)
qed

lemma set_pte:
  assumes wf: "mm_wf s" and t: "tab (qmem s) (tl (vpath va)) = Some t"
    and q: "qmem s' = (qmem s)(elem t (PT_INDEX va) := v)"
    and len: "length (mem_map s') = PAGING_PAGES"
    and T: "\<forall>k < PAGING_PAGES. mem_map s ! k \<noteq> 0 \<longrightarrow> table_page (qmem s) (page_of k) \<longrightarrow> mem_map s' ! k \<noteq> 0"
    and F: "upath (vpath va) \<longrightarrow> has_bits v PAGE_PRESENT \<longrightarrow> LOW_MEM \<le> PTE_ADDR v \<longrightarrow>
       PTE_ADDR v < HIGH_MEMORY \<and> \<not> table_page (qmem s) (PTE_ADDR v)"
    and C: "\<forall>k < PAGING_PAGES. card (mappers (qmem s) (page_of k) - {vpath va}) +
       (if upath (vpath va) \<and> has_bits v PAGE_PRESENT \<and> PTE_ADDR v = page_of k then 1 else 0) \<le> unat (mem_map s' ! k)"
  shows "mm_wf s'" and "pte_of s' va = v"
    and "vpath va' \<noteq> vpath va \<Longrightarrow> pte_of s' va' = pte_of s va'"
    and "tpath r \<Longrightarrow> tab (qmem s') r = tab (qmem s) r"
    and "mappers (qmem s') f = (mappers (qmem s) f - {vpath va}) \<union>
      (if upath (vpath va) \<and> has_bits v PAGE_PRESENT \<and> PTE_ADDR v = f then {vpath va} else {})"
proof -
  have p: "tpath (tl (vpath va))" "length (tl (vpath va)) = 3" "PT_INDEX va < 512"
    by (simp_all add: vpath_tpath)
  have m': "\<forall>a. a \<noteq> elem t (PT_INDEX va) \<longrightarrow> qmem s' a = qmem s a" by (simp add: q)
  have qv: "qmem s' (elem t (PT_INDEX va)) = v" by (simp add: q)
  note lw = leaf_write [OF wf p(1,2) t p(3) m', folded vpath_Cons]
  note ml = mappers_leaf [OF wf p(1,2) t p(3) m', folded vpath_Cons]
  show tp: "tab (qmem s') r = tab (qmem s) r" if "tpath r" for r
  proof -
    have "r \<noteq> vpath va" using that vpath_tpath(3) [of va] by (auto simp: tpath_def)
    then show ?thesis using lw(1) [of r] that by (simp add: tpath_def)
  qed
  then have tpg: "table_page (qmem s') f = table_page (qmem s) f" for f by (auto simp: table_page_def)
  show e: "pte_of s' va = v" using lw(2) by (simp add: pte_of_def qv)
  show "pte_of s' va' = pte_of s va'" if "vpath va' \<noteq> vpath va"
    using lw(1) [of "vpath va'"] that vpath_tpath by (simp add: pte_of_def)
  show M: "mappers (qmem s') f = (mappers (qmem s) f - {vpath va}) \<union>
      (if upath (vpath va) \<and> has_bits v PAGE_PRESENT \<and> PTE_ADDR v = f then {vpath va} else {})" for f
    using ml [of f] by (simp add: qv)
  show "mm_wf s'"
  proof (rule mm_wfI [OF len])
    fix r f assume r: "tpath r" and f: "tab (qmem s') r = Some f"
    note w = mm_wf_table [OF wf r f [unfolded tp [OF r]]]
    have "mem_map s' ! MAP_NR f \<noteq> 0" if lo: "LOW_MEM \<le> f"
      using T [rule_format, of "MAP_NR f"] page_of_MAP_NR [OF tab_aligned [OF f] lo] w lo r f tp [OF r]
      by (auto simp: table_page_def)
    with w show "f \<noteq> 0 \<and> f < HIGH_MEMORY \<and> (LOW_MEM \<le> f \<longrightarrow> mem_map s' ! MAP_NR f \<noteq> 0)" by blast
  next
    fix r r' f assume "tpath r" "tpath r'" "tab (qmem s') r = Some f" "tab (qmem s') r' = Some f"
    then show "r = r'" using mm_wf_inj [OF wf, of r r' f] by (simp add: tp)
  next
    fix r f assume r: "upath r" "tab (qmem s') r = Some f" "LOW_MEM \<le> f"
    then have "r \<in> mappers (qmem s') f" by (simp add: mappers_def)
    then consider "upath (vpath va)" "has_bits v PAGE_PRESENT" "PTE_ADDR v = f" | "tab (qmem s) r = Some f"
      unfolding M by (auto simp: mappers_def split: if_splits)
    then show "f < HIGH_MEMORY \<and> \<not> table_page (qmem s') f"
      by cases (use F mm_wf_frame [OF wf r(1) _ r(3)] r(3) tpg in auto)
  next
    fix k assume k: "k < PAGING_PAGES"
    have "card (mappers (qmem s') (page_of k)) \<le> card (mappers (qmem s) (page_of k) - {vpath va}) +
       (if upath (vpath va) \<and> has_bits v PAGE_PRESENT \<and> PTE_ADDR v = page_of k then 1 else 0)"
      unfolding M by (rule order.trans [OF card_Un_le]) simp
    with C [rule_format, OF k] show "card (mappers (qmem s') (page_of k)) \<le> unat (mem_map s' ! k)" by (rule order.trans [rotated])
  qed
qed

end
