(* ===== verification/Page_Faults.thy ===== *)
theory Page_Faults
  imports Page_Tables
begin

text \<open>
  Single pages: what mapping a fresh page does (\<open>put_page\<close>, \<open>do_no_page\<close>) and what breaking
  copy-on-write does (\<open>un_wp_page\<close>), over the tree of page tables of \<open>Page_Tables\<close>. \<open>vload s va\<close> is
  the word a program reads at a virtual address.
\<close>

text \<open>The word a program reads at \<open>va\<close>, if the page is present.\<close>

definition vload :: "'a mm_scheme \<Rightarrow> u64 \<Rightarrow> u64 option" where
  "vload s va = (let e = pte_of s va in
     if has_bits e PAGE_PRESENT then Some (qmem s (elem (PTE_ADDR e) (drop_bit 3 (PAGE_OFFSET va)))) else None)"

definition vwritable :: "'a mm_scheme \<Rightarrow> u64 \<Rightarrow> bool" where
  "vwritable s va \<longleftrightarrow> pte_of s va AND (PAGE_PRESENT OR PAGE_WRITE) = PAGE_PRESENT OR PAGE_WRITE"

definition user_va :: "u64 \<Rightarrow> bool" where
  "user_va va \<longleftrightarrow> upath (vpath va)"

lemma tab_vpath:
  "tab m (vpath va) = (if has_bits (ent m (vpath va)) PAGE_PRESENT then Some (PTE_ADDR (ent m (vpath va))) else None)"
  by (subst (1 2 3) vpath_Cons) (rule tab_Cons_ent)

lemma grown_tab4: "grown s s' \<Longrightarrow> upath q \<Longrightarrow> tab (qmem s') q = tab (qmem s) q"
  by (cases q) (auto simp: grown_def tab_Cons_ent upath_def)

lemma grown_mappers: "grown s s' \<Longrightarrow> mappers (qmem s') f = mappers (qmem s) f"
  by (auto simp: mappers_def grown_tab4)

lemma grown_fresh:
  assumes "grown s s'" "fresh s pg"
  shows "fresh s' pg"
proof -
  from assms(2) obtain k where k: "k < PAGING_PAGES" "pg = page_of k" "mem_map s ! k = 1"
    by (auto simp: fresh_def)
  then have "used s pg" by (simp add: used_def page_aligned_page_of page_of_range MAP_NR_page_of)
  with assms k show ?thesis
    unfolding fresh_def grown_mappers [OF assms(1)] by (auto simp: grown_def)
qed

lemma fresh_PTE_ADDR: "fresh s pg \<Longrightarrow> PTE_ADDR (pg OR 7) = pg"
  by (auto simp: fresh_def PTE_ADDR_page)

lemma has_bits_7 [simp]: "has_bits (pg OR 7) PAGE_PRESENT"
  by (simp add: has_bits_or)

text \<open>Mapping a fresh page.\<close>

lemma map_fresh:
  assumes wf: "mm_wf s" and fr: "fresh s pg" and t: "tab (qmem s) (tl (vpath va)) = Some t"
    and s': "s' = write_q (elem t (PT_INDEX va)) (pg OR 7) s"
  shows "mm_wf s'" "pte_of s' va = pg OR 7" "vpath va' \<noteq> vpath va \<Longrightarrow> pte_of s' va' = pte_of s va'"
    "tpath r \<Longrightarrow> tab (qmem s') r = tab (qmem s) r"
    "mappers (qmem s') f = (mappers (qmem s) f - {vpath va}) \<union> (if user_va va \<and> pg = f then {vpath va} else {})"
proof -
  from fr obtain k where k: "k < PAGING_PAGES" "pg = page_of k" "mem_map s ! k = 1"
    by (auto simp: fresh_def)
  note len = mm_wf_length [OF wf]
  have C: "card (mappers (qmem s) (page_of j) - {vpath va}) +
       (if upath (vpath va) \<and> has_bits (pg OR 7) PAGE_PRESENT \<and> PTE_ADDR (pg OR 7) = page_of j then 1 else 0)
     \<le> unat (mem_map s' ! j)" if j: "j < PAGING_PAGES" for j
  proof (cases "j = k")
    case True
    then show ?thesis using fr k by (auto simp: fresh_def s')
  next
    case False
    then have "pg \<noteq> page_of j" using k j page_of_inj by auto
    moreover have "card (mappers (qmem s) (page_of j) - {vpath va}) \<le> card (mappers (qmem s) (page_of j))"
      by (rule card_mono) auto
    ultimately show ?thesis using mm_wf_count [OF wf j] fresh_PTE_ADDR [OF fr] by (simp add: s')
  qed
  have q: "qmem s' = (qmem s)(elem t (PT_INDEX va) := pg OR 7)" and mm: "mem_map s' = mem_map s"
    by (simp_all add: s')
  have F: "PTE_ADDR (pg OR 7) < HIGH_MEMORY \<and> \<not> table_page (qmem s) (PTE_ADDR (pg OR 7))"
    using fr page_of_range k fresh_PTE_ADDR [OF fr] by (simp add: fresh_def)
  have "\<forall>k < PAGING_PAGES. mem_map s ! k \<noteq> 0 \<longrightarrow> table_page (qmem s) (page_of k) \<longrightarrow> mem_map s' ! k \<noteq> 0"
    by (simp add: mm)
  note sp = set_pte [OF wf t q len [folded mm] this impI [OF impI [OF impI [OF F]]] allI [OF impI [OF C]]]
  show "mm_wf s'" by (rule sp(1))
  show "pte_of s' va = pg OR 7" by (rule sp(2))
  show "vpath va' \<noteq> vpath va \<Longrightarrow> pte_of s' va' = pte_of s va'" by (rule sp(3))
  show "tpath r \<Longrightarrow> tab (qmem s') r = tab (qmem s) r" by (rule sp(4))
  show "mappers (qmem s') f = (mappers (qmem s) f - {vpath va}) \<union> (if user_va va \<and> pg = f then {vpath va} else {})"
    by (simp add: sp(5) fresh_PTE_ADDR [OF fr] user_va_def)
qed

lemma leaf_contents:
  "table_page (qmem s) t \<Longrightarrow> page_aligned f \<Longrightarrow> \<not> table_page (qmem s) f \<Longrightarrow> i < 512 \<Longrightarrow> j < 512 \<Longrightarrow>
     qmem (write_q (elem t i) v s) (elem f j) = qmem s (elem f j)"
  using elem_eq_iff [of f j t i] table_page_aligned [of "qmem s" t] by auto

lemma tab_table_page: "tab m (tl (vpath va)) = Some t \<Longrightarrow> table_page m t"
  using vpath_tpath(1) by (auto simp: table_page_def)

text \<open>\<open>put_page\<close> of a fresh page maps it writable at \<open>va\<close> and nowhere else, or runs out of memory.\<close>

lemma put_page_fresh:
  assumes wf: "mm_wf s" and fr: "fresh s pg"
  obtains (mapped) s' where "put_page pg va s = Inr (pg, s')" "mm_wf s'" "pte_of s' va = pg OR 7"
      "\<And>va'. vpath va' \<noteq> vpath va \<Longrightarrow> pte_of s' va' = pte_of s va'"
      "mappers (qmem s') pg = (if user_va va then {vpath va} else {})"
      "\<And>f i. used s f \<Longrightarrow> \<not> table_page (qmem s) f \<Longrightarrow> i < 512 \<Longrightarrow> qmem s' (elem f i) = qmem s (elem f i)"
      "\<And>i. i < PAGING_PAGES \<Longrightarrow> mem_map s ! i \<noteq> 0 \<Longrightarrow> mem_map s' ! i = mem_map s ! i"
    | (full) s' where "put_page pg va s = Inr (0, s')" "grown s s'" "free_pages s \<le> 3"
proof -
  from fr obtain k where k: "k < PAGING_PAGES" "pg = page_of k" "mem_map s ! k = 1"
    by (auto simp: fresh_def)
  obtain pte s1 where g: "get_pte va True s = (pte, s1)" by fastforce
  have pp: "put_page pg va s = (if pte = 0 then Inr (0, s1) else Inr (pg, write_q pte (pg OR 7) s1))"
  proof -
    have "\<not> (pg < LOW_MEM \<or> HIGH_MEMORY < pg)" using page_of_range [OF k(1)] k(2) by auto
    moreover have "MAP_NR pg < length (mem_map s)" "mem_map s ! MAP_NR pg = 1"
      using k MAP_NR_page_of [OF k(1)] mm_wf_length [OF wf] by simp_all
    ultimately show ?thesis unfolding put_page_def flags_7 Let_def by (simp add: g)
  qed
  from wf g show thesis
  proof (cases rule: get_pte_cases)
    case (entry t)
    have wf1: "mm_wf s1" using entry by (simp add: grown_def)
    have fr1: "fresh s1 pg" by (rule grown_fresh [OF entry(4) fr])
    note mf = map_fresh [OF wf1 fr1 entry(3) refl]
    let ?s' = "write_q pte (pg OR 7) s1"
    show thesis
    proof (rule mapped)
      show "put_page pg va s = Inr (pg, ?s')" using pp entry(2) by simp
      show "mm_wf ?s'" "pte_of ?s' va = pg OR 7" using mf(1,2) entry(1) by auto
      show "pte_of ?s' va' = pte_of s va'" if "vpath va' \<noteq> vpath va" for va'
        using mf(3) [OF that] entry(1,4) by (auto simp: grown_def pte_of_def vpath_tpath)
      show "mappers (qmem ?s') pg = (if user_va va then {vpath va} else {})"
        using mf(5) [of pg] fr1 entry(1) by (auto simp: fresh_def)
      show "qmem ?s' (elem f i) = qmem s (elem f i)" if "used s f" "\<not> table_page (qmem s) f" "i < 512" for f i
      proof -
        have "\<not> table_page (qmem s1) f" "qmem s1 (elem f i) = qmem s (elem f i)"
          using entry(4) that by (auto simp: grown_def)
        with leaf_contents [OF tab_table_page [OF entry(3)], of f "PT_INDEX va" i "pg OR 7"] that entry(1)
        show ?thesis by (auto simp: used_def)
      qed
      show "mem_map ?s' ! i = mem_map s ! i" if "i < PAGING_PAGES" "mem_map s ! i \<noteq> 0" for i
        using entry(4) that by (simp add: grown_def)
    qed
  next
    case none
    then show thesis using full pp by auto
  qed
qed

text \<open>\<open>do_no_page\<close>: demand-zero paging.\<close>

lemma used_not_free: "used s f \<Longrightarrow> k < PAGING_PAGES \<Longrightarrow> mem_map s ! k = 0 \<Longrightarrow> f \<noteq> page_of k"
  using page_of_range MAP_NR_page_of by (auto simp: used_def)

lemma same_tree_grown:
  assumes wf: "mm_wf s" and g: "get_free_page s = (pg, s')" and pg: "pg \<noteq> 0"
  shows "grown s s'"
proof -
  from get_free_page_Some [OF assms] obtain k where k: "k < PAGING_PAGES" "pg = page_of k" "mem_map s ! k = 0"
    "mem_map s' = (mem_map s)[k := 1]" and s': "s' = zero_page pg (s\<lparr>mem_map := (mem_map s)[k := 1]\<rparr>)"
    and wf1: "mm_wf s'" and st: "same_tree (qmem s) (qmem s')" by metis
  have "qmem s' (elem f i) = qmem s (elem f i)" if "used s f" "i < 512" for f i
    using that k used_not_free [OF that(1) k(1,3)] page_aligned_page_of [OF k(1)]
      zero_page_out [of pg f i "s\<lparr>mem_map := (mem_map s)[k := 1]\<rparr>"] by (simp add: s' used_def)
  moreover have "mem_map s' ! j = mem_map s ! j" if "mem_map s ! j \<noteq> 0" for j
      using that k by (cases "j = k") auto
  moreover have "unat (mem_map s' ! j) \<le> 1" if "j < PAGING_PAGES" "mem_map s ! j = 0" for j
    using that k mm_wf_length [OF wf] by (cases "j = k") auto
  ultimately show ?thesis
    using wf1 st same_tree_table_page [OF st] s' by (auto simp: grown_def same_tree_def tpath_def)
qed

lemma do_no_page_spec:
  assumes wf: "mm_wf s"
  obtains (mapped) s' pg k where "do_no_page ec va s = Inr ((), s')" "mm_wf s'" "pte_of s' va = pg OR 7"
      "k < PAGING_PAGES" "pg = page_of k" "mem_map s ! k = 0" "mem_map s' ! k = 1"
      "\<And>i. i < 512 \<Longrightarrow> qmem s' (elem pg i) = 0"
      "mappers (qmem s') pg = (if user_va va then {vpath va} else {})"
      "\<And>va'. vpath va' \<noteq> vpath va \<Longrightarrow> pte_of s' va' = pte_of s va'"
      "\<And>f i. used s f \<Longrightarrow> \<not> table_page (qmem s) f \<Longrightarrow> i < 512 \<Longrightarrow> qmem s' (elem f i) = qmem s (elem f i)"
    | (full) s' where "do_no_page ec va s = Inl (Do_exit SIGSEGV s')" "grown s s'" "free_pages s \<le> 4"
proof -
  obtain pg s1 where g: "get_free_page s = (pg, s1)" by fastforce
  show thesis
  proof (cases "pg = 0")
    case True
    then show thesis using full [of s] g get_free_page_None [of s s1] wf free_pages_0 [OF wf]
      by (auto simp: do_no_page_def)
  next
    case False
    note G = same_tree_grown [OF wf g False]
    from get_free_page_Some [OF wf g False] obtain k where k: "k < PAGING_PAGES" "pg = page_of k" "mem_map s ! k = 0"
      "mem_map s1 = (mem_map s)[k := 1]" and wf1: "mm_wf s1" and fr: "fresh s1 pg" by metis
    have fp: "free_pages s = Suc (free_pages s1)"
      by (rule free_pages_take [of k _ _ 1]) (use k mm_wf_length [OF wf] in simp_all)
    have us: "used s1 pg" "\<not> table_page (qmem s1) pg" "mem_map s1 ! k = 1"
      using k fr mm_wf_length [OF wf] by (auto simp: used_def fresh_def page_aligned_page_of page_of_range MAP_NR_page_of)
    show thesis using wf1 fr
    proof (cases rule: put_page_fresh [where va = va])
      case (mapped s')
      show thesis
      proof (rule that(1) [of s' pg k])
        show "do_no_page ec va s = Inr ((), s')" using g False mapped(1) by (simp add: do_no_page_def)
        show "qmem s' (elem pg i) = 0" if "i < 512" for i
          using mapped(6) [OF us(1,2) that] fr that by (simp add: fresh_def)
        show "pte_of s' va' = pte_of s va'" if "vpath va' \<noteq> vpath va" for va'
          using mapped(4) [OF that] G by (simp add: grown_def pte_of_def vpath_tpath)
        show "qmem s' (elem f i) = qmem s (elem f i)" if "used s f" "\<not> table_page (qmem s) f" "i < 512" for f i
          using mapped(6) [of f i] that G grown_used [OF G] by (auto simp: grown_def)
        show "mem_map s' ! k = 1" using mapped(7) [OF k(1)] us(3) by simp
      qed (use mapped k in auto)
    next
      case (full s')
      then show thesis using that(2) [of s'] g False fp grown_trans [OF G] by (simp add: do_no_page_def)
    qed
  qed
qed

text \<open>\<open>un_wp_page\<close> on the entry of a present user page: the sole owner gets its page back writable;
  a shared page is copied.\<close>

lemma unat_word_dec: "(c :: u16) \<noteq> 0 \<Longrightarrow> unat (c - 1) = unat c - 1"
  by (simp add: unat_minus_one)

lemma user_frame:
  assumes wf: "mm_wf s" and u: "user_va va" and pr: "has_bits (pte_of s va) PAGE_PRESENT"
    and f: "f = PTE_ADDR (pte_of s va)" and lo: "LOW_MEM \<le> f"
  shows "f < HIGH_MEMORY" "\<not> table_page (qmem s) f" "vpath va \<in> mappers (qmem s) f"
    "MAP_NR f < PAGING_PAGES" "page_of (MAP_NR f) = f" "mem_map s ! MAP_NR f \<noteq> 0"
proof -
  have t: "tab (qmem s) (vpath va) = Some f" using pr f by (simp add: tab_vpath pte_of_def)
  then show m: "vpath va \<in> mappers (qmem s) f" using u by (simp add: mappers_def user_va_def)
  from mm_wf_frame [OF wf _ t lo] u show hi: "f < HIGH_MEMORY" and "\<not> table_page (qmem s) f"
    by (auto simp: user_va_def)
  show k: "MAP_NR f < PAGING_PAGES" and pk: "page_of (MAP_NR f) = f"
    using page_of_MAP_NR [OF _ lo hi] page_aligned_PTE_ADDR f by auto
  have "card (mappers (qmem s) f) \<noteq> 0" using m by auto
  with mm_wf_count [OF wf k] pk show "mem_map s ! MAP_NR f \<noteq> 0" by auto
qed

text \<open>Changing the flags of an entry that keeps its frame.\<close>

lemma set_pte_flags:
  assumes wf: "mm_wf s" and t: "tab (qmem s) (tl (vpath va)) = Some t"
    and v: "PTE_ADDR v = PTE_ADDR (pte_of s va)" "has_bits v PAGE_PRESENT \<longleftrightarrow> has_bits (pte_of s va) PAGE_PRESENT"
    and s': "qmem s' = (qmem s)(elem t (PT_INDEX va) := v)" "mem_map s' = mem_map s"
  shows "mm_wf s'" "pte_of s' va = v" "vpath va' \<noteq> vpath va \<Longrightarrow> pte_of s' va' = pte_of s va'"
    "mappers (qmem s') g = mappers (qmem s) g" "tpath r \<Longrightarrow> tab (qmem s') r = tab (qmem s) r"
proof -
  let ?v = "upath (vpath va) \<and> has_bits v PAGE_PRESENT"
  have M: "mappers (qmem s) g - {vpath va} \<union> (if ?v \<and> PTE_ADDR v = g then {vpath va} else {}) = mappers (qmem s) g" for g
    using v by (auto simp: mappers_def tab_vpath pte_of_def)
  have C: "card (mappers (qmem s) (page_of k) - {vpath va}) +
       (if upath (vpath va) \<and> has_bits v PAGE_PRESENT \<and> PTE_ADDR v = page_of k then 1 else 0)
     \<le> unat (mem_map s ! k)" if k: "k < PAGING_PAGES" for k
  proof -
    have "card (mappers (qmem s) (page_of k)) = card (mappers (qmem s) (page_of k) - {vpath va}) +
       (if ?v \<and> PTE_ADDR v = page_of k then 1 else 0)"
      by (subst M [of "page_of k", symmetric], subst card_Un_disjoint) auto
    with mm_wf_count [OF wf k] show ?thesis by simp
  qed
  have F: "PTE_ADDR v < HIGH_MEMORY \<and> \<not> table_page (qmem s) (PTE_ADDR v)"
    if "upath (vpath va)" "has_bits v PAGE_PRESENT" "LOW_MEM \<le> PTE_ADDR v"
    using user_frame [OF wf _ _ refl] that v by (simp add: user_va_def)
  have T: "\<forall>k < PAGING_PAGES. mem_map s ! k \<noteq> 0 \<longrightarrow> table_page (qmem s) (page_of k) \<longrightarrow> mem_map s' ! k \<noteq> 0"
    by (simp add: s'(2))
  have F': "upath (vpath va) \<longrightarrow> has_bits v PAGE_PRESENT \<longrightarrow> LOW_MEM \<le> PTE_ADDR v \<longrightarrow>
      PTE_ADDR v < HIGH_MEMORY \<and> \<not> table_page (qmem s) (PTE_ADDR v)" using F by blast
  note sp = set_pte [OF wf t s'(1) mm_wf_length [OF wf, folded s'(2)] T F', unfolded s'(2), OF allI [OF impI [OF C]]]
  show "mm_wf s'" by (rule sp(1))
  show "pte_of s' va = v" by (rule sp(2))
  show "vpath va' \<noteq> vpath va \<Longrightarrow> pte_of s' va' = pte_of s va'" by (rule sp(3))
  show "tpath r \<Longrightarrow> tab (qmem s') r = tab (qmem s) r" by (rule sp(4))
  show "mappers (qmem s') g = mappers (qmem s) g" using M [of g] by (simp add: sp(5))
qed

lemma or_write:
  "PTE_ADDR (e OR PAGE_WRITE) = PTE_ADDR e"
  "has_bits (e OR PAGE_WRITE) PAGE_PRESENT \<longleftrightarrow> has_bits e PAGE_PRESENT"
  by (simp_all add: PTE_ADDR_def bit.conj_disj_distrib2)

lemma un_wp_sole:
  assumes wf: "mm_wf s" and u: "user_va va" and pr: "has_bits (pte_of s va) PAGE_PRESENT"
    and t: "tab (qmem s) (tl (vpath va)) = Some t" and pte: "pte = elem t (PT_INDEX va)"
    and f: "f = PTE_ADDR (pte_of s va)" and lo: "LOW_MEM \<le> f" and c: "mem_map s ! MAP_NR f = 1"
    and s': "s' = invalidate (write_q pte (pte_of s va OR PAGE_WRITE) s)"
  shows "un_wp_page pte s = Inr ((), s')" "mm_wf s'" "pte_of s' va = pte_of s va OR PAGE_WRITE"
    "vpath va' \<noteq> vpath va \<Longrightarrow> pte_of s' va' = pte_of s va'"
    "mappers (qmem s') g = mappers (qmem s) g" "tpath r \<Longrightarrow> tab (qmem s') r = tab (qmem s) r"
proof -
  note uf = user_frame [OF wf u pr f lo] and len = mm_wf_length [OF wf]
  have e: "qmem s pte = pte_of s va" using t by (simp add: pte pte_of_def ent_vpath)
  show "un_wp_page pte s = Inr ((), s')"
    using lo c uf(4) len by (simp add: un_wp_page_def e s' f)
  have q: "qmem s' = (qmem s)(elem t (PT_INDEX va) := pte_of s va OR PAGE_WRITE)" and mm: "mem_map s' = mem_map s"
    by (simp_all add: s' pte invalidate_def)
  note fl = set_pte_flags [OF wf t or_write q mm]
  show "mm_wf s'" by (rule fl(1))
  show "pte_of s' va = pte_of s va OR PAGE_WRITE" by (rule fl(2))
  show "vpath va' \<noteq> vpath va \<Longrightarrow> pte_of s' va' = pte_of s va'" by (rule fl(3))
  show "mappers (qmem s') g = mappers (qmem s) g" by (rule fl(4))
  show "tpath r \<Longrightarrow> tab (qmem s') r = tab (qmem s) r" by (rule fl(5))
qed

text \<open>
  The state between the two halves of \<open>un_wp_page\<close>: the new page \<open>pg\<close> is mapped in the place of \<open>f\<close>
  and \<open>f\<close> is counted once less; the contents are not copied yet.
\<close>

definition remapped :: "u64 \<Rightarrow> u64 \<Rightarrow> u64 \<Rightarrow> 'a mm_scheme \<Rightarrow> 'a mm_scheme" where
  "remapped pte f pg s1 = invalidate (write_q pte (pg OR 7)
     (s1\<lparr>mem_map := (if LOW_MEM \<le> f then (mem_map s1)[MAP_NR f := mem_map s1 ! MAP_NR f - 1] else mem_map s1)\<rparr>))"

lemma remapped_counts:
  assumes wf1: "mm_wf s1" and fr: "fresh s1 pg" and fp: "f \<noteq> pg" and k: "k < PAGING_PAGES" "pg = page_of k" "mem_map s1 ! k = 1"
    and uf: "LOW_MEM \<le> f \<longrightarrow> page_of (MAP_NR f) = f \<and> mem_map s1 ! MAP_NR f \<noteq> 0 \<and> vpath va \<in> mappers (qmem s1) f"
    and j: "j < PAGING_PAGES"
  shows "card (mappers (qmem s1) (page_of j) - {vpath va}) +
       (if upath (vpath va) \<and> has_bits (pg OR 7) PAGE_PRESENT \<and> PTE_ADDR (pg OR 7) = page_of j then 1 else 0)
     \<le> unat (mem_map (remapped pte f pg s1) ! j)"
proof -
  have mk: "mem_map (remapped pte f pg s1) ! i = (if LOW_MEM \<le> f \<and> i = MAP_NR f then mem_map s1 ! i - 1 else mem_map s1 ! i)"
    if "i < PAGING_PAGES" for i using that mm_wf_length [OF wf1] by (auto simp: remapped_def invalidate_def)
  have c1: "card (mappers (qmem s1) (page_of j)) \<le> unat (mem_map s1 ! j)" by (rule mm_wf_count [OF wf1 j])
  have c2: "card (mappers (qmem s1) (page_of j) - {vpath va}) \<le> card (mappers (qmem s1) (page_of j))"
    by (rule card_mono) auto
  consider "j = k" | "j \<noteq> k" "LOW_MEM \<le> f" "j = MAP_NR f" | "j \<noteq> k" "\<not> (LOW_MEM \<le> f \<and> j = MAP_NR f)" by blast
  then show ?thesis
  proof cases
    case 1
    then have "\<not> (LOW_MEM \<le> f \<and> j = MAP_NR f)" using uf fp k(2) by auto
    then have "unat (mem_map (remapped pte f pg s1) ! j) = 1" using 1 k(1,3) by (auto simp: mk)
    moreover have "mappers (qmem s1) (page_of j) = {}" using fr 1 k(2) by (simp add: fresh_def)
    ultimately show ?thesis by simp
  next
    case 2
    then show ?thesis using uf c1 fp j by (auto simp: mk unat_word_dec card_Diff_singleton fresh_PTE_ADDR [OF fr])
  next
    case 3
    then have "page_of j \<noteq> pg" using k j page_of_inj by auto
    with 3 show ?thesis using c1 c2 j by (auto simp: mk fresh_PTE_ADDR [OF fr])
  qed
qed

lemma remapped_tree:
  assumes wf1: "mm_wf s1" and fr: "fresh s1 pg" and fp: "f \<noteq> pg" and k: "k < PAGING_PAGES" "pg = page_of k" "mem_map s1 ! k = 1"
    and uf: "LOW_MEM \<le> f \<longrightarrow> page_of (MAP_NR f) = f \<and> mem_map s1 ! MAP_NR f \<noteq> 0 \<and> vpath va \<in> mappers (qmem s1) f"
    and nt: "LOW_MEM \<le> f \<longrightarrow> \<not> table_page (qmem s1) f"
    and t1: "tab (qmem s1) (tl (vpath va)) = Some t"
  defines "s3 \<equiv> remapped (elem t (PT_INDEX va)) f pg s1"
  shows "mm_wf s3" "pte_of s3 va = pg OR 7" "vpath va' \<noteq> vpath va \<Longrightarrow> pte_of s3 va' = pte_of s1 va'"
    "table_page (qmem s3) h = table_page (qmem s1) h" "length (mem_map s3) = PAGING_PAGES"
    "upath (vpath va) \<Longrightarrow> mappers (qmem s3) pg = {vpath va}"
    "\<not> table_page (qmem s1) h \<Longrightarrow> page_aligned h \<Longrightarrow> i < 512 \<Longrightarrow> qmem s3 (elem h i) = qmem s1 (elem h i)"
proof -
  have q: "qmem s3 = (qmem s1)(elem t (PT_INDEX va) := pg OR 7)" by (simp add: s3_def remapped_def invalidate_def)
  have mm: "mem_map s3 = (if LOW_MEM \<le> f then (mem_map s1)[MAP_NR f := mem_map s1 ! MAP_NR f - 1] else mem_map s1)"
    by (simp add: s3_def remapped_def invalidate_def)
  show l: "length (mem_map s3) = PAGING_PAGES" by (simp add: mm mm_wf_length [OF wf1])
  have T: "\<forall>j < PAGING_PAGES. mem_map s1 ! j \<noteq> 0 \<longrightarrow> table_page (qmem s1) (page_of j) \<longrightarrow> mem_map s3 ! j \<noteq> 0"
    using uf nt by (metis mm nth_list_update_neq)
  have F: "PTE_ADDR (pg OR 7) < HIGH_MEMORY \<and> \<not> table_page (qmem s1) (PTE_ADDR (pg OR 7))"
    using fr page_of_range k fresh_PTE_ADDR [OF fr] by (simp add: fresh_def)
  note C = remapped_counts [OF wf1 fr fp k uf, where pte = "elem t (PT_INDEX va)", folded s3_def]
  note sp = set_pte [OF wf1 t1 q l T impI [OF impI [OF impI [OF F]]] allI [OF impI [OF C]]]
  show "mm_wf s3" by (rule sp(1))
  show "pte_of s3 va = pg OR 7" using sp(2) by (simp add: pte_of_def)
  show "vpath va' \<noteq> vpath va \<Longrightarrow> pte_of s3 va' = pte_of s1 va'" using sp(3) by (simp add: pte_of_def)
  show "table_page (qmem s3) h = table_page (qmem s1) h" using sp(4) by (auto simp: table_page_def)
  show "upath (vpath va) \<Longrightarrow> mappers (qmem s3) pg = {vpath va}"
    using sp(5) [of pg] fr by (simp add: fresh_def fresh_PTE_ADDR [OF fr])
  show "\<not> table_page (qmem s1) h \<Longrightarrow> page_aligned h \<Longrightarrow> i < 512 \<Longrightarrow> qmem s3 (elem h i) = qmem s1 (elem h i)"
    using leaf_contents [OF tab_table_page [OF t1], of h "PT_INDEX va" i "pg OR 7"] by (simp add: q)
qed

lemma copy_page_tree:
  assumes "page_aligned f" "page_aligned pg" "f \<noteq> pg" "\<not> table_page (qmem s) pg"
  shows "same_tree (qmem s) (qmem (copy_page f pg s))"
  unfolding same_tree_def
proof (intro allI impI tab_frame)
  fix h i :: u64 assume h: "table_page (qmem s) h" "i < 512"
  then show "qmem (copy_page f pg s) (elem h i) = qmem s (elem h i)"
    using copy_page_out [OF assms(1-3) table_page_aligned [OF h(1)] h(2)] assms(4) by blast
qed

lemma un_wp_copied:
  assumes wf: "mm_wf s" and u: "user_va va" and pr: "has_bits (pte_of s va) PAGE_PRESENT"
    and t: "tab (qmem s) (tl (vpath va)) = Some t" and pte: "pte = elem t (PT_INDEX va)"
    and f: "f = PTE_ADDR (pte_of s va)" and c: "\<not> (LOW_MEM \<le> f \<and> mem_map s ! MAP_NR f = 1)"
    and g: "get_free_page s = (pg, s1)" "pg \<noteq> 0"
  obtains s' where "un_wp_page pte s = Inr ((), s')" "mm_wf s'" "pte_of s' va = pg OR 7" "PTE_ADDR (pg OR 7) = pg"
    "\<And>va'. vpath va' \<noteq> vpath va \<Longrightarrow> pte_of s' va' = pte_of s va'"
    "mappers (qmem s') pg = {vpath va}"
    "\<And>i. \<not> table_page (qmem s) f \<Longrightarrow> i < 512 \<Longrightarrow> qmem s' (elem pg i) = qmem s (elem f i)"
    "\<And>h i. used s h \<Longrightarrow> \<not> table_page (qmem s) h \<Longrightarrow> i < 512 \<Longrightarrow> qmem s' (elem h i) = qmem s (elem h i)"
    "LOW_MEM \<le> f \<Longrightarrow> unat (mem_map s' ! MAP_NR f) = unat (mem_map s ! MAP_NR f) - 1"
proof -
  note G = same_tree_grown [OF wf g] and len = mm_wf_length [OF wf]
  from get_free_page_Some [OF wf g] obtain k where k: "k < PAGING_PAGES" "pg = page_of k" "mem_map s ! k = 0"
    "mem_map s1 = (mem_map s)[k := 1]" and wf1: "mm_wf s1" and fr: "fresh s1 pg"
    and st: "same_tree (qmem s) (qmem s1)" by metis
  have t1: "tab (qmem s1) (tl (vpath va)) = Some t" using G t vpath_tpath by (simp add: grown_def)
  note uf = user_frame [OF wf u pr f] same_tree_mappers [OF st, of f] same_tree_table_page [OF st, of f]
  have fa: "page_aligned f" "page_aligned pg" using f k by (auto simp: page_aligned_PTE_ADDR page_aligned_page_of)
  have fp: "f \<noteq> pg" using uf fr page_of_range [OF k(1)] k(2) by (auto simp: fresh_def)
  have kf: "LOW_MEM \<le> f \<Longrightarrow> MAP_NR f \<noteq> k" using uf fp k(2) by auto
  have same: "LOW_MEM \<le> f \<Longrightarrow> mem_map s1 ! MAP_NR f = mem_map s ! MAP_NR f" using kf by (simp add: k(4))
  have usf: "used s f"
    using uf fa(1) by (cases "LOW_MEM \<le> f") (auto simp: used_def word_le_nat_alt word_less_nat_alt)
  define s3 where "s3 = remapped pte f pg s1"
  have k1: "mem_map s1 ! k = 1" using k len by simp
  have R: "LOW_MEM \<le> f \<longrightarrow> page_of (MAP_NR f) = f \<and> mem_map s1 ! MAP_NR f \<noteq> 0 \<and> vpath va \<in> mappers (qmem s1) f"
    "LOW_MEM \<le> f \<longrightarrow> \<not> table_page (qmem s1) f"
    using uf same by auto
  note S = remapped_tree [OF wf1 fr fp k(1,2) k1 R t1, folded pte, folded s3_def]
  have e: "qmem s pte = pte_of s va" using t by (simp add: pte pte_of_def ent_vpath)
  have s1e: "s1\<lparr>mem_map := (mem_map s)[k := 1]\<rparr> = s1" using k(4) by (cases s1) simp
  have res: "un_wp_page pte s = Inr ((), copy_page f pg s3)"
    unfolding un_wp_page_def e f [symmetric] flags_7 s3_def remapped_def using g c k len uf(4) kf
    by (auto simp: Let_def s1e)
  have cp: "qmem (copy_page f pg s3) (elem h i) = qmem s3 (elem h i)" if "page_aligned h" "h \<noteq> pg" "i < 512" for h i
    using copy_page_out [OF fa fp that(1,3,2)] .
  have st3: "same_tree (qmem s3) (qmem (copy_page f pg s3))"
    by (rule copy_page_tree [OF fa fp]) (use fr S(4) in \<open>simp add: fresh_def\<close>)
  show thesis
  proof (rule that [OF res])
    show "mm_wf (copy_page f pg s3)" by (rule mm_wf_same_tree [OF S(1) st3]) (simp_all add: S(5))
    show "pte_of (copy_page f pg s3) va = pg OR 7"
      using S(2) st3 by (simp add: same_tree_def pte_of_def vpath_tpath)
    show "PTE_ADDR (pg OR 7) = pg" by (rule fresh_PTE_ADDR [OF fr])
    show "pte_of (copy_page f pg s3) va' = pte_of s va'" if "vpath va' \<noteq> vpath va" for va'
      using S(3) [OF that] st3 G by (simp add: same_tree_def pte_of_def vpath_tpath grown_def)
    show "mappers (qmem (copy_page f pg s3)) pg = {vpath va}"
      using S(6) u by (simp add: same_tree_mappers [OF st3] user_va_def)
    show "qmem (copy_page f pg s3) (elem pg i) = qmem s (elem f i)" if "\<not> table_page (qmem s) f" "i < 512" for i
      using copy_page_in [OF fa fp that(2), of s3] S(7) [of f i] G usf that fa(1) uf(8) by (auto simp: grown_def)
    show "qmem (copy_page f pg s3) (elem h i) = qmem s (elem h i)" if h: "used s h" "\<not> table_page (qmem s) h" "i < 512" for h i
      using cp [of h i] S(7) [of h i] used_not_free [OF h(1) k(1,3)] G h same_tree_table_page [OF st]
      by (auto simp: grown_def used_def k(2))
    show "unat (mem_map (copy_page f pg s3) ! MAP_NR f) = unat (mem_map s ! MAP_NR f) - 1" if "LOW_MEM \<le> f"
      using that uf same mm_wf_length [OF wf1] by (simp add: s3_def remapped_def invalidate_def unat_word_dec)
  qed
qed

lemma offset_idx [simp]: "drop_bit 3 (PAGE_OFFSET va) < 512"
proof -
  have "va AND 0xFFF < 4096" using and_mask_less_size [of 12 va] by (simp add: word_size flip: mask12)
  then have "unat (PAGE_OFFSET va) < 4096" by (simp add: PAGE_OFFSET_def word_less_nat_alt)
  then show ?thesis by (simp add: drop_bit_eq_div word_less_nat_alt unat_div)
qed

lemma user_used:
  assumes "mm_wf s" "user_va va" "has_bits (pte_of s va) PAGE_PRESENT"
  shows "used s (PTE_ADDR (pte_of s va))"
  using user_frame [OF assms refl] page_aligned_PTE_ADDR [of "pte_of s va"]
  by (cases "LOW_MEM \<le> PTE_ADDR (pte_of s va)") (auto simp: used_def word_le_nat_alt word_less_nat_alt)

text \<open>A load whose entry is unchanged and whose page is unchanged.\<close>

lemma vload_unchanged:
  assumes "mm_wf s" "user_va va" "pte_of s' va = pte_of s va" "\<not> table_page (qmem s) (PTE_ADDR (pte_of s va))"
    and "\<And>f i. used s f \<Longrightarrow> \<not> table_page (qmem s) f \<Longrightarrow> i < 512 \<Longrightarrow> qmem s' (elem f i) = qmem s (elem f i)"
  shows "vload s' va = vload s va"
  using assms(3,4) assms(5) [OF user_used [OF assms(1,2)], of "drop_bit 3 (PAGE_OFFSET va)"]
  by (auto simp: vload_def Let_def)

lemma vload_copied:
  assumes "has_bits (pte_of s va) PAGE_PRESENT" "pte_of s' va = e" "has_bits e PAGE_PRESENT"
    and "\<And>i. i < 512 \<Longrightarrow> qmem s' (elem (PTE_ADDR e) i) = qmem s (elem (PTE_ADDR (pte_of s va)) i)"
  shows "vload s' va = vload s va"
  using assms by (simp add: vload_def)

lemma pte_of_same_page: "vpath va' = vpath va \<Longrightarrow> pte_of s va' = pte_of s va"
  by (simp add: pte_of_def)

text \<open>What resolving a write-protection fault at \<open>va\<close> achieves.\<close>

definition cow_broken :: "u64 \<Rightarrow> 'a mm_scheme \<Rightarrow> 'a mm_scheme \<Rightarrow> bool" where
  "cow_broken va s s' \<longleftrightarrow> mm_wf s' \<and> vwritable s' va \<and>
     mappers (qmem s') (PTE_ADDR (pte_of s' va)) = {vpath va} \<and>
     (\<forall>va'. vpath va' \<noteq> vpath va \<longrightarrow> pte_of s' va' = pte_of s va') \<and>
     (\<forall>va'. user_va va' \<longrightarrow> \<not> table_page (qmem s) (PTE_ADDR (pte_of s va')) \<longrightarrow> vload s' va' = vload s va')"

lemma bits_absorb: "(x AND m) OR m = (m :: u64)" "m OR (x AND m) = m"
  by (rule bit_word_eqI, auto simp: bit_simps)+

lemma vwritable_7: "(pg OR 7) AND (PAGE_PRESENT OR PAGE_WRITE) = PAGE_PRESENT OR (PAGE_WRITE :: u64)"
  using bits_absorb(1) [of pg 3] by (simp add: bit.conj_disj_distrib2)

lemma present_bit: "has_bits e PAGE_PRESENT \<Longrightarrow> e AND PAGE_PRESENT = PAGE_PRESENT"
  by (simp add: and_one_eq mod_2_eq_odd split: if_splits)

lemma vwritable_or:
  assumes "has_bits e PAGE_PRESENT"
  shows "(e OR PAGE_WRITE) AND (PAGE_PRESENT OR PAGE_WRITE) = PAGE_PRESENT OR (PAGE_WRITE :: u64)"
  using present_bit [OF assms] bits_absorb(1) [of e 2]
  by (simp only: bit.conj_disj_distrib2 bit.conj_disj_distrib) simp

lemma un_wp_sole_correct:
  assumes wf: "mm_wf s" and u: "user_va va" and pr: "has_bits (pte_of s va) PAGE_PRESENT"
    and t: "tab (qmem s) (tl (vpath va)) = Some t" and pte: "pte = elem t (PT_INDEX va)"
    and own: "LOW_MEM \<le> PTE_ADDR (pte_of s va)" "mem_map s ! MAP_NR (PTE_ADDR (pte_of s va)) = 1"
  shows "\<exists>s'. un_wp_page pte s = Inr ((), s') \<and> cow_broken va s s'"
proof -
  let ?f = "PTE_ADDR (pte_of s va)" and ?s' = "invalidate (write_q pte (pte_of s va OR PAGE_WRITE) s)"
  note sole = un_wp_sole [OF wf u pr t pte refl own(1) own(2) refl]
  note uf = user_frame [OF wf u pr refl own(1)]
  have cont: "qmem ?s' (elem f i) = qmem s (elem f i)" if "used s f" "\<not> table_page (qmem s) f" "i < 512" for f i
    using leaf_contents [OF tab_table_page [OF t] _ that(2) _ that(3)] that(1) by (simp add: pte used_def invalidate_def)
  have "card (mappers (qmem s) ?f) \<le> 1"
    using mm_wf_count [OF wf uf(4)] uf(5) own by simp
  then have m: "mappers (qmem s) ?f = {vpath va}"
    using uf(3) card_le_Suc0_iff_eq [of "mappers (qmem s) ?f"] by auto
  have "vload ?s' va' = vload s va'" if "user_va va'" "\<not> table_page (qmem s) (PTE_ADDR (pte_of s va'))" for va'
  proof (cases "vpath va' = vpath va")
    case True
    then have e: "pte_of ?s' va' = pte_of s va' OR PAGE_WRITE" "has_bits (pte_of s va') PAGE_PRESENT"
      using sole(3) pr pte_of_same_page [OF True] by metis+
    show ?thesis
      by (rule vload_copied [OF e(2,1)]) (use e(2) cont user_used [OF wf that(1)] that(2) in \<open>simp_all add: or_write\<close>)
  next
    case False
    then show ?thesis using vload_unchanged [OF wf that(1) sole(4) that(2) cont] by simp
  qed
  then have "cow_broken va s ?s'"
    using sole m pr vwritable_or [OF pr] by (simp add: cow_broken_def vwritable_def or_write)
  with sole(1) show ?thesis by blast
qed

lemma un_wp_copied_correct:
  assumes wf: "mm_wf s" and u: "user_va va" and pr: "has_bits (pte_of s va) PAGE_PRESENT"
    and t: "tab (qmem s) (tl (vpath va)) = Some t" and pte: "pte = elem t (PT_INDEX va)"
    and c: "\<not> (LOW_MEM \<le> PTE_ADDR (pte_of s va) \<and> mem_map s ! MAP_NR (PTE_ADDR (pte_of s va)) = 1)"
    and g: "get_free_page s = (pg, s1)" "pg \<noteq> 0"
  shows "\<exists>s'. un_wp_page pte s = Inr ((), s') \<and> cow_broken va s s'"
proof (rule un_wp_copied [OF wf u pr t pte refl c g])
  fix s' assume s':
    "un_wp_page pte s = Inr ((), s')" "mm_wf s'" "pte_of s' va = pg OR 7" "PTE_ADDR (pg OR 7) = pg"
    "\<And>va'. vpath va' \<noteq> vpath va \<Longrightarrow> pte_of s' va' = pte_of s va'"
    "mappers (qmem s') pg = {vpath va}"
    "\<And>i. \<not> table_page (qmem s) (PTE_ADDR (pte_of s va)) \<Longrightarrow> i < 512 \<Longrightarrow> qmem s' (elem pg i) = qmem s (elem (PTE_ADDR (pte_of s va)) i)"
    "\<And>h i. used s h \<Longrightarrow> \<not> table_page (qmem s) h \<Longrightarrow> i < 512 \<Longrightarrow> qmem s' (elem h i) = qmem s (elem h i)"
  have "vload s' va' = vload s va'" if "user_va va'" "\<not> table_page (qmem s) (PTE_ADDR (pte_of s va'))" for va'
  proof (cases "vpath va' = vpath va")
    case True
    note e = pte_of_same_page [OF True, of s] pte_of_same_page [OF True, of s']
    show ?thesis
      by (rule vload_copied [of s va' s' "pg OR 7"]) (use e s'(3,4,7) pr that(2) in simp_all)
  next
    case False
    then show ?thesis using vload_unchanged [OF wf that(1) s'(5) that(2) s'(8)] by simp
  qed
  then have "cow_broken va s s'"
    using s' vwritable_7 [of pg] by (simp add: cow_broken_def vwritable_def)
  with s'(1) show ?thesis by blast
qed

lemma un_wp_page_correct:
  assumes wf: "mm_wf s" and u: "user_va va" and pr: "has_bits (pte_of s va) PAGE_PRESENT"
    and t: "tab (qmem s) (tl (vpath va)) = Some t" and pte: "pte = elem t (PT_INDEX va)"
  shows "(\<exists>s'. un_wp_page pte s = Inr ((), s') \<and> cow_broken va s s') \<or>
     un_wp_page pte s = Inl (Do_exit SIGSEGV s) \<and> (\<forall>i<PAGING_PAGES. mem_map s ! i \<noteq> 0)"
proof (cases "LOW_MEM \<le> PTE_ADDR (pte_of s va) \<and> mem_map s ! MAP_NR (PTE_ADDR (pte_of s va)) = 1")
  case True
  then show ?thesis using un_wp_sole_correct [OF wf u pr t pte] by blast
next
  case False
  obtain pg s1 where g: "get_free_page s = (pg, s1)" by fastforce
  have e: "qmem s pte = pte_of s va" using t by (simp add: pte pte_of_def ent_vpath)
  show ?thesis
  proof (cases "pg = 0")
    case True
    then have n: "s1 = s" "\<forall>i<PAGING_PAGES. mem_map s ! i \<noteq> 0" using g get_free_page_None [of s s1] by auto
    have "LOW_MEM \<le> PTE_ADDR (pte_of s va) \<Longrightarrow> MAP_NR (PTE_ADDR (pte_of s va)) < length (mem_map s)"
      using user_frame(4) [OF wf u pr refl] mm_wf_length [OF wf] by simp
    then have "un_wp_page pte s = Inl (Do_exit SIGSEGV s)"
      using False g True n(1) by (auto simp: un_wp_page_def e Let_def)
    with n(2) show ?thesis by blast
  next
    case pg: False
    then show ?thesis using un_wp_copied_correct [OF wf u pr t pte False g pg] by blast
  qed
qed

end
