(* ===== verification/Page_Ranges.thy ===== *)
theory Page_Ranges
  imports Page_Faults
begin

text \<open>
  Ranges of pages: \<open>copy_page_tables\<close> shares every page of a range read-only and counts the new
  mapping, \<open>free_page_tables\<close> removes a range. Also the correspondence between addresses below
  \<open>2^48\<close> and paths through the page tables.
\<close>

definition read_only :: "u64 \<Rightarrow> u64" where "read_only e = e AND NOT PAGE_WRITE"

lemma read_only_PTE [simp]:
  "PTE_ADDR (read_only e) = PTE_ADDR e"
  "has_bits (read_only e) PAGE_PRESENT \<longleftrightarrow> has_bits e PAGE_PRESENT"
  by (simp_all add: read_only_def PTE_ADDR_def and.assoc)

text \<open>What copying mappings preserves.\<close>

definition evolved :: "'a mm_scheme \<Rightarrow> 'a mm_scheme \<Rightarrow> bool" where
  "evolved s s' \<longleftrightarrow> mm_wf s' \<and> (\<forall>f. used s f \<longrightarrow> used s' f) \<and>
     (\<forall>f. used s f \<longrightarrow> table_page (qmem s') f \<longrightarrow> table_page (qmem s) f) \<and>
     (\<forall>f i. used s f \<longrightarrow> \<not> table_page (qmem s) f \<longrightarrow> i < 512 \<longrightarrow> qmem s' (elem f i) = qmem s (elem f i))"

lemma evolved_refl [simp]: "mm_wf s \<Longrightarrow> evolved s s"
  by (simp add: evolved_def)

lemma evolved_trans: "evolved s s' \<Longrightarrow> evolved s' s'' \<Longrightarrow> evolved s s''"
  unfolding evolved_def by (metis (no_types, lifting))

lemma grown_evolved: "grown s s' \<Longrightarrow> evolved s s'"
  using grown_used by (auto simp: evolved_def grown_def)

lemma write_leaf_evolved:
  assumes "mm_wf s" "mm_wf s'" "tab (qmem s) (tl (vpath va)) = Some t"
    and "qmem s' = (qmem s)(elem t (PT_INDEX va) := v)" "mem_map s' = mem_map s"
    and "\<And>r. tpath r \<Longrightarrow> tab (qmem s') r = tab (qmem s) r"
  shows "evolved s s'"
proof -
  have "table_page (qmem s') f = table_page (qmem s) f" for f using assms(6) by (auto simp: table_page_def)
  then show ?thesis
    using assms(2,4,5) leaf_contents [OF tab_table_page [OF assms(3)], of _ "PT_INDEX va" _ v]
    by (auto simp: evolved_def used_def)
qed

lemma bump_evolved:
  assumes wf: "mm_wf s" and k: "k < PAGING_PAGES" and c: "unat (mem_map s ! k) < 65535"
    and s': "s' = s\<lparr>mem_map := (mem_map s)[k := mem_map s ! k + 1]\<rparr>"
  shows "evolved s s'" "unat (mem_map s' ! k) = Suc (unat (mem_map s ! k))" "j \<noteq> k \<Longrightarrow> mem_map s' ! j = mem_map s ! j"
proof -
  note len = mm_wf_length [OF wf]
  show u: "unat (mem_map s' ! k) = Suc (unat (mem_map s ! k))"
    using k c len by (simp add: s' unat_word_ariths)
  show o: "j \<noteq> k \<Longrightarrow> mem_map s' ! j = mem_map s ! j" for j by (simp add: s')
  have "mem_map s' ! j \<noteq> 0" if "mem_map s ! j \<noteq> 0" for j
    using that u o [of j] by (cases "j = k") auto
  moreover have "mm_wf s'"
  proof (rule mm_wf_same_tree [OF wf])
    show "unat (mem_map s ! j) \<le> unat (mem_map s' ! j)" for j using u o [of j] by (cases "j = k") auto
  qed (simp_all add: s' same_tree_def len)
  ultimately show "evolved s s'" by (auto simp: evolved_def used_def s')
qed

text \<open>Adding a mapping for a frame: one more mapper, at most.\<close>

lemma add_mapping:
  assumes wf: "mm_wf s" and t: "tab (qmem s) (tl (vpath va)) = Some t"
    and s': "s' = write_q (elem t (PT_INDEX va)) v s"
    and F: "LOW_MEM \<le> PTE_ADDR v \<longrightarrow> PTE_ADDR v < HIGH_MEMORY \<and> \<not> table_page (qmem s) (PTE_ADDR v)"
    and C: "\<forall>k < PAGING_PAGES. PTE_ADDR v = page_of k \<longrightarrow> Suc (card (mappers (qmem s) (page_of k))) \<le> unat (mem_map s ! k)"
  shows "evolved s s'" "pte_of s' va = v" "vpath va' \<noteq> vpath va \<Longrightarrow> pte_of s' va' = pte_of s va'"
    "tpath r \<Longrightarrow> tab (qmem s') r = tab (qmem s) r"
proof -
  have q: "qmem s' = (qmem s)(elem t (PT_INDEX va) := v)" and mm: "mem_map s' = mem_map s" by (simp_all add: s')
  have C': "card (mappers (qmem s) (page_of k) - {vpath va}) +
       (if upath (vpath va) \<and> has_bits v PAGE_PRESENT \<and> PTE_ADDR v = page_of k then 1 else 0)
     \<le> unat (mem_map s ! k)" if k: "k < PAGING_PAGES" for k
  proof -
    have "card (mappers (qmem s) (page_of k) - {vpath va}) \<le> card (mappers (qmem s) (page_of k))"
      by (rule card_mono) auto
    with mm_wf_count [OF wf k] C [rule_format, OF k] show ?thesis by auto
  qed
  have T: "\<forall>k < PAGING_PAGES. mem_map s ! k \<noteq> 0 \<longrightarrow> table_page (qmem s) (page_of k) \<longrightarrow> mem_map s' ! k \<noteq> 0"
    by (simp add: mm)
  note sp = set_pte [OF wf t q mm_wf_length [OF wf, folded mm] T impI [OF impI [OF F]], unfolded mm, OF allI [OF impI [OF C']]]
  have wf': "mm_wf s'" by (rule sp(1))
  show "pte_of s' va = v" by (rule sp(2))
  show "vpath va' \<noteq> vpath va \<Longrightarrow> pte_of s' va' = pte_of s va'" by (rule sp(3))
  show tp: "tpath r \<Longrightarrow> tab (qmem s') r = tab (qmem s) r" for r by (rule sp(4))
  show "evolved s s'" by (rule write_leaf_evolved [OF wf wf' t q mm tp])
qed

lemma share_high:
  assumes wf: "mm_wf s" and u: "user_va fr" and ne: "vpath to \<noteq> vpath fr"
    and tf: "tab (qmem s) (tl (vpath fr)) = Some tf" and tt: "tab (qmem s) (tl (vpath to)) = Some tt"
    and e: "e = pte_of s fr" "has_bits e PAGE_PRESENT" and f: "f = PTE_ADDR e" "LOW_MEM \<le> f"
    and c: "unat (mem_map s ! MAP_NR f) < 65535"
    and s': "s' = write_q (elem tf (PT_INDEX fr)) (read_only e) (write_q (elem tt (PT_INDEX to)) (read_only e) s)
        \<lparr>mem_map := (mem_map s)[MAP_NR f := mem_map s ! MAP_NR f + 1]\<rparr>"
  shows "evolved s s'" "pte_of s' to = read_only e" "pte_of s' fr = read_only e"
    "vpath va \<noteq> vpath to \<Longrightarrow> vpath va \<noteq> vpath fr \<Longrightarrow> pte_of s' va = pte_of s va"
proof -
  note uf = user_frame [OF wf u e(2) [unfolded e(1)] f(1) [unfolded e(1)] f(2)]
  define sb where "sb = s\<lparr>mem_map := (mem_map s)[MAP_NR f := mem_map s ! MAP_NR f + 1]\<rparr>"
  note b = bump_evolved [OF wf uf(4) c sb_def]
  have qb: "qmem sb = qmem s" by (simp add: sb_def)
  have pb: "pte_of sb va = pte_of s va" for va by (simp add: pte_of_def qb)
  have wfb: "mm_wf sb" using b(1) by (simp add: evolved_def)
  define sc where "sc = write_q (elem tt (PT_INDEX to)) (read_only e) sb"
  have C: "\<forall>k < PAGING_PAGES. PTE_ADDR (read_only e) = page_of k \<longrightarrow> Suc (card (mappers (qmem sb) (page_of k))) \<le> unat (mem_map sb ! k)"
  proof (intro allI impI)
    fix k assume that: "k < PAGING_PAGES" "PTE_ADDR (read_only e) = page_of k"
    have "k = MAP_NR f" using MAP_NR_page_of [OF that(1)] that(2) f(1) by simp
    then show "Suc (card (mappers (qmem sb) (page_of k))) \<le> unat (mem_map sb ! k)"
      using b(2) mm_wf_count [OF wf that(1)] by (simp add: qb)
  qed
  have F: "PTE_ADDR (read_only e) < HIGH_MEMORY \<and> \<not> table_page (qmem sb) (PTE_ADDR (read_only e))"
    using uf f(1) by (simp add: qb)
  note am = add_mapping [OF wfb tt [folded qb] sc_def impI [OF F] C]
  have wfc: "mm_wf sc" using am(1) by (simp add: evolved_def)
  have tfc: "tab (qmem sc) (tl (vpath fr)) = Some tf" using am(4) [OF vpath_tpath(1)] tf by (simp add: qb)
  have pc: "pte_of sc fr = e" using am(3) ne e(1) by (simp add: pb)
  define sd where "sd = write_q (elem tf (PT_INDEX fr)) (read_only e) sc"
  have sd: "qmem sd = (qmem sc)(elem tf (PT_INDEX fr) := read_only e)" "mem_map sd = mem_map sc" by (simp_all add: sd_def)
  have ro: "PTE_ADDR (read_only e) = PTE_ADDR (pte_of sc fr)" "has_bits (read_only e) PAGE_PRESENT = has_bits (pte_of sc fr) PAGE_PRESENT"
    by (simp_all add: pc)
  note fl = set_pte_flags [OF wfc tfc ro sd]
  have "s' = sd" by (simp add: s' sd_def sc_def sb_def write_q_def)
  moreover have "evolved s sd"
    using evolved_trans [OF b(1) evolved_trans [OF am(1) write_leaf_evolved [OF wfc fl(1) tfc sd fl(5)]]] by simp
  moreover have "pte_of sd to = read_only e" using fl(3) [of to] ne am(2) by simp
  moreover have "pte_of sd fr = read_only e" by (rule fl(2))
  moreover have "pte_of sd va = pte_of s va" if "vpath va \<noteq> vpath to" "vpath va \<noteq> vpath fr"
    using fl(3) [OF that(2)] am(3) [of va] that(1) by (simp add: pb)
  ultimately show "evolved s s'" "pte_of s' to = read_only e" "pte_of s' fr = read_only e"
    "vpath va \<noteq> vpath to \<Longrightarrow> vpath va \<noteq> vpath fr \<Longrightarrow> pte_of s' va = pte_of s va" by auto
qed

text \<open>What one step of \<open>copy_page_tables\<close> does to the entries: \<open>cow_entries\<close>.\<close>

definition cow_step :: "u64 \<Rightarrow> u64 \<Rightarrow> 'a mm_scheme \<Rightarrow> 'a mm_scheme \<Rightarrow> bool" where
  "cow_step fr to s s' \<longleftrightarrow> evolved s s' \<and>
     (\<forall>i<PAGING_PAGES. unat (mem_map s' ! i) \<le> Suc (unat (mem_map s ! i))) \<and>
     (\<forall>va. pte_of s' va =
        (if \<not> has_bits (pte_of s fr) PAGE_PRESENT then pte_of s va
         else if vpath va = vpath to then read_only (pte_of s fr)
         else if vpath va = vpath fr \<and> LOW_MEM \<le> PTE_ADDR (pte_of s fr) then read_only (pte_of s fr)
         else pte_of s va))"

lemma grown_pte: "grown s s' \<Longrightarrow> pte_of s' va = pte_of s va"
  by (simp add: grown_def pte_of_def vpath_tpath)

lemma grown_count:
  assumes "grown s s'" "i < PAGING_PAGES"
  shows "unat (mem_map s' ! i) \<le> Suc (unat (mem_map s ! i))"
    and "mem_map s ! i \<noteq> 0 \<Longrightarrow> mem_map s' ! i = mem_map s ! i"
  using assms by (cases "mem_map s ! i = 0"; auto simp: grown_def)+

lemma copy_one_shape:
  assumes g1: "get_pte fr False s = (from_pte, s)" and g2: "get_pte to True s = (to_pte, s1)"
    and pr: "from_pte \<noteq> 0" "has_bits (qmem s from_pte) PAGE_PRESENT" "to_pte \<noteq> 0"
    and e: "qmem s1 from_pte = e" and f: "f = PTE_ADDR e"
  shows "copy_one fr to s =
     (if LOW_MEM \<le> f
      then bindE (aget (mem_map s1) (MAP_NR f)) (\<lambda>c. Inr (True,
        write_q from_pte (read_only e) (write_q to_pte (read_only e) s1)
          \<lparr>mem_map := (mem_map s1)[MAP_NR f := c + 1]\<rparr>))
      else Inr (True, write_q to_pte (read_only e) s1))"
  using pr unfolding copy_one_def g1 read_only_def [symmetric]
  by (simp add: g2 e f Let_def)

text \<open>Without \<open>create\<close>, \<open>get_pte\<close> is the hardware's walk and changes nothing.\<close>

lemma get_pte_lookup:
  assumes wf: "mm_wf s"
  shows "get_pte va False s =
     (case tab (qmem s) (tl (vpath va)) of None \<Rightarrow> (0, s) | Some t \<Rightarrow> (elem t (PT_INDEX va), s))"
proof -
  obtain r s' where r: "get_pt va False s = (r, s')" by fastforce
  from walked_get_pt [OF wf r] show ?thesis by (cases "r = 0") (auto simp: get_pte_def r walked_def)
qed

lemma present_tab:
  assumes wf: "mm_wf s" and pr: "has_bits (pte_of s va) PAGE_PRESENT"
  obtains t where "tab (qmem s) (tl (vpath va)) = Some t" "elem t (PT_INDEX va) \<noteq> 0"
    "get_pte va False s = (elem t (PT_INDEX va), s)" "qmem s (elem t (PT_INDEX va)) = pte_of s va"
proof -
  from pr obtain t where t: "tab (qmem s) (tl (vpath va)) = Some t"
    by (auto simp: pte_of_def ent_vpath split: option.splits)
  moreover have "t \<noteq> 0" using mm_wf_table [OF wf vpath_tpath(1) t] by simp
  then have "elem t (PT_INDEX va) \<noteq> 0" using elem_neq_0 [OF tab_aligned [OF t]] by simp
  ultimately show thesis using that [of t] get_pte_lookup [OF wf, of va] by (simp add: pte_of_def ent_vpath)
qed

lemma absent_entry:
  assumes wf: "mm_wf s" and pr: "\<not> has_bits (pte_of s va) PAGE_PRESENT"
    and g: "get_pte va False s = (pte, s')"
  shows "s' = s" "pte = 0 \<or> \<not> has_bits (qmem s pte) PAGE_PRESENT"
  using g pr by (auto simp: get_pte_lookup [OF wf] pte_of_def ent_vpath split: option.splits)

text \<open>The two ways a present page is shared: counted above \<open>LOW_MEM\<close>, uncounted below.\<close>

lemma cow_step_high:
  assumes wf: "mm_wf s" and uf: "user_va fr" and ne: "vpath to \<noteq> vpath fr"
    and c: "\<forall>i<PAGING_PAGES. unat (mem_map s ! i) < 65535"
    and pr: "has_bits (pte_of s fr) PAGE_PRESENT" and G: "grown s s1" and high: "LOW_MEM \<le> PTE_ADDR (pte_of s fr)"
    and tf: "tab (qmem s1) (tl (vpath fr)) = Some tf" and tt: "tab (qmem s1) (tl (vpath to)) = Some tt"
  defines "k \<equiv> MAP_NR (PTE_ADDR (pte_of s fr))"
  shows "k < PAGING_PAGES" and "cow_step fr to s
     (write_q (elem tf (PT_INDEX fr)) (read_only (pte_of s fr)) (write_q (elem tt (PT_INDEX to)) (read_only (pte_of s fr)) s1)
       \<lparr>mem_map := (mem_map s1)[k := mem_map s1 ! k + 1]\<rparr>)" (is "cow_step fr to s ?s'")
proof -
  have wf1: "mm_wf s1" using G by (simp add: grown_def)
  note ep = grown_pte [OF G] and fr1 = user_frame [OF wf uf pr refl high]
  show k: "k < PAGING_PAGES" using fr1(4) by (simp add: k_def)
  have c1: "mem_map s1 ! k = mem_map s ! k" using grown_count(2) [OF G fr1(4,6)] by (simp add: k_def)
  have c2: "unat (mem_map s1 ! k) < 65535" using c k c1 by simp
  note sh = share_high [OF wf1 uf ne tf tt ep [symmetric] pr refl high c2 [unfolded k_def] refl, folded k_def]
  have "unat (mem_map ?s' ! i) \<le> Suc (unat (mem_map s ! i))" if "i < PAGING_PAGES" for i
    using grown_count(1) [OF G that] c1 c2 that mm_wf_length [OF wf1] by (cases "i = k") (auto simp: unat_word_ariths)
  moreover have "evolved s ?s'" using evolved_trans [OF grown_evolved [OF G] sh(1)] .
  moreover have "pte_of ?s' va = (if vpath va = vpath to then read_only (pte_of s fr)
      else if vpath va = vpath fr then read_only (pte_of s fr) else pte_of s va)" for va
    using sh(2,3) sh(4) [of va] ep [of va] pte_of_same_page [of va to ?s'] pte_of_same_page [of va fr ?s'] by simp
  ultimately show "cow_step fr to s ?s'" using pr high by (simp add: cow_step_def)
qed

lemma cow_step_low:
  assumes u: "user_va to" and pr: "has_bits (pte_of s fr) PAGE_PRESENT" and G: "grown s s1"
    and low: "\<not> LOW_MEM \<le> PTE_ADDR (pte_of s fr)" and tt: "tab (qmem s1) (tl (vpath to)) = Some tt"
  shows "cow_step fr to s (write_q (elem tt (PT_INDEX to)) (read_only (pte_of s fr)) s1)" (is "cow_step fr to s ?s'")
proof -
  have wf1: "mm_wf s1" using G by (simp add: grown_def)
  have np: "PTE_ADDR (read_only (pte_of s fr)) \<noteq> page_of k" if "k < PAGING_PAGES" for k
    using low page_of_range [OF that] by auto
  have am: "evolved s1 ?s'" "pte_of ?s' to = read_only (pte_of s fr)"
      "vpath va \<noteq> vpath to \<Longrightarrow> pte_of ?s' va = pte_of s1 va" for va
    by (rule add_mapping [OF wf1 tt refl]; use low np in simp)+
  have "evolved s ?s'" using evolved_trans [OF grown_evolved [OF G] am(1)] .
  moreover have "pte_of ?s' va = (if vpath va = vpath to then read_only (pte_of s fr) else pte_of s va)" for va
    using am(2) am(3) [of va] grown_pte [OF G, of va] pte_of_same_page [of va to ?s'] by simp
  moreover have "unat (mem_map ?s' ! i) \<le> Suc (unat (mem_map s ! i))" if "i < PAGING_PAGES" for i
    using grown_count(1) [OF G that] by simp
  ultimately show ?thesis using pr low by (simp add: cow_step_def)
qed

lemma copy_one_spec:
  assumes wf: "mm_wf s" and u: "user_va to" "user_va fr \<or> \<not> LOW_MEM \<le> PTE_ADDR (pte_of s fr)"
    and ne: "vpath to \<noteq> vpath fr" and c: "\<forall>i<PAGING_PAGES. unat (mem_map s ! i) < 65535"
  shows "(\<exists>s'. copy_one fr to s = Inr (True, s') \<and> cow_step fr to s s') \<or>
     (\<exists>s'. copy_one fr to s = Inr (False, s') \<and> grown s s' \<and> free_pages s \<le> 3)"
proof -
  obtain fp s0 where g1: "get_pte fr False s = (fp, s0)" by fastforce
  obtain tp s1 where g2: "get_pte to True s = (tp, s1)" by fastforce
  show ?thesis
  proof (cases "has_bits (pte_of s fr) PAGE_PRESENT")
    case False
    then have "copy_one fr to s = Inr (True, s)"
      using absent_entry [OF wf _ g1] by (auto simp: copy_one_def g1)
    moreover have "cow_step fr to s s" using False wf by (simp add: cow_step_def)
    ultimately show ?thesis by blast
  next
    case pr: True
    obtain tf where fp: "fp = elem tf (PT_INDEX fr)" "fp \<noteq> 0" "s0 = s"
      and tf: "tab (qmem s) (tl (vpath fr)) = Some tf" and ef: "qmem s fp = pte_of s fr"
      by (rule present_tab [OF wf pr]) (use g1 in simp)
    show ?thesis using wf g2
    proof (cases rule: get_pte_cases)
      case (entry tt)
      have len: "length (mem_map s1) = PAGING_PAGES" using entry(4) by (simp add: grown_def mm_wf_length)
      have tf1: "tab (qmem s1) (tl (vpath fr)) = Some tf" using entry(4) tf vpath_tpath by (simp add: grown_def)
      have e1: "qmem s1 fp = pte_of s fr" using grown_pte [OF entry(4), of fr] tf1 by (simp add: fp pte_of_def ent_vpath)
      note shape = copy_one_shape [OF g1 [unfolded fp(3)] g2 fp(2) pr [folded ef] entry(2) e1 refl]
      show ?thesis
      proof (cases "LOW_MEM \<le> PTE_ADDR (pte_of s fr)")
        case True
        then have "user_va fr" using u by blast
        note st = cow_step_high [OF wf this ne c pr entry(4) True tf1 entry(3), folded fp(1) entry(1)]
        then show ?thesis using shape True len by auto
      next
        case False
        then show ?thesis using cow_step_low [OF u(1) pr entry(4) False entry(3), folded entry(1)] shape by auto
      qed
    next
      case none
      then have "copy_one fr to s = Inr (False, s1)" using pr fp ef by (simp add: copy_one_def g1 g2)
      then show ?thesis using none by blast
    qed
  qed
qed

definition cow_range :: "u64 \<Rightarrow> u64 \<Rightarrow> u64 list \<Rightarrow> 'a mm_scheme \<Rightarrow> 'a mm_scheme \<Rightarrow> bool" where
  "cow_range fr to as s s' \<longleftrightarrow> evolved s s' \<and>
     (\<forall>a\<in>set as. has_bits (pte_of s (fr + a)) PAGE_PRESENT \<longrightarrow>
        pte_of s' (to + a) = read_only (pte_of s (fr + a)) \<and>
        pte_of s' (fr + a) = (if LOW_MEM \<le> PTE_ADDR (pte_of s (fr + a)) then read_only (pte_of s (fr + a)) else pte_of s (fr + a))) \<and>
     (\<forall>va. (\<forall>a\<in>set as. has_bits (pte_of s (fr + a)) PAGE_PRESENT \<longrightarrow>
              vpath va \<noteq> vpath (to + a) \<and> vpath va \<noteq> vpath (fr + a)) \<longrightarrow> pte_of s' va = pte_of s va)"

definition ranges_ok :: "u64 \<Rightarrow> u64 \<Rightarrow> u64 list \<Rightarrow> bool" where
  "ranges_ok fr to as \<longleftrightarrow> distinct (map (\<lambda>a. vpath (fr + a)) as) \<and> distinct (map (\<lambda>a. vpath (to + a)) as) \<and>
     (\<forall>a\<in>set as. \<forall>b\<in>set as. vpath (to + a) \<noteq> vpath (fr + b)) \<and> (\<forall>a\<in>set as. user_va (to + a))"

lemma cow_range_Cons:
  assumes st: "cow_step (fr + a) (to + a) s s1" and rg: "cow_range fr to as s1 s'" and ok: "ranges_ok fr to (a # as)"
  shows "cow_range fr to (a # as) s s'"
proof -
  have s1: "pte_of s1 va = pte_of s va" if "vpath va \<noteq> vpath (to + a)" "vpath va \<noteq> vpath (fr + a)" for va
    using st that by (simp add: cow_step_def)
  have fb: "vpath (fr + b) \<noteq> vpath (fr + a)" "vpath (fr + b) \<noteq> vpath (to + a)" "vpath (to + b) \<noteq> vpath (to + a)"
      "vpath (to + b) \<noteq> vpath (fr + a)" "vpath (to + a) \<noteq> vpath (fr + b)" if "b \<in> set as" for b
    using ok that by (auto simp: ranges_ok_def image_iff)
  have pb: "pte_of s1 (fr + b) = pte_of s (fr + b)" if "b \<in> set as" for b by (rule s1) (use fb [OF that] in auto)
  have out: "pte_of s' va = pte_of s1 va" if "\<forall>b\<in>set as. vpath va \<noteq> vpath (to + b) \<and> vpath va \<noteq> vpath (fr + b)" for va
    using rg that by (simp add: cow_range_def)
  have ends: "pte_of s' (to + a) = pte_of s1 (to + a)" "pte_of s' (fr + a) = pte_of s1 (fr + a)"
    using fb not_sym by (metis out)+
  have tf: "vpath (to + a) \<noteq> vpath (fr + a)" using ok by (simp add: ranges_ok_def)
  have "evolved s s'" using st rg evolved_trans by (auto simp: cow_step_def cow_range_def)
  moreover have "pte_of s' (to + b) = read_only (pte_of s (fr + b)) \<and>
        pte_of s' (fr + b) = (if LOW_MEM \<le> PTE_ADDR (pte_of s (fr + b)) then read_only (pte_of s (fr + b)) else pte_of s (fr + b))"
    if b: "b \<in> set (a # as)" "has_bits (pte_of s (fr + b)) PAGE_PRESENT" for b
  proof (cases "b = a")
    case True
    then show ?thesis using st ends b(2) tf by (simp add: cow_step_def)
  next
    case False
    then show ?thesis using rg b pb by (simp add: cow_range_def)
  qed
  moreover have "pte_of s' va = pte_of s va"
    if va: "\<forall>b\<in>set (a # as). has_bits (pte_of s (fr + b)) PAGE_PRESENT \<longrightarrow> vpath va \<noteq> vpath (to + b) \<and> vpath va \<noteq> vpath (fr + b)" for va
  proof -
    have "pte_of s1 va = pte_of s va" using st va by (auto simp: cow_step_def)
    moreover have "pte_of s' va = pte_of s1 va" using rg va pb by (simp add: cow_range_def)
    ultimately show ?thesis by simp
  qed
  ultimately show ?thesis unfolding cow_range_def by blast
qed

lemma copy_loop_spec:
  assumes "mm_wf s" "ranges_ok fr to as"
    "\<forall>a\<in>set as. user_va (fr + a) \<or> \<not> LOW_MEM \<le> PTE_ADDR (pte_of s (fr + a))"
    "\<forall>i<PAGING_PAGES. unat (mem_map s ! i) + length as < 65536"
  shows "(\<exists>s'. copy_loop fr to as s = Inr (True, s') \<and> cow_range fr to as s s') \<or>
     (\<exists>s'. copy_loop fr to as s = Inr (False, s') \<and> evolved s s')"
  using assms
proof (induction as arbitrary: s)
  case Nil
  then show ?case by (simp add: cow_range_def)
next
  case (Cons a as)
  have ok: "ranges_ok fr to as" "vpath (to + a) \<noteq> vpath (fr + a)" "user_va (to + a)"
    using Cons.prems(2) by (auto simp: ranges_ok_def image_iff)
  have c: "\<forall>i<PAGING_PAGES. unat (mem_map s ! i) < 65535" using Cons.prems(4) by fastforce
  have lo: "user_va (fr + a) \<or> \<not> LOW_MEM \<le> PTE_ADDR (pte_of s (fr + a))" using Cons.prems(3) by simp
  from copy_one_spec [OF Cons.prems(1) ok(3) lo ok(2) c] show ?case
  proof (elim disjE exE conjE)
    fix s1 assume one: "copy_one (fr + a) (to + a) s = Inr (True, s1)" and st: "cow_step (fr + a) (to + a) s s1"
    have "\<forall>b\<in>set as. user_va (fr + b) \<or> \<not> LOW_MEM \<le> PTE_ADDR (pte_of s1 (fr + b))"
    proof
      fix b assume b: "b \<in> set as"
      then have "vpath (fr + b) \<noteq> vpath (to + a)" "vpath (fr + b) \<noteq> vpath (fr + a)"
        using Cons.prems(2) by (auto simp: ranges_ok_def image_iff)
      then show "user_va (fr + b) \<or> \<not> LOW_MEM \<le> PTE_ADDR (pte_of s1 (fr + b))"
        using Cons.prems(3) b st by (simp add: cow_step_def)
    qed
    moreover have "\<forall>i<PAGING_PAGES. unat (mem_map s1 ! i) + length as < 65536"
      using st Cons.prems(4) by (fastforce simp: cow_step_def)
    moreover have "mm_wf s1" using st by (simp add: cow_step_def evolved_def)
    ultimately show ?thesis
      using Cons.IH [of s1] ok(1) one cow_range_Cons [OF st _ Cons.prems(2)] st evolved_trans [of s s1]
      by (auto simp: cow_step_def)
  next
    fix s1 assume "copy_one (fr + a) (to + a) s = Inr (False, s1)" "grown s s1"
    then show ?thesis using grown_evolved by auto
  qed
qed

section \<open>Addresses and paths\<close>

lemma unat_mask9: "unat (x AND 0x1FF :: u64) = unat x mod 512"
proof -
  have "x AND 0x1FF = take_bit 9 x" by (simp add: take_bit_eq_mask mask_eq_exp_minus_1)
  then show ?thesis by (simp add: take_bit_eq_mod unat_mod)
qed

lemma unat_index:
  "unat (PT_INDEX va) = unat va div 2^12 mod 512" "unat (PD_INDEX va) = unat va div 2^21 mod 512"
  "unat (PDPT_INDEX va) = unat va div 2^30 mod 512" "unat (PML4_INDEX va) = unat va div 2^39 mod 512"
  by (simp_all add: PT_INDEX_def PD_INDEX_def PDPT_INDEX_def PML4_INDEX_def unat_mask9 drop_bit_eq_div unat_div)

lemma page_number_eq:
  assumes "unat va < 2^48"
  shows "unat va div 4096 = unat (PT_INDEX va) + 512 * unat (PD_INDEX va) + 512^2 * unat (PDPT_INDEX va) + 512^3 * unat (PML4_INDEX va)"
proof -
  let ?n = "unat va div 4096"
  have a: "unat va div 2^21 = ?n div 512" "unat va div 2^30 = ?n div 512^2" "unat va div 2^39 = ?n div 512^3"
    by (simp_all flip: div_mult2_eq)
  have b: "?n div 512^3 mod 512 = ?n div 512^3" using assms by simp
  have "?n = ?n mod 512 + 512 * (?n div 512 mod 512 + 512 * (?n div 512 div 512 mod 512 + 512 * (?n div 512 div 512 div 512)))"
    by (metis add.commute mult_div_mod_eq)
  then show ?thesis unfolding unat_index a b by (simp add: div_mult2_eq [symmetric] power2_eq_square power3_eq_cube algebra_simps)
qed

lemma vpath_eq_iff:
  assumes "unat va < 2^48" "unat va' < 2^48"
  shows "vpath va = vpath va' \<longleftrightarrow> unat va div 4096 = unat va' div 4096"
proof
  assume "vpath va = vpath va'"
  then show "unat va div 4096 = unat va' div 4096"
    unfolding page_number_eq [OF assms(1)] page_number_eq [OF assms(2)] by (simp add: vpath_def)
next
  assume eq: "unat va div 4096 = unat va' div 4096"
  have "unat va div 2^21 = unat va div 4096 div 512" "unat va' div 2^21 = unat va' div 4096 div 512"
    "unat va div 2^30 = unat va div 4096 div 512^2" "unat va' div 2^30 = unat va' div 4096 div 512^2"
    "unat va div 2^39 = unat va div 4096 div 512^3" "unat va' div 2^39 = unat va' div 4096 div 512^3"
    by (simp_all flip: div_mult2_eq)
  with eq show "vpath va = vpath va'" unfolding vpath_def by (simp add: word_unat_eq_iff unat_index)
qed

lemma user_vaI:
  assumes "0x1000000 \<le> va" "unat va < 2^48"
  shows "user_va va"
proof -
  have "\<not> (PD_INDEX va < 8 \<and> PDPT_INDEX va = 0 \<and> PML4_INDEX va = 0)"
  proof
    assume "PD_INDEX va < 8 \<and> PDPT_INDEX va = 0 \<and> PML4_INDEX va = 0"
    then have "unat (PD_INDEX va) < 8" "unat (PDPT_INDEX va) = 0" "unat (PML4_INDEX va) = 0" "unat (PT_INDEX va) < 512"
      by (auto simp: word_less_nat_alt unat_index)
    then have "unat va div 4096 < 4096" unfolding page_number_eq [OF assms(2)] by simp
    then show False using assms(1) by (simp add: word_le_nat_alt)
  qed
  then show ?thesis by (auto simp: user_va_def upath_def vpath_def idx_ok_def)
qed

lemma unat_plus_pages:
  assumes "unat a + 4096 * k < 2^64"
  shows "unat (a + 0x1000 * of_nat k :: u64) = unat a + 4096 * k"
proof -
  have "unat (0x1000 * of_nat k :: u64) = 4096 * k" using assms by (simp add: unat_word_ariths unat_of_nat)
  then show ?thesis using assms by (simp add: unat_word_ariths)
qed

lemma page_steps_0: "page_steps 0 sz = map (\<lambda>k. 0x1000 * of_nat k) [0..<unat sz div 4096]"
  by (cases "sz = 0") (simp_all add: page_steps_def word_gt_0)

lemma page_steps_from:
  assumes "unat from + unat sz < 2^64"
  shows "page_steps from (from + sz) = map (\<lambda>k. from + 0x1000 * of_nat k) [0..<unat sz div 4096]"
proof (cases "sz = 0")
  case False
  have "unat (from + sz) = unat from + unat sz" using assms by (simp add: unat_word_ariths)
  moreover have "unat sz \<noteq> 0" using False by (simp add: unat_eq_0)
  ultimately have "from < from + sz" by (simp add: word_less_nat_alt)
  then show ?thesis by (simp add: page_steps_def)
qed (simp add: page_steps_def)

text \<open>Two disjoint page ranges below \<open>2^48\<close>.\<close>

lemma ranges_okI:
  assumes n: "unat fr + 4096 * n \<le> 2^48" "unat to + 4096 * n \<le> 2^48" and al: "page_aligned fr" "page_aligned to"
    and dj: "unat fr + 4096 * n \<le> unat to \<or> unat to + 4096 * n \<le> unat fr" and hi: "0x1000000 \<le> to"
  shows "ranges_ok fr to (map (\<lambda>k. 0x1000 * of_nat k) [0..<n])"
proof -
  have uf: "unat (fr + 0x1000 * of_nat k) = unat fr + 4096 * k" and ut: "unat (to + 0x1000 * of_nat k) = unat to + 4096 * k"
    if "k < n" for k using n that by (simp_all add: unat_plus_pages)
  obtain x y where xy: "unat fr = 4096 * x" "unat to = 4096 * y"
    using al by (auto simp: page_aligned_dvd elim!: dvdE)
  have pf: "vpath (fr + 0x1000 * of_nat k) = vpath (fr + 0x1000 * of_nat l) \<longleftrightarrow> k = l" if "k < n" "l < n" for k l
    using that n by (subst vpath_eq_iff) (simp_all add: uf xy)
  have pt: "vpath (to + 0x1000 * of_nat k) = vpath (to + 0x1000 * of_nat l) \<longleftrightarrow> k = l" if "k < n" "l < n" for k l
    using that n by (subst vpath_eq_iff) (simp_all add: ut xy)
  have ft: "vpath (to + 0x1000 * of_nat k) \<noteq> vpath (fr + 0x1000 * of_nat l)" if "k < n" "l < n" for k l
    using that n dj by (subst vpath_eq_iff) (auto simp: uf ut xy)
  have us: "user_va (to + 0x1000 * of_nat k)" if "k < n" for k
    by (rule user_vaI) (use that n hi in \<open>simp_all add: ut word_le_nat_alt\<close>)
  show ?thesis
    by (auto simp: ranges_ok_def distinct_map inj_on_def pf pt ft us)
qed

section \<open>Removing mappings\<close>

definition unmapped :: "u64 set \<Rightarrow> 'a mm_scheme \<Rightarrow> 'a mm_scheme \<Rightarrow> bool" where
  "unmapped A s s' \<longleftrightarrow> mm_wf s' \<and>
     (\<forall>r. tpath r \<longrightarrow> tab (qmem s') r = tab (qmem s) r) \<and>
     (\<forall>f i. page_aligned f \<longrightarrow> \<not> table_page (qmem s) f \<longrightarrow> i < 512 \<longrightarrow> qmem s' (elem f i) = qmem s (elem f i)) \<and>
     (\<forall>va. pte_of s' va =
        (if has_bits (pte_of s va) PAGE_PRESENT \<and> (\<exists>a\<in>A. vpath a = vpath va) then 0 else pte_of s va))"

lemma clear_entry:
  assumes wf: "mm_wf s" and u: "user_va va" and pr: "has_bits (pte_of s va) PAGE_PRESENT"
    and t: "tab (qmem s) (tl (vpath va)) = Some t" and f: "f = PTE_ADDR (pte_of s va)"
    and s': "s' = write_q (elem t (PT_INDEX va)) 0
       (if LOW_MEM \<le> f then s\<lparr>mem_map := (mem_map s)[MAP_NR f := mem_map s ! MAP_NR f - 1]\<rparr> else s)"
  shows "unmapped {va} s s'"
proof -
  note len = mm_wf_length [OF wf] and uf = user_frame [OF wf u pr f]
  have q: "qmem s' = (qmem s)(elem t (PT_INDEX va) := 0)" by (simp add: s')
  have mm: "mem_map s' ! k = (if LOW_MEM \<le> f \<and> k = MAP_NR f then mem_map s ! k - 1 else mem_map s ! k)"
    if "k < PAGING_PAGES" for k using that len by (simp add: s')
  have len': "length (mem_map s') = PAGING_PAGES" by (simp add: s' len)
  have T: "\<forall>k < PAGING_PAGES. mem_map s ! k \<noteq> 0 \<longrightarrow> table_page (qmem s) (page_of k) \<longrightarrow> mem_map s' ! k \<noteq> 0"
    using uf(2,5) by (auto simp: mm)
  have C: "\<forall>k < PAGING_PAGES. card (mappers (qmem s) (page_of k) - {vpath va}) +
       (if upath (vpath va) \<and> has_bits (0 :: u64) PAGE_PRESENT \<and> PTE_ADDR 0 = page_of k then 1 else 0) \<le> unat (mem_map s' ! k)"
  proof (intro allI impI)
    fix k assume k: "k < PAGING_PAGES"
    have "card (mappers (qmem s) (page_of k) - {vpath va}) \<le> card (mappers (qmem s) (page_of k))"
      by (rule card_mono) auto
    then show "card (mappers (qmem s) (page_of k) - {vpath va}) +
       (if upath (vpath va) \<and> has_bits (0 :: u64) PAGE_PRESENT \<and> PTE_ADDR 0 = page_of k then 1 else 0) \<le> unat (mem_map s' ! k)"
      using mm_wf_count [OF wf k] uf by (auto simp: mm [OF k] unat_word_dec card_Diff_singleton)
  qed
  note sp = set_pte [OF wf t q len' T _ C]
  have 1: "mm_wf s'" by (rule sp(1)) simp
  have 2: "pte_of s' va = 0" by (rule sp(2)) simp
  have 3: "pte_of s' va' = (if vpath va = vpath va' then 0 else pte_of s va')" for va'
    using sp(3) [of va'] 2 pte_of_same_page [of va va' s'] by auto
  have 4: "tpath r \<Longrightarrow> tab (qmem s') r = tab (qmem s) r" for r by (rule sp(4)) simp_all
  have 5: "qmem s' (elem h i) = qmem s (elem h i)" if "page_aligned h" "\<not> table_page (qmem s) h" "i < 512" for h i
    using leaf_contents [OF tab_table_page [OF t] that(1,2) _ that(3), of "PT_INDEX va" 0] by (simp add: q)
  have 6: "has_bits (pte_of s va') PAGE_PRESENT" if "vpath va = vpath va'" for va'
    using pr pte_of_same_page [OF that, of s] by simp
  show ?thesis using 1 3 4 5 6 unfolding unmapped_def by auto
qed

lemma free_one_spec:
  assumes wf: "mm_wf s" and u: "user_va va"
  shows "\<exists>s'. free_one va s = Inr ((), s') \<and> unmapped {va} s s'"
proof (cases "has_bits (pte_of s va) PAGE_PRESENT")
  case True
  obtain t where t: "tab (qmem s) (tl (vpath va)) = Some t" and g: "elem t (PT_INDEX va) \<noteq> 0"
    "get_pte va False s = (elem t (PT_INDEX va), s)" "qmem s (elem t (PT_INDEX va)) = pte_of s va"
    by (rule present_tab [OF wf True])
  let ?f = "PTE_ADDR (pte_of s va)"
  let ?s' = "write_q (elem t (PT_INDEX va)) 0
     (if LOW_MEM \<le> ?f then s\<lparr>mem_map := (mem_map s)[MAP_NR ?f := mem_map s ! MAP_NR ?f - 1]\<rparr> else s)"
  have "free_one va s = Inr ((), ?s')"
  proof (cases "LOW_MEM \<le> ?f")
    case lo: True
    note uf = user_frame [OF wf u True refl lo]
    then have "free_page ?f s = Inr ((), s\<lparr>mem_map := (mem_map s)[MAP_NR ?f := mem_map s ! MAP_NR ?f - 1]\<rparr>)"
      using lo mm_wf_length [OF wf] by (auto simp: free_page_def Let_def)
    then show ?thesis using lo g True by (simp add: free_one_def Let_def)
  next
    case False
    then show ?thesis using g True by (simp add: free_one_def Let_def)
  qed
  with clear_entry [OF wf u True t refl refl] show ?thesis by blast
next
  case False
  obtain pte s' where g: "get_pte va False s = (pte, s')" by fastforce
  have "free_one va s = Inr ((), s)" using absent_entry [OF wf False g] by (auto simp: free_one_def g)
  moreover have "\<not> has_bits (pte_of s va') PAGE_PRESENT" if "vpath va = vpath va'" for va'
    using False pte_of_same_page [OF that, of s] by simp
  then have "unmapped {va} s s" using wf by (auto simp: unmapped_def)
  ultimately show ?thesis by blast
qed

lemma unmapped_trans:
  assumes "unmapped A s s1" "unmapped B s1 s'"
  shows "unmapped (A \<union> B) s s'"
proof -
  have "table_page (qmem s1) f = table_page (qmem s) f" for f
    using assms(1) by (auto simp: unmapped_def table_page_def)
  then show ?thesis using assms unfolding unmapped_def by auto
qed

lemma free_loop_spec:
  "mm_wf s \<Longrightarrow> \<forall>a\<in>set as. user_va a \<Longrightarrow> \<exists>s'. free_loop as s = Inr ((), s') \<and> unmapped (set as) s s'"
proof (induction as arbitrary: s)
  case (Cons a as)
  obtain s1 where s1: "free_one a s = Inr ((), s1)" "unmapped {a} s s1"
    using free_one_spec [of s a] Cons.prems by auto
  then have "mm_wf s1" by (simp add: unmapped_def)
  then obtain s' where s': "free_loop as s1 = Inr ((), s')" "unmapped (set as) s1 s'"
    using Cons by auto
  show ?case using s1 s' unmapped_trans [OF s1(2) s'(2)] by auto
qed (simp add: unmapped_def)

end
