(* ===== verification/Boot_Map.thy ===== *)
theory Boot_Map
  imports Page_Ranges
begin

text \<open>
  The page tables that \<open>src/boot/head.nasm\<close> builds before it enters C code: the identity map of
  the first 16 MB. They satisfy the invariant \<open>mm_wf\<close>, whatever memory held before.
\<close>

text \<open>\<open>n\<close> quadwords from quadword \<open>w\<close> on: one \<open>mov [edi], eax / mov dword [edi + 4], ... / add edi, 8\<close> loop.\<close>

definition quad :: "nat \<Rightarrow> u64" where "quad x = of_nat (8 * x)"

definition fill :: "nat \<Rightarrow> nat \<Rightarrow> (nat \<Rightarrow> u64) \<Rightarrow> (u64 \<Rightarrow> u64) \<Rightarrow> u64 \<Rightarrow> u64" where
  "fill w n v m = fold (\<lambda>i m. m(quad (w + i) := v i)) [0..<n] m"

definition gdt_entry :: "nat \<Rightarrow> u64" where
  "gdt_entry i = [0, 0x00AF9A000000FFFF, 0x00CF92000000FFFF, 0x00AFFA000000FFFF, 0x00CFF2000000FFFF] ! i"

definition boot_tables :: "(u64 \<Rightarrow> u64) \<Rightarrow> u64 \<Rightarrow> u64" where
  "boot_tables m =
     (let m = fill 0x200 0x1800 (\<lambda>_. 0) m; \<comment> \<open>clear 0x1000 - 0xD000\<close>
          m = fill 0x1800 5 gdt_entry m; \<comment> \<open>the GDT at 0xC000\<close>
          m = fill 0x200 1 (\<lambda>_. 0x2007) m; \<comment> \<open>PML4[0] -> PDPT\<close>
          m = fill 0x400 1 (\<lambda>_. 0x3007) m; \<comment> \<open>PDPT[0] -> PD\<close>
          m = fill 0x600 8 (\<lambda>i. 0x4007 + 0x1000 * of_nat i) m \<comment> \<open>PD[0-7] -> PT0-PT7\<close>
      in fill 0x800 (8 * 512) (\<lambda>i. 7 + 0x1000 * of_nat i) m)"

definition boot_mm :: "(u64 \<Rightarrow> u64) \<Rightarrow> mm" where
  "boot_mm m = \<lparr>qmem = boot_tables m, mem_map = replicate PAGING_PAGES 0, tlb_loads = 0, klog = []\<rparr>"

lemma quad_inj: "x < 2^60 \<Longrightarrow> y < 2^60 \<Longrightarrow> quad x = quad y \<longleftrightarrow> x = y"
  by (simp only: quad_def word_unat_eq_iff unat_of_nat) simp

lemma fill_at:
  "w + n < 2^60 \<Longrightarrow> x < 2^60 \<Longrightarrow> fill w n v m (quad x) = (if w \<le> x \<and> x < w + n then v (x - w) else m (quad x))"
proof (induction n)
  case (Suc n)
  have "fill w (Suc n) v m = (fill w n v m)(quad (w + n) := v n)" by (simp add: fill_def)
  with Suc show ?case by (auto simp: quad_inj)
qed (auto simp: fill_def)

lemma boot_word:
  assumes "0x200 \<le> x" "x < 0x1800"
  shows "boot_tables m (quad x) =
     (if x = 0x200 then 0x2007 else if x = 0x400 then 0x3007
      else if 0x600 \<le> x \<and> x < 0x608 then 0x4007 + 0x1000 * of_nat (x - 0x600)
      else if 0x800 \<le> x \<and> x < 0x1800 then 7 + 0x1000 * of_nat (x - 0x800) else 0)"
  using assms unfolding boot_tables_def Let_def by (simp add: fill_at)

lemma elem_word:
  "k < 0x100 \<Longrightarrow> i < 512 \<Longrightarrow> elem (0x1000 * of_nat k) (of_nat i) = quad (0x200 * k + i)"
  by (simp add: quad_def elem_def word_unat_eq_iff unat_word_ariths unat_of_nat)

lemma boot_elem:
  assumes "1 \<le> k" "k < 12" "i < 512"
  shows "boot_tables m (elem (0x1000 * of_nat k) (of_nat i)) =
     (if k = 1 then (if i = 0 then 0x2007 else 0)
      else if k = 2 then (if i = 0 then 0x3007 else 0)
      else if k = 3 then (if i < 8 then 0x4007 + 0x1000 * of_nat i else 0)
      else 7 + 0x1000 * of_nat (0x200 * (k - 4) + i))"
proof -
  have "boot_tables m (elem (0x1000 * of_nat k) (of_nat i)) = boot_tables m (quad (0x200 * k + i))"
    using assms elem_word [of k i] by simp
  also have "\<dots> = (if 0x200 * k + i = 0x200 then 0x2007 else if 0x200 * k + i = 0x400 then 0x3007
      else if 0x600 \<le> 0x200 * k + i \<and> 0x200 * k + i < 0x608 then 0x4007 + 0x1000 * of_nat (0x200 * k + i - 0x600)
      else if 0x800 \<le> 0x200 * k + i \<and> 0x200 * k + i < 0x1800 then 7 + 0x1000 * of_nat (0x200 * k + i - 0x800) else 0)"
    by (rule boot_word) (use assms in auto)
  finally show ?thesis using assms by (auto simp: diff_mult_distrib2 split: if_splits)
qed

lemma boot_tab1:
  assumes "i < 512"
  shows "tab (boot_tables m) [i] = (if i = 0 then Some 0x2000 else None)"
proof -
  obtain n where n: "n < 512" "i = of_nat n" using idx_of_nat [OF assms] by blast
  then have z: "i = 0 \<longleftrightarrow> n = 0" by (simp only: word_unat_eq_iff unat_of_nat) simp
  with n have "boot_tables m (elem PML4_ADDR i) = (if i = 0 then 0x2007 else 0)"
    using boot_elem [of 1 n m] z by simp
  then show ?thesis by (cases "i = 0") (simp_all add: tab.simps PTE_ADDR_def)
qed

lemma boot_tab2:
  assumes "i < 512"
  shows "tab (boot_tables m) [i, 0] = (if i = 0 then Some 0x3000 else None)"
proof -
  obtain n where n: "n < 512" "i = of_nat n" using idx_of_nat [OF assms] by blast
  then have z: "i = 0 \<longleftrightarrow> n = 0" by (simp only: word_unat_eq_iff unat_of_nat) simp
  with n have "boot_tables m (elem 0x2000 i) = (if i = 0 then 0x3007 else 0)"
    using boot_elem [of 2 n m] z by simp
  then show ?thesis by (cases "i = 0"; subst tab.simps) (simp_all add: boot_tab1 PTE_ADDR_def)
qed

lemma boot_entry_or:
  assumes "n < 2^24"
  shows "7 + 0x1000 * of_nat n = (0x1000 * of_nat n :: u64) OR 7" and "page_aligned (0x1000 * of_nat n)"
    and "unat (0x1000 * of_nat n :: u64) = 4096 * n"
proof -
  show u: "unat (0x1000 * of_nat n :: u64) = 4096 * n" using assms by (simp add: unat_word_ariths unat_of_nat)
  show al: "page_aligned (0x1000 * of_nat n)" by (simp add: page_aligned_dvd u)
  have "(0x1000 * of_nat n :: u64) AND 7 = ((0x1000 * of_nat n) AND 0xFFF) AND 7" by (simp add: and.assoc)
  then have "(0x1000 * of_nat n :: u64) AND 7 = 0" using al by (simp add: page_aligned_def)
  then show "7 + 0x1000 * of_nat n = (0x1000 * of_nat n :: u64) OR 7"
    using disjunctive_add_eq_or [of "0x1000 * of_nat n :: u64" 7] by (simp add: add.commute)
qed

lemma boot_entry:
  "n < 2^24 \<Longrightarrow> PTE_ADDR (7 + 0x1000 * of_nat n) = 0x1000 * of_nat n \<and> has_bits (7 + 0x1000 * of_nat n :: u64) PAGE_PRESENT"
  using PTE_ADDR_low_page [of "0x1000 * of_nat n" 7] by (simp add: boot_entry_or has_bits_or)

lemma boot_tab3:
  assumes "i < 512"
  shows "tab (boot_tables m) [i, 0, 0] = (if i < 8 then Some (0x4000 + 0x1000 * i) else None)"
proof -
  obtain n where n: "n < 512" "i = of_nat n" using idx_of_nat [OF assms] by blast
  then have l: "i < 8 \<longleftrightarrow> n < 8" by (simp add: word_less_nat_alt unat_of_nat)
  have "boot_tables m (elem 0x3000 i) = (if n < 8 then 7 + 0x1000 * of_nat (4 + n) else 0)"
    using boot_elem [of 3 n m] n by (simp add: algebra_simps)
  moreover have "PTE_ADDR (7 + 0x1000 * of_nat (4 + n)) = 0x4000 + 0x1000 * i \<and> has_bits (7 + 0x1000 * of_nat (4 + n) :: u64) PAGE_PRESENT"
    using boot_entry [of "4 + n"] n by (simp add: algebra_simps)
  ultimately show ?thesis by (cases "n < 8"; subst tab.simps) (simp_all add: boot_tab2 l)
qed

lemma boot_tpath:
  assumes "tpath p" "tab (boot_tables m) p = Some t"
  shows "p = [] \<and> t = PML4_ADDR \<or> p = [0] \<and> t = 0x2000 \<or> p = [0, 0] \<and> t = 0x3000 \<or>
     (\<exists>i<8. p = [i, 0, 0] \<and> t = 0x4000 + 0x1000 * i)"
proof -
  have none: "tab (boot_tables m) (q @ [i]) = None" if "i < 512" "i \<noteq> 0" for q i
    using tab_None_suffix [of "boot_tables m" "[i]" q] boot_tab1 [OF that(1)] that(2) by simp
  have none2: "tab (boot_tables m) (q @ [j, 0]) = None" if "j < 512" "j \<noteq> 0" for q j
    using tab_None_suffix [of "boot_tables m" "[j, 0]" q] boot_tab2 [OF that(1)] that(2) by simp
  consider "p = []" | i where "p = [i]" "i < 512" | i j where "p = [j, i]" "i < 512" "j < 512"
    | i j k where "p = [k, j, i]" "i < 512" "j < 512" "k < 512"
    using assms(1) by (cases p rule: rev_cases; force simp: tpath_def idx_ok_def length_Suc_conv numeral_3_eq_3 le_Suc_eq)
  then show ?thesis
  proof cases
    case 1
    then show ?thesis using assms(2) by simp
  next
    case (2 i)
    then show ?thesis using assms(2) boot_tab1 [of i m] by (auto split: if_splits)
  next
    case (3 i j)
    then show ?thesis using assms(2) none [of i "[j]"] boot_tab2 [of j m] by (cases "i = 0") (auto split: if_splits)
  next
    case (4 i j k)
    then show ?thesis using assms(2) none [of i "[k, j]"] none2 [of j "[k]"] boot_tab3 [of k m]
      by (cases "i = 0"; cases "j = 0") (auto split: if_splits)
  qed
qed

lemma boot_user_None:
  assumes "upath p"
  shows "tab (boot_tables m) p = None"
proof (rule ccontr)
  assume "tab (boot_tables m) p \<noteq> None"
  then obtain f where f: "tab (boot_tables m) p = Some f" by blast
  obtain i q where p: "p = i # q" "tpath q" "length q = 3"
    using assms upath_Cons_tpath by (cases p) (auto simp: upath_def)
  from f obtain t where "tab (boot_tables m) q = Some t" by (auto simp: p tab.simps split: option.splits)
  from boot_tpath [OF p(2) this] p(3) obtain j where "j < 8" "q = [j, 0, 0]" by auto
  then show False using assms by (simp add: p upath_def)
qed

lemma boot_mappers: "mappers (boot_tables m) f = {}"
  by (auto simp: mappers_def boot_user_None)

lemma boot_tpath_unat:
  assumes "tpath p" "tab (qmem (boot_mm m)) p = Some t"
  shows "p = [] \<and> unat t = 0x1000 \<or> p = [0] \<and> unat t = 0x2000 \<or> p = [0, 0] \<and> unat t = 0x3000 \<or>
     (\<exists>i. unat i < 8 \<and> p = [i, 0, 0] \<and> unat t = 0x4000 + 0x1000 * unat i)"
proof -
  have "unat (0x4000 + 0x1000 * i :: u64) = 0x4000 + 0x1000 * unat i" if "i < 8" for i :: u64
    using that by (simp add: unat_word_ariths word_less_nat_alt)
  then show ?thesis using boot_tpath [OF assms(1), of m t] assms(2)
    by (auto simp: boot_mm_def word_less_nat_alt)
qed

lemma boot_wf: "mm_wf (boot_mm m)"
proof (rule mm_wfI)
  fix p t assume "tpath p" "tab (qmem (boot_mm m)) p = Some t"
  from boot_tpath_unat [OF this]
  show "t \<noteq> 0 \<and> t < HIGH_MEMORY \<and> (LOW_MEM \<le> t \<longrightarrow> mem_map (boot_mm m) ! MAP_NR t \<noteq> 0)"
    by (auto simp: word_less_nat_alt word_le_nat_alt)
next
  fix p q t assume a: "tpath p" "tpath q" "tab (qmem (boot_mm m)) p = Some t" "tab (qmem (boot_mm m)) q = Some t"
  from boot_tpath_unat [OF a(1,3)] boot_tpath_unat [OF a(2,4)] show "p = q"
    by (auto simp: word_unat_eq_iff)
qed (auto simp: boot_mm_def boot_user_None boot_mappers)

lemma boot_pte_user: "user_va va \<Longrightarrow> \<not> has_bits (pte_of (boot_mm m) va) PAGE_PRESENT"
  using boot_user_None [of "vpath va" m] by (auto simp: user_va_def tab_vpath pte_of_def boot_mm_def split: if_splits)

lemma boot_free_pages: "free_pages (boot_mm m) = PAGING_PAGES"
  by (simp add: free_pages_def boot_mm_def)

lemma boot_identity:
  assumes va: "unat va < 2^24"
  shows "pte_of (boot_mm m) va = 0x1000 * of_nat (unat va div 4096) OR 7"
    and "PTE_ADDR (pte_of (boot_mm m) va) = 0x1000 * of_nat (unat va div 4096)"
proof -
  let ?n = "unat va div 4096"
  have z: "PML4_INDEX va = 0" "PDPT_INDEX va = 0"
    using va by (simp_all add: word_unat_eq_iff unat_index)
  have d: "unat (PD_INDEX va) = ?n div 512" "unat (PT_INDEX va) = ?n mod 512"
    using va by (simp_all add: unat_index flip: div_mult2_eq)
  have d8: "?n div 512 < 8" using va by simp
  then have pd: "PD_INDEX va < 8" using d(1) by (simp add: word_less_nat_alt)
  have t: "tab (boot_tables m) (tl (vpath va)) = Some (0x4000 + 0x1000 * PD_INDEX va)"
    using boot_tab3 [of "PD_INDEX va" m] pd by (simp add: vpath_def z)
  have pdi: "PD_INDEX va = of_nat (?n div 512)" and pti: "PT_INDEX va = of_nat (?n mod 512)"
    using d [symmetric] by simp_all
  have e: "0x4000 + 0x1000 * PD_INDEX va = 0x1000 * of_nat (4 + ?n div 512)" by (simp add: pdi algebra_simps)
  have "boot_tables m (elem (0x1000 * of_nat (4 + ?n div 512)) (of_nat (?n mod 512))) = 7 + 0x1000 * of_nat (0x200 * (?n div 512) + ?n mod 512)"
    using boot_elem [of "4 + ?n div 512" "?n mod 512" m] d8 by simp
  then have p: "pte_of (boot_mm m) va = 7 + 0x1000 * of_nat ?n"
    by (simp add: pte_of_def ent_vpath boot_mm_def t e pti)
  have b: "unat (0x1000 * of_nat ?n :: u64) = 4096 * ?n" using va by (simp add: unat_word_ariths unat_of_nat)
  show "PTE_ADDR (pte_of (boot_mm m) va) = 0x1000 * of_nat ?n" using boot_entry [of ?n] va p by simp
  show "pte_of (boot_mm m) va = 0x1000 * of_nat ?n OR 7" using boot_entry_or [of ?n] va p by simp
qed

end
