(* ===== verification/Memory_Correct.thy ===== *)
theory Memory_Correct
  imports Boot_Map
begin

text \<open>
  The properties of the memory manager, and the page-fault entry of \<open>src/mm/page.nasm\<close>.
\<close>

section \<open>The page-fault entry\<close>

text \<open>
  \<open>page_fault\<close> of \<open>src/mm/page.nasm\<close>: it puts CR2 in \<open>rdi\<close> (the first argument) and the error
  code in \<open>rsi\<close> (the second) and calls one of the handlers.
\<close>

definition page_fault :: "u64 \<Rightarrow> u64 \<Rightarrow> 'a mm_scheme \<Rightarrow> ('a mm_scheme, unit) res" where
  "page_fault cr2 error_code s =
     (let rdi = cr2; rsi = error_code in
      if has_bits rsi 1 then do_wp_page rdi rsi s else do_no_page rdi rsi s)"

text \<open>A state with one user page: the first page fault after boot, at 64 MB.\<close>

definition user_mm :: mm where
  "user_mm = (case do_no_page 0 0x4000000 (boot_mm (\<lambda>_. 0)) of Inr (_, s) \<Rightarrow> s | Inl _ \<Rightarrow> boot_mm (\<lambda>_. 0))"

lemma user_va_64MB [simp]: "user_va 0x4000000" "user_va 0x4000001"
  by (rule user_vaI; simp add: word_le_nat_alt)+

lemma user_mm_facts:
  "mm_wf user_mm" "has_bits (pte_of user_mm 0x4000000) PAGE_PRESENT"
proof -
  have "mm_wf user_mm \<and> has_bits (pte_of user_mm 0x4000000) PAGE_PRESENT"
    by (rule do_no_page_spec [OF boot_wf [of "\<lambda>_. 0"], where ec = 0 and va = "0x4000000"])
      (auto simp: user_mm_def boot_free_pages has_bits_or)
  then show "mm_wf user_mm" "has_bits (pte_of user_mm 0x4000000) PAGE_PRESENT" by auto
qed

section \<open>Properties\<close>

text \<open>C21: the tables the boot code builds satisfy the memory manager's invariant, whatever memory held
  before, and all \<open>PAGING_PAGES\<close> pages are free.\<close>

theorem boot_establishes_wf: "mm_wf (boot_mm m) \<and> free_pages (boot_mm m) = PAGING_PAGES"
  by (simp add: boot_wf boot_free_pages)

text \<open>C3: a page fault on a page that is not present, with five free pages, maps a page that was free,
  zeroed, writable and mapped nowhere else; every other mapping and every page in use that is no page
  table is unchanged, and the invariant is kept.\<close>

theorem do_no_page_demand_zero:
  assumes "mm_wf s" "5 \<le> free_pages s"
  shows "\<exists>s' k. do_no_page error_code va s = Inr ((), s') \<and> mm_wf s' \<and>
     k < PAGING_PAGES \<and> mem_map s ! k = 0 \<and> mem_map s' ! k = 1 \<and>
     pte_of s' va = page_of k OR PAGE_PRESENT OR PAGE_WRITE OR PAGE_USER \<and>
     (\<forall>i<512. qmem s' (elem (page_of k) i) = 0) \<and> mappers (qmem s') (page_of k) \<subseteq> {vpath va} \<and>
     (\<forall>va'. vpath va' \<noteq> vpath va \<longrightarrow> pte_of s' va' = pte_of s va') \<and>
     (\<forall>f i. used s f \<longrightarrow> \<not> table_page (qmem s) f \<longrightarrow> i < 512 \<longrightarrow> qmem s' (elem f i) = qmem s (elem f i))"
  using assms(1)
proof (cases rule: do_no_page_spec [where ec = error_code and va = va])
  case (mapped s' pg k)
  then show ?thesis by (intro exI [of _ s'] exI [of _ k]) auto
qed (use assms(2) in simp)

theorem do_no_page_demand_zero_witness:
  "mm_wf (boot_mm (\<lambda>_. 0)) \<and> 5 \<le> free_pages (boot_mm (\<lambda>_. 0)) \<and>
   (\<exists>s' k. do_no_page 4 0x4000000 (boot_mm (\<lambda>_. 0)) = Inr ((), s') \<and> mm_wf s' \<and> k < PAGING_PAGES \<and>
      pte_of s' 0x4000000 = page_of k OR PAGE_PRESENT OR PAGE_WRITE OR PAGE_USER)"
  using do_no_page_demand_zero [OF boot_wf [of "\<lambda>_. 0"], of 4 "0x4000000"] boot_wf [of "\<lambda>_. 0"]
  by (auto simp: boot_free_pages)

text \<open>C1: copy on write. A write-protection fault on a present user page either makes the page writable and
  private to the faulting address, with the contents every user address reads unchanged and every other
  mapping untouched, or calls \<open>do_exit(SIGSEGV)\<close> because no page is free.\<close>

theorem do_wp_page_breaks_cow:
  assumes "mm_wf s" "user_va va" "has_bits (pte_of s va) PAGE_PRESENT"
  shows "(\<exists>s'. do_wp_page error_code va s = Inr ((), s') \<and> mm_wf s' \<and> vwritable s' va \<and>
        mappers (qmem s') (PTE_ADDR (pte_of s' va)) = {vpath va} \<and>
        (\<forall>va'. vpath va' \<noteq> vpath va \<longrightarrow> pte_of s' va' = pte_of s va') \<and>
        (\<forall>va'. user_va va' \<longrightarrow> \<not> table_page (qmem s) (PTE_ADDR (pte_of s va')) \<longrightarrow> vload s' va' = vload s va')) \<or>
     (do_wp_page error_code va s = Inl (Do_exit SIGSEGV s) \<and> free_pages s = 0)"
proof -
  obtain t where t: "tab (qmem s) (tl (vpath va)) = Some t" and g: "elem t (PT_INDEX va) \<noteq> 0"
    "get_pte va False s = (elem t (PT_INDEX va), s)"
    by (rule present_tab [OF assms(1,3)])
  have "do_wp_page error_code va s = un_wp_page (elem t (PT_INDEX va)) s"
    using g by (simp add: do_wp_page_def)
  with un_wp_page_correct [OF assms t refl] show ?thesis
    by (simp add: cow_broken_def free_pages_0 [OF assms(1)])
qed

theorem do_wp_page_breaks_cow_witness:
  "mm_wf user_mm \<and> user_va 0x4000000 \<and> has_bits (pte_of user_mm 0x4000000) PAGE_PRESENT \<and>
   ((\<exists>s'. do_wp_page 7 0x4000000 user_mm = Inr ((), s') \<and> vwritable s' 0x4000000) \<or>
    do_wp_page 7 0x4000000 user_mm = Inl (Do_exit SIGSEGV user_mm))"
  using do_wp_page_breaks_cow [OF user_mm_facts(1) user_va_64MB(1) user_mm_facts(2), of 7] user_mm_facts user_va_64MB(1)
  by auto

lemma mm_wf_invalidate [simp]: "mm_wf (invalidate s) = mm_wf s"
  by (simp add: mm_wf_def invalidate_def)

lemma invalidate_simps [simp]:
  "qmem (invalidate s) = qmem s" "mem_map (invalidate s) = mem_map s" "tlb_loads (invalidate s) = Suc (tlb_loads s)"
  "pte_of (invalidate s) va = pte_of s va" "used (invalidate s) f = used s f"
  by (simp_all add: invalidate_def pte_of_def used_def)

lemma vload_invalidate [simp]: "vload (invalidate s) va = vload s va"
  by (simp add: vload_def Let_def)

lemma cow_range_invalidate [simp]: "cow_range fr to as s (invalidate s') = cow_range fr to as s s'"
  by (simp add: cow_range_def evolved_def)

lemma unmapped_invalidate [simp]: "unmapped A s (invalidate s') = unmapped A s s'"
  by (simp add: unmapped_def)

lemma aligned_2MB: "x AND 0x1FFFFF = 0 \<Longrightarrow> page_aligned x"
proof -
  assume "x AND 0x1FFFFF = 0"
  then have "(x AND 0x1FFFFF) AND 0xFFF = 0" by simp
  then show ?thesis by (simp add: page_aligned_def and.assoc)
qed

lemma low_or_user_used:
  "mm_wf s \<Longrightarrow> user_va va \<or> \<not> LOW_MEM \<le> PTE_ADDR (pte_of s va) \<Longrightarrow> has_bits (pte_of s va) PAGE_PRESENT \<Longrightarrow>
     used s (PTE_ADDR (pte_of s va))"
  using user_used [of s va] page_aligned_PTE_ADDR [of "pte_of s va"]
  by (auto simp: used_def word_less_nat_alt word_le_nat_alt)

text \<open>After the copy, the child reads what the parent read.\<close>

lemma cow_range_vload:
  assumes wf: "mm_wf s" and rg: "cow_range fr to as s s'" and a: "a \<in> set as"
    and pr: "has_bits (pte_of s (fr + a)) PAGE_PRESENT"
    and u: "user_va (fr + a) \<or> \<not> LOW_MEM \<le> PTE_ADDR (pte_of s (fr + a))"
    and nt: "\<not> table_page (qmem s) (PTE_ADDR (pte_of s (fr + a)))"
    and v: "vpath va = vpath (fr + a)" "vpath va' = vpath (to + a)" "PAGE_OFFSET va' = PAGE_OFFSET va"
  shows "vload s' va' = vload s va" "vload s' va = vload s va"
proof -
  let ?e = "pte_of s (fr + a)"
  have e: "pte_of s' (to + a) = read_only ?e" "pte_of s' (fr + a) = (if LOW_MEM \<le> PTE_ADDR ?e then read_only ?e else ?e)"
    using rg a pr by (auto simp: cow_range_def)
  have c: "qmem s' (elem (PTE_ADDR ?e) i) = qmem s (elem (PTE_ADDR ?e) i)" if "i < 512" for i
    using rg low_or_user_used [OF wf u pr] nt that by (simp add: cow_range_def evolved_def)
  show "vload s' va' = vload s va" "vload s' va = vload s va"
    using e c pr v(3) pte_of_same_page [OF v(1), of s] pte_of_same_page [OF v(1), of s'] pte_of_same_page [OF v(2), of s']
    by (auto simp: vload_def Let_def)
qed



text \<open>C4: \<open>free_page_tables\<close> on a 2 MB-aligned range above the identity map neither panics nor faults: it
  returns 0 having removed every mapping of the range and nothing else, with the invariant kept
  (each page's counter still covers its remaining mappings) and no data page changed.\<close>

theorem free_page_tables_unmaps:
  assumes "mm_wf s" "from AND 0x1FFFFF = 0" "0x1000000 \<le> from" "unat from + unat (round_2MB sz) \<le> 2^48"
  shows "\<exists>s'. free_page_tables from sz s = Inr (0, s') \<and> mm_wf s' \<and>
     (\<forall>va. pte_of s' va =
        (if has_bits (pte_of s va) PAGE_PRESENT \<and> (\<exists>a\<in>set (page_steps from (from + round_2MB sz)). vpath a = vpath va)
         then 0 else pte_of s va)) \<and>
     (\<forall>f i. page_aligned f \<longrightarrow> \<not> table_page (qmem s) f \<longrightarrow> i < 512 \<longrightarrow> qmem s' (elem f i) = qmem s (elem f i))"
proof -
  let ?as = "page_steps from (from + round_2MB sz)"
  have as: "?as = map (\<lambda>k. from + 0x1000 * of_nat k) [0..<unat (round_2MB sz) div 4096]"
    by (rule page_steps_from) (use assms(4) in simp)
  have "user_va a" if "a \<in> set ?as" for a
  proof -
    obtain k where k: "k < unat (round_2MB sz) div 4096" "a = from + 0x1000 * of_nat k" using \<open>a \<in> set ?as\<close> as by auto
    have "4096 * k < unat (round_2MB sz)" using k(1) by simp
    then have "unat a = unat from + 4096 * k" unfolding k(2) by (intro unat_plus_pages) (use assms(4) in simp)
    then show ?thesis by (intro user_vaI) (use assms(3,4) \<open>4096 * k < _\<close> in \<open>simp_all add: word_le_nat_alt\<close>)
  qed
  then obtain s' where s': "free_loop ?as s = Inr ((), s')" "unmapped (set ?as) s s'"
    using free_loop_spec [OF assms(1)] by blast
  have "from \<noteq> 0" using assms(3) by auto
  then have "free_page_tables from sz s = Inr (0, invalidate s')"
    using s'(1) assms(2) by (simp add: free_page_tables_def)
  moreover have "unmapped (set ?as) s (invalidate s')" using s'(2) by simp
  ultimately show ?thesis unfolding unmapped_def by blast
qed

theorem free_page_tables_unmaps_witness:
  "mm_wf user_mm \<and> has_bits (pte_of user_mm 0x4000000) PAGE_PRESENT \<and>
   (\<exists>s'. free_page_tables 0x4000000 0xA0000 user_mm = Inr (0, s') \<and> mm_wf s' \<and> pte_of s' 0x4000000 = 0)"
proof -
  have "round_2MB 0xA0000 = 0x200000" by (simp add: round_2MB_def)
  moreover have "0x4000000 \<in> set (page_steps 0x4000000 (0x4000000 + 0x200000))"
    by (auto simp: page_steps_def image_iff intro!: bexI [of _ "0"])
  ultimately show ?thesis
    using free_page_tables_unmaps [OF user_mm_facts(1), of "0x4000000" "0xA0000"] user_mm_facts
    by (fastforce simp: word_le_nat_alt)
qed

text \<open>C20: \<open>get_free_page\<close> returns the highest page whose counter is zero, zeroed, with its counter set to 1 and
  every other counter and every byte of every page in use unchanged, or 0 with nothing changed when no
  counter is zero; the invariant is kept.\<close>

theorem get_free_page_correct:
  assumes "mm_wf s"
  shows "case get_free_page s of (page, s') \<Rightarrow> mm_wf s' \<and>
     (if \<forall>i<PAGING_PAGES. mem_map s ! i \<noteq> 0 then page = 0 \<and> s' = s
      else \<exists>k<PAGING_PAGES. page = page_of k \<and> mem_map s ! k = 0 \<and>
        (\<forall>j. k < j \<longrightarrow> j < PAGING_PAGES \<longrightarrow> mem_map s ! j \<noteq> 0) \<and>
        mem_map s' = (mem_map s)[k := 1] \<and> (\<forall>i<512. qmem s' (elem page i) = 0) \<and>
        (\<forall>f i. page_aligned f \<longrightarrow> f \<noteq> page \<longrightarrow> i < 512 \<longrightarrow> qmem s' (elem f i) = qmem s (elem f i)))"
proof -
  obtain pg s' where g: "get_free_page s = (pg, s')" by fastforce
  show ?thesis
  proof (cases "pg = 0")
    case True
    then show ?thesis using g get_free_page_None [of s s'] assms by simp
  next
    case False
    from get_free_page_Some [OF assms g False] obtain k where k: "k < PAGING_PAGES" "pg = page_of k" "mem_map s ! k = 0"
      "mem_map s' = (mem_map s)[k := 1]" and s': "s' = zero_page pg (s\<lparr>mem_map := (mem_map s)[k := 1]\<rparr>)"
      and wf: "mm_wf s'" and mx: "\<forall>j. k < j \<longrightarrow> j < PAGING_PAGES \<longrightarrow> mem_map s ! j \<noteq> 0" by metis
    have "qmem s' (elem f i) = qmem s (elem f i)" if "page_aligned f" "f \<noteq> pg" "i < 512" for f i
      using that zero_page_out [of pg f i "s\<lparr>mem_map := (mem_map s)[k := 1]\<rparr>"] page_aligned_page_of [OF k(1)]
      by (simp add: s' k(2))
    moreover have "qmem s' (elem pg i) = 0" if "i < 512" for i using that by (simp add: s' zero_page_in)
    ultimately show ?thesis using g k wf mx by auto
  qed
qed

theorem get_free_page_correct_witness:
  "mm_wf (boot_mm (\<lambda>_. 0)) \<and> fst (get_free_page (boot_mm (\<lambda>_. 0))) = 0x7FF000 \<and>
   mem_map (snd (get_free_page (boot_mm (\<lambda>_. 0)))) = (replicate PAGING_PAGES 0)[1535 := 1]"
proof -
  have m: "mem_map (boot_mm (\<lambda>_. 0)) = replicate PAGING_PAGES 0" by (simp add: boot_mm_def)
  obtain pg s' where g: "get_free_page (boot_mm (\<lambda>_. 0)) = (pg, s')" by fastforce
  have nf: "\<not> (\<forall>i<PAGING_PAGES. mem_map (boot_mm (\<lambda>_. 0)) ! i \<noteq> 0)" unfolding m by (auto intro: exI [of _ 0])
  obtain k where k: "k < PAGING_PAGES" "pg = page_of k" "mem_map s' = (replicate PAGING_PAGES 0)[k := 1]"
    and mx: "\<forall>j. k < j \<longrightarrow> j < PAGING_PAGES \<longrightarrow> mem_map (boot_mm (\<lambda>_. 0)) ! j \<noteq> 0"
    using get_free_page_correct [OF boot_wf [of "\<lambda>_. 0"]] unfolding g prod.case if_not_P [OF nf] unfolding m by blast
  have "k = 1535" using mx [rule_format, of 1535] k(1) by (cases "k = 1535") (simp_all add: m)
  then show ?thesis using g k boot_wf by (simp add: page_of_def push_bit_eq_mult)
qed

text \<open>C29: \<open>free_page\<close> undoes \<open>get_free_page\<close> on the counters, and freeing the page a second time panics.\<close>

theorem free_page_round_trip:
  assumes "mm_wf s" "get_free_page s = (page, s1)" "page \<noteq> 0"
  shows "\<exists>s2. free_page page s1 = Inr ((), s2) \<and> mem_map s2 = mem_map s \<and>
     free_page page s2 = Inl (Panic ''trying to free free page'')"
proof -
  from get_free_page_Some [OF assms] obtain k where k: "k < PAGING_PAGES" "page = page_of k" "mem_map s ! k = 0"
    "mem_map s1 = (mem_map s)[k := 1]" by metis
  note r = page_of_range [OF k(1)] and n = MAP_NR_page_of [OF k(1)] and len = mm_wf_length [OF assms(1)]
  let ?s2 = "s1\<lparr>mem_map := (mem_map s)[k := 0]\<rparr>"
  have "free_page page s1 = Inr ((), ?s2)" using r k n len by (auto simp: free_page_def Let_def)
  moreover have "mem_map ?s2 = mem_map s" using k(3) by (simp add: list_update_same_conv len k(1))
  moreover have "free_page page ?s2 = Inl (Panic ''trying to free free page'')"
    using r k n len by (auto simp: free_page_def Let_def)
  ultimately show ?thesis by blast
qed

theorem free_page_round_trip_witness:
  "mm_wf (boot_mm (\<lambda>_. 0)) \<and> fst (get_free_page (boot_mm (\<lambda>_. 0))) \<noteq> 0 \<and>
   (\<exists>s2. free_page (fst (get_free_page (boot_mm (\<lambda>_. 0)))) (snd (get_free_page (boot_mm (\<lambda>_. 0)))) = Inr ((), s2) \<and>
      mem_map s2 = replicate PAGING_PAGES 0)"
proof -
  have m: "mem_map (boot_mm (\<lambda>_. 0)) = replicate PAGING_PAGES 0" by (simp add: boot_mm_def)
  obtain pg s' where g: "get_free_page (boot_mm (\<lambda>_. 0)) = (pg, s')" by fastforce
  have "pg \<noteq> 0"
    using get_free_page_None [of "boot_mm (\<lambda>_. 0)" s'] g free_pages_0 [OF boot_wf [of "\<lambda>_. 0"]] boot_free_pages [of "\<lambda>_. 0"]
    by fastforce
  then show ?thesis using free_page_round_trip [OF boot_wf g] g boot_wf by (auto simp: m)
qed

text \<open>The boundary check of \<open>free_page\<close> lets the first address above memory through: for it the code
  reads the counter one past the end of \<open>mem_map\<close>, while every higher address panics.\<close>

theorem free_page_boundary:
  assumes "mm_wf s"
  shows "free_page HIGH_MEMORY s = Inl Fault \<and>
     (\<forall>addr. HIGH_MEMORY < addr \<longrightarrow> free_page addr s = Inl (Panic ''trying to free nonexistent page'')) \<and>
     (\<forall>addr. addr < LOW_MEM \<longrightarrow> free_page addr s = Inr ((), s))"
proof -
  have "MAP_NR HIGH_MEMORY = PAGING_PAGES" by (simp add: MAP_NR_def)
  then have "free_page HIGH_MEMORY s = Inl Fault" using mm_wf_length [OF assms] by (simp add: free_page_def)
  then show ?thesis by (auto simp: free_page_def word_less_nat_alt)
qed

theorem free_page_boundary_witness:
  "mm_wf (boot_mm (\<lambda>_. 0)) \<and> free_page HIGH_MEMORY (boot_mm (\<lambda>_. 0)) = Inl Fault"
  using free_page_boundary [OF boot_wf [of "\<lambda>_. 0"]] boot_wf by simp

text \<open>C22: without \<open>create\<close>, \<open>get_pte\<close> returns the address of the entry the processor reads for \<open>addr\<close>, or
  \<open>NULL\<close> exactly when one of the three upper levels is not present, and changes nothing.\<close>

theorem get_pte_is_walk:
  assumes "mm_wf s"
  shows "get_pte addr False s =
     (case tab (qmem s) [PD_INDEX addr, PDPT_INDEX addr, PML4_INDEX addr] of
        None \<Rightarrow> (0, s) | Some t \<Rightarrow> (elem t (PT_INDEX addr), s)) \<and>
     (\<forall>t. tab (qmem s) [PD_INDEX addr, PDPT_INDEX addr, PML4_INDEX addr] = Some t \<longrightarrow> elem t (PT_INDEX addr) \<noteq> 0)"
proof -
  let ?p = "[PD_INDEX addr, PDPT_INDEX addr, PML4_INDEX addr]"
  have p: "tl (vpath addr) = ?p" by (simp add: vpath_def)
  have "elem t (PT_INDEX addr) \<noteq> 0" if t: "tab (qmem s) ?p = Some t" for t
    using mm_wf_table [OF assms vpath_tpath(1) [of addr]] t p elem_neq_0 [OF tab_aligned [OF t]] by simp
  then show ?thesis using get_pte_lookup [OF assms, of addr] by (simp add: p)
qed

theorem get_pte_is_walk_witness:
  "mm_wf user_mm \<and> (case tab (qmem user_mm) [PD_INDEX 0x4000000, PDPT_INDEX 0x4000000, PML4_INDEX 0x4000000] of
     None \<Rightarrow> get_pte 0x4000000 False user_mm = (0, user_mm)
   | Some t \<Rightarrow> get_pte 0x4000000 False user_mm = (elem t (PT_INDEX 0x4000000), user_mm))"
  using get_pte_is_walk [OF user_mm_facts(1), of "0x4000000"] user_mm_facts(1) by (auto split: option.splits)

text \<open>C40: after a fault on an absent page, \<open>page_fault\<close> hands the error code to \<open>do_no_page\<close> as the address:
  the page of the faulting address stays as it was, so the instruction faults again.\<close>

theorem page_fault_swapped:
  assumes "mm_wf s" "\<not> has_bits error_code 1" "vpath cr2 \<noteq> vpath error_code"
  shows "page_fault cr2 error_code s = do_no_page cr2 error_code s \<and>
     (\<forall>s'. page_fault cr2 error_code s = Inr ((), s') \<longrightarrow> pte_of s' cr2 = pte_of s cr2)"
proof -
  have e: "page_fault cr2 error_code s = do_no_page cr2 error_code s" using assms(2) by (simp add: page_fault_def)
  show ?thesis using assms(1)
    by (cases rule: do_no_page_spec [where ec = cr2 and va = error_code]) (use assms(3) e in auto)
qed

theorem page_fault_swapped_witness:
  "mm_wf (boot_mm (\<lambda>_. 0)) \<and> vpath 0x4000000 \<noteq> vpath 4 \<and>
   (\<exists>s'. page_fault 0x4000000 4 (boot_mm (\<lambda>_. 0)) = Inr ((), s') \<and>
      pte_of s' 0x4000000 = pte_of (boot_mm (\<lambda>_. 0)) 0x4000000)"
proof -
  have v: "vpath 0x4000000 \<noteq> vpath 4" by (subst vpath_eq_iff) simp_all
  note sw = page_fault_swapped [OF boot_wf [of "\<lambda>_. 0"] _ v]
  obtain s' where "do_no_page 0x4000000 4 (boot_mm (\<lambda>_. 0)) = Inr ((), s')"
    using boot_wf [of "\<lambda>_. 0"]
    by (cases rule: do_no_page_spec [where ec = "0x4000000" and va = 4]) (auto simp: boot_free_pages)
  with sw v boot_wf show ?thesis by simp
qed

end
