(* ===== verification/Kstring.thy ===== *)
theory Kstring
  imports Prelude
begin

text \<open>
  The string and memory functions of \<open>src/include/string.h\<close> and \<open>src/lib/string.c\<close>, and the
  character classes of \<open>src/include/ctype.h\<close> and \<open>src/lib/ctype.c\<close>.

  Memory is a function from addresses to bytes, a \<open>char *\<close> is an address and pointer
  increments wrap around at 64 bits. A loop that ends only at a byte it looks for is a
  \<open>partial_function (option)\<close>: \<open>None\<close> means that it never finds one. \<open>cstr m p xs\<close> says that the
  bytes \<open>xs\<close> followed by a zero byte are at \<open>p\<close>.
\<close>

type_synonym bytes = "u64 \<Rightarrow> u8"

section \<open>Strings\<close>

text \<open>The loop \<open>while ((*d++ = *src++) != 0);\<close>\<close>

partial_function (option) cpy_loop :: "u64 \<Rightarrow> u64 \<Rightarrow> bytes \<Rightarrow> bytes option" where
  "cpy_loop d src m =
     (let c = m src; m = m(d := c) in
      if c \<noteq> 0 then cpy_loop (d + 1) (src + 1) m else Some m)"

definition strcpy :: "u64 \<Rightarrow> u64 \<Rightarrow> bytes \<Rightarrow> (u64 \<times> bytes) option" where
  "strcpy dest src m = map_option (\<lambda>m. (dest, m)) (cpy_loop dest src m)"

text \<open>\<open>while (count-- > 0) *d++ = 0;\<close>\<close>

fun pad_loop :: "nat \<Rightarrow> u64 \<Rightarrow> bytes \<Rightarrow> bytes" where
  "pad_loop 0 d m = m"
| "pad_loop (Suc n) d m = pad_loop n (d + 1) (m(d := 0))"

text \<open>\<open>while (count > 0 && (*d++ = *src++) != 0) count--;\<close> with what is left of \<open>count\<close> and \<open>d\<close>.\<close>

fun ncpy_loop :: "nat \<Rightarrow> u64 \<Rightarrow> u64 \<Rightarrow> bytes \<Rightarrow> nat \<times> u64 \<times> bytes" where
  "ncpy_loop 0 d src m = (0, d, m)"
| "ncpy_loop (Suc count) d src m =
     (let c = m src; m = m(d := c) in
      if c \<noteq> 0 then ncpy_loop count (d + 1) (src + 1) m else (Suc count, d + 1, m))"

definition strncpy :: "u64 \<Rightarrow> u64 \<Rightarrow> int \<Rightarrow> bytes \<Rightarrow> u64 \<times> bytes" where
  "strncpy dest src count m =
     (let (count, d, m) = ncpy_loop (nat count) dest src m in (dest, pad_loop count d m))"

text \<open>\<open>while (*d) d++;\<close>\<close>

partial_function (option) end_of :: "u64 \<Rightarrow> bytes \<Rightarrow> u64 option" where
  "end_of d m = (if m d \<noteq> 0 then end_of (d + 1) m else Some d)"

definition strcat :: "u64 \<Rightarrow> u64 \<Rightarrow> bytes \<Rightarrow> (u64 \<times> bytes) option" where
  "strcat dest src m =
     Option.bind (end_of dest m) (\<lambda>d. map_option (\<lambda>m. (dest, m)) (cpy_loop d src m))"

fun ncat_loop :: "nat \<Rightarrow> u64 \<Rightarrow> u64 \<Rightarrow> bytes \<Rightarrow> u64 \<times> bytes" where
  "ncat_loop 0 d src m = (d, m)"
| "ncat_loop (Suc count) d src m =
     (let c = m src; m = m(d := c) in
      if c \<noteq> 0 then ncat_loop count (d + 1) (src + 1) m else (d, m))"

definition strncat :: "u64 \<Rightarrow> u64 \<Rightarrow> int \<Rightarrow> bytes \<Rightarrow> (u64 \<times> bytes) option" where
  "strncat dest src count m =
     map_option (\<lambda>d. let (d, m) = ncat_loop (nat count) d src m in (dest, m(d := 0))) (end_of dest m)"

partial_function (option) strcmp :: "u64 \<Rightarrow> u64 \<Rightarrow> bytes \<Rightarrow> int option" where
  "strcmp cs ct m =
     (if m cs \<noteq> 0 \<and> m cs = m ct then strcmp (cs + 1) (ct + 1) m
      else Some (uint (m cs) - uint (m ct)))"

text \<open>A negative \<open>count\<close> skips the loop and is not zero, so the first bytes are compared.\<close>

fun ncmp_loop :: "nat \<Rightarrow> u64 \<Rightarrow> u64 \<Rightarrow> bytes \<Rightarrow> int" where
  "ncmp_loop 0 cs ct m = 0"
| "ncmp_loop (Suc count) cs ct m =
     (if m cs \<noteq> 0 \<and> m cs = m ct then ncmp_loop count (cs + 1) (ct + 1) m
      else uint (m cs) - uint (m ct))"

definition strncmp :: "u64 \<Rightarrow> u64 \<Rightarrow> int \<Rightarrow> bytes \<Rightarrow> int" where
  "strncmp cs ct count m =
     (if count < 0 then uint (m cs) - uint (m ct) else ncmp_loop (nat count) cs ct m)"

partial_function (option) strchr :: "u64 \<Rightarrow> u8 \<Rightarrow> bytes \<Rightarrow> u64 option" where
  "strchr s c m =
     (if m s \<noteq> 0 then if m s = c then Some s else strchr (s + 1) c m
      else Some (if c \<noteq> 0 then 0 else s))"

partial_function (option) rchr_loop :: "u64 \<Rightarrow> u64 \<Rightarrow> u8 \<Rightarrow> bytes \<Rightarrow> u64 option" where
  "rchr_loop lst s c m =
     (if m s \<noteq> 0 then rchr_loop (if m s = c then s else lst) (s + 1) c m
      else Some (if c \<noteq> 0 then lst else s))"

definition strrchr :: "u64 \<Rightarrow> u8 \<Rightarrow> bytes \<Rightarrow> u64 option" where
  "strrchr s c m = rchr_loop 0 s c m"

text \<open>\<open>for (p = ct; *p; p++) if (*p == c) break;\<close> and whether it stopped before the end.\<close>

partial_function (option) among :: "u64 \<Rightarrow> u8 \<Rightarrow> bytes \<Rightarrow> bool option" where
  "among p c m = (if m p \<noteq> 0 then if m p = c then Some True else among (p + 1) c m else Some False)"

text \<open>\<open>while (*s) { ... s++; }\<close> as long as the membership of \<open>*s\<close> in \<open>ct\<close> is \<open>want\<close>.\<close>

partial_function (option) span_loop :: "bool \<Rightarrow> u64 \<Rightarrow> u64 \<Rightarrow> bytes \<Rightarrow> u64 option" where
  "span_loop want s ct m =
     (if m s \<noteq> 0
      then Option.bind (among ct (m s) m) (\<lambda>b. if b = want then span_loop want (s + 1) ct m else Some s)
      else Some s)"

text \<open>A pointer difference returned as an \<open>int\<close>.\<close>

definition diff_int :: "u64 \<Rightarrow> u64 \<Rightarrow> int" where
  "diff_int p q = sint (ucast (p - q) :: 32 word)"

definition strspn :: "u64 \<Rightarrow> u64 \<Rightarrow> bytes \<Rightarrow> int option" where
  "strspn cs ct m = map_option (\<lambda>s. diff_int s cs) (span_loop True cs ct m)"

definition strcspn :: "u64 \<Rightarrow> u64 \<Rightarrow> bytes \<Rightarrow> int option" where
  "strcspn cs ct m = map_option (\<lambda>s. diff_int s cs) (span_loop False cs ct m)"

definition strpbrk :: "u64 \<Rightarrow> u64 \<Rightarrow> bytes \<Rightarrow> u64 option" where
  "strpbrk cs ct m = map_option (\<lambda>s. if m s \<noteq> 0 then s else 0) (span_loop False cs ct m)"

text \<open>\<open>while (*p && *q && *p == *q) { p++; q++; }\<close>, then whether \<open>*q\<close> is 0.\<close>

partial_function (option) match_here :: "u64 \<Rightarrow> u64 \<Rightarrow> bytes \<Rightarrow> bool option" where
  "match_here p q m =
     (if m p \<noteq> 0 \<and> m q \<noteq> 0 \<and> m p = m q then match_here (p + 1) (q + 1) m else Some (m q = 0))"

partial_function (option) str_loop :: "u64 \<Rightarrow> u64 \<Rightarrow> bytes \<Rightarrow> u64 option" where
  "str_loop s ct m =
     (if m s \<noteq> 0
      then Option.bind (match_here s ct m) (\<lambda>b. if b then Some s else str_loop (s + 1) ct m)
      else Some 0)"

definition strstr :: "u64 \<Rightarrow> u64 \<Rightarrow> bytes \<Rightarrow> u64 option" where
  "strstr cs ct m = (if m ct = 0 then Some cs else str_loop cs ct m)"

definition strlen :: "u64 \<Rightarrow> bytes \<Rightarrow> int option" where
  "strlen s m = map_option (\<lambda>sc. diff_int sc s) (end_of s m)"

text \<open>
  \<open>strtok\<close>; the global \<open>___strtok\<close> is an argument and part of the result. The two loops are
  \<open>span_loop\<close>s: skip the leading delimiters, find the end of the token.
\<close>

definition strtok :: "u64 \<Rightarrow> u64 \<Rightarrow> u64 \<Rightarrow> bytes \<Rightarrow> (u64 \<times> u64 \<times> bytes) option" where
  "strtok s ct save m =
     (let save = (if s \<noteq> 0 then s else save) in
      if save = 0 then Some (0, save, m)
      else Option.bind (span_loop True save ct m) (\<lambda>token.
        if m token = 0 then Some (0, token, m)
        else map_option (\<lambda>e.
          if m e \<noteq> 0 then (token, e + 1, m(e := 0)) else (token, 0, m)) (span_loop False token ct m)))"

section \<open>Memory\<close>

text \<open>\<open>while (n--) *d++ = *s++;\<close> and the loop from the end.\<close>

fun up_loop :: "nat \<Rightarrow> u64 \<Rightarrow> u64 \<Rightarrow> bytes \<Rightarrow> bytes" where
  "up_loop 0 d s m = m"
| "up_loop (Suc n) d s m = up_loop n (d + 1) (s + 1) (m(d := m s))"

fun down_loop :: "nat \<Rightarrow> u64 \<Rightarrow> u64 \<Rightarrow> bytes \<Rightarrow> bytes" where
  "down_loop 0 d s m = m"
| "down_loop (Suc n) d s m = down_loop n (d - 1) (s - 1) (m(d - 1 := m (s - 1)))"

definition memcpy :: "u64 \<Rightarrow> u64 \<Rightarrow> u64 \<Rightarrow> bytes \<Rightarrow> u64 \<times> bytes" where
  "memcpy dest src n m = (dest, up_loop (unat n) dest src m)"

definition memmove :: "u64 \<Rightarrow> u64 \<Rightarrow> u64 \<Rightarrow> bytes \<Rightarrow> u64 \<times> bytes" where
  "memmove dest src n m =
     (dest, if dest < src then up_loop (unat n) dest src m
            else down_loop (unat n) (dest + n) (src + n) m)"

fun cmp_loop :: "nat \<Rightarrow> u64 \<Rightarrow> u64 \<Rightarrow> bytes \<Rightarrow> int" where
  "cmp_loop 0 p1 p2 m = 0"
| "cmp_loop (Suc n) p1 p2 m =
     (if m p1 \<noteq> m p2 then uint (m p1) - uint (m p2) else cmp_loop n (p1 + 1) (p2 + 1) m)"

definition memcmp :: "u64 \<Rightarrow> u64 \<Rightarrow> u64 \<Rightarrow> bytes \<Rightarrow> int" where
  "memcmp s1 s2 n m = cmp_loop (unat n) s1 s2 m"

fun chr_loop :: "nat \<Rightarrow> u64 \<Rightarrow> u8 \<Rightarrow> bytes \<Rightarrow> u64" where
  "chr_loop 0 s c m = 0"
| "chr_loop (Suc n) s c m = (if m s = c then s else chr_loop n (s + 1) c m)"

fun set_loop :: "nat \<Rightarrow> u64 \<Rightarrow> u8 \<Rightarrow> bytes \<Rightarrow> bytes" where
  "set_loop 0 xs c m = m"
| "set_loop (Suc n) xs c m = set_loop n (xs + 1) c (m(xs := c))"

definition memset :: "u64 \<Rightarrow> u8 \<Rightarrow> u64 \<Rightarrow> bytes \<Rightarrow> u64 \<times> bytes" where
  "memset s c n m = (s, set_loop (unat n) s c m)"

text \<open>
  The inline versions of \<open>string.h\<close> take an \<open>int\<close>: with a negative count \<open>while (n--)\<close> counts down past
  the least \<open>int\<close>, which C leaves undefined; that is \<open>None\<close>.
\<close>

definition counted :: "int \<Rightarrow> (nat \<Rightarrow> 'a) \<Rightarrow> 'a option" where
  "counted n f = (if n < 0 then None else Some (f (nat n)))"

definition memcpy_inline :: "u64 \<Rightarrow> u64 \<Rightarrow> int \<Rightarrow> bytes \<Rightarrow> (u64 \<times> bytes) option" where
  "memcpy_inline dest src n m = counted n (\<lambda>n. (dest, up_loop n dest src m))"

definition memmove_inline :: "u64 \<Rightarrow> u64 \<Rightarrow> int \<Rightarrow> bytes \<Rightarrow> (u64 \<times> bytes) option" where
  "memmove_inline dest src n m = counted n (\<lambda>n.
     (dest, if dest < src then up_loop n dest src m
            else down_loop n (dest + of_nat n) (src + of_nat n) m))"

definition memcmp_inline :: "u64 \<Rightarrow> u64 \<Rightarrow> int \<Rightarrow> bytes \<Rightarrow> int option" where
  "memcmp_inline cs ct count m = counted count (\<lambda>n. cmp_loop n cs ct m)"

definition memchr :: "u64 \<Rightarrow> u8 \<Rightarrow> int \<Rightarrow> bytes \<Rightarrow> u64 option" where
  "memchr cs c count m = counted count (\<lambda>n. chr_loop n cs c m)"

definition memset_inline :: "u64 \<Rightarrow> u8 \<Rightarrow> int \<Rightarrow> bytes \<Rightarrow> (u64 \<times> bytes) option" where
  "memset_inline s c count m = counted count (\<lambda>n. (s, set_loop n s c m))"

section \<open>Character classes\<close>

definition cU :: u8 where "cU = 0x01"
definition cL :: u8 where "cL = 0x02"
definition cD :: u8 where "cD = 0x04"
definition cC :: u8 where "cC = 0x08"
definition cP :: u8 where "cP = 0x10"
definition cS :: u8 where "cS = 0x20"
definition cX :: u8 where "cX = 0x40"
definition cSP :: u8 where "cSP = 0x80"

text \<open>\<open>_ctype\<close> without its first element, which is the class of \<open>EOF\<close>: the table \<open>(_ctype+1)\<close>.\<close>

definition ctype :: "u8 list" where
  "ctype =
     replicate 9 cC @ replicate 5 (cC OR cS) @ replicate 18 cC @
     [cS OR cSP] @ replicate 15 cP @ replicate 10 cD @ replicate 7 cP @
     replicate 6 (cU OR cX) @ replicate 20 cU @ replicate 6 cP @
     replicate 6 (cL OR cX) @ replicate 20 cL @ replicate 4 cP @ [cC] @ replicate 128 0"

definition isalnum :: "u8 \<Rightarrow> bool" where "isalnum c = has_bits (ctype ! unat c) (cU OR cL OR cD)"
definition isalpha :: "u8 \<Rightarrow> bool" where "isalpha c = has_bits (ctype ! unat c) (cU OR cL)"
definition iscntrl :: "u8 \<Rightarrow> bool" where "iscntrl c = has_bits (ctype ! unat c) cC"
definition isdigit :: "u8 \<Rightarrow> bool" where "isdigit c = has_bits (ctype ! unat c) cD"
definition isgraph :: "u8 \<Rightarrow> bool" where "isgraph c = has_bits (ctype ! unat c) (cP OR cU OR cL OR cD)"
definition islower :: "u8 \<Rightarrow> bool" where "islower c = has_bits (ctype ! unat c) cL"
definition isprint :: "u8 \<Rightarrow> bool" where "isprint c = has_bits (ctype ! unat c) (cP OR cU OR cL OR cD OR cSP)"
definition ispunct :: "u8 \<Rightarrow> bool" where "ispunct c = has_bits (ctype ! unat c) cP"
definition isspace :: "u8 \<Rightarrow> bool" where "isspace c = has_bits (ctype ! unat c) cS"
definition isupper :: "u8 \<Rightarrow> bool" where "isupper c = has_bits (ctype ! unat c) cU"
definition isxdigit :: "u8 \<Rightarrow> bool" where "isxdigit c = has_bits (ctype ! unat c) (cD OR cX)"

text \<open>\<open>tolower\<close> adds \<open>'a' + 'A'\<close>, \<open>toupper\<close> adds \<open>'A' - 'a'\<close>; the results are \<open>int\<close>s.\<close>

definition tolower :: "u8 \<Rightarrow> int" where
  "tolower c = (if isupper c then uint c + (97 + 65) else uint c)"

definition toupper :: "u8 \<Rightarrow> int" where
  "toupper c = (if islower c then uint c + (65 - 97) else uint c)"


section \<open>Strings in memory\<close>

fun cstr :: "bytes \<Rightarrow> u64 \<Rightarrow> u8 list \<Rightarrow> bool" where
  "cstr m p [] = (m p = 0)"
| "cstr m p (x # xs) = (x \<noteq> 0 \<and> m p = x \<and> cstr m (p + 1) xs)"

fun put :: "u64 \<Rightarrow> u8 list \<Rightarrow> bytes \<Rightarrow> bytes" where
  "put p [] m = m"
| "put p (x # xs) m = put (p + 1) xs (m(p := x))"

definition rng :: "u64 \<Rightarrow> nat \<Rightarrow> u64 set" where
  "rng p n = (\<lambda>i. p + of_nat i) ` {..<n}"

lemma rng_0 [simp]: "rng p 0 = {}" by (simp add: rng_def)

lemma rng_Suc: "rng p (Suc n) = insert p (rng (p + 1) n)"
  unfolding rng_def lessThan_Suc_eq_insert_0 by (simp add: image_image add.assoc)

lemma rng_self: "0 < n \<Longrightarrow> p \<in> rng p n"
  by (cases n) (simp_all add: rng_Suc)

lemma not_in_rng_next: "n < 2^64 \<Longrightarrow> p \<notin> rng (p + 1) n"
proof
  assume n: "n < 2^64" and "p \<in> rng (p + 1) n"
  then obtain i where i: "i < n" "p = p + 1 + of_nat i" by (auto simp: rng_def)
  then have "(of_nat (Suc i) :: u64) = 0" by (simp add: algebra_simps)
  then have "Suc i mod 2^64 = 0" by (simp only: word_unat_eq_iff unat_of_nat) simp
  then show False using i n by simp
qed

lemma put_out: "q \<notin> rng p (length xs) \<Longrightarrow> put p xs m q = m q"
  by (induction xs arbitrary: p m) (auto simp: rng_Suc)

lemma put_upd: "q \<notin> rng p (length xs) \<Longrightarrow> put p xs (m(q := v)) = (put p xs m)(q := v)"
  by (induction xs arbitrary: p m) (auto simp: rng_Suc fun_upd_twist)

lemma put_in: "i < length xs \<Longrightarrow> length xs \<le> 2^64 \<Longrightarrow> put p xs m (p + of_nat i) = xs ! i"
proof (induction xs arbitrary: p m i)
  case (Cons x xs)
  show ?case
  proof (cases i)
    case 0
    then show ?thesis using Cons.prems put_out [of p "p + 1" xs] not_in_rng_next [of "length xs" p] by simp
  next
    case (Suc j)
    then have j: "j < length xs" "length xs \<le> 2^64" using Cons.prems by simp_all
    have "p + of_nat i = (p + 1) + of_nat j" by (simp add: Suc)
    then show ?thesis using Cons.IH [OF j] by (simp only: Suc put.simps nth_Cons_Suc)
  qed
qed simp

lemma put_append: "put p (xs @ ys) m = put (p + of_nat (length xs)) ys (put p xs m)"
  by (induction xs arbitrary: p m) (simp_all add: algebra_simps)

lemma cstr_unchanged:
  "(\<And>q. q \<in> rng p (Suc (length xs)) \<Longrightarrow> m' q = m q) \<Longrightarrow> cstr m' p xs = cstr m p xs"
proof (induction xs arbitrary: p)
  case (Cons x xs)
  have "cstr m' (p + 1) xs = cstr m (p + 1) xs"
    by (rule Cons.IH, rule Cons.prems) (simp add: rng_Suc [of p])
  then show ?case using Cons.prems [of p] by (simp add: rng_Suc)
qed (simp add: rng_Suc)

lemma cstr_put: "0 \<notin> set xs \<Longrightarrow> length xs < 2^64 \<Longrightarrow> cstr (put p (xs @ [0]) m) p xs"
proof (induction xs arbitrary: p m)
  case (Cons x xs)
  have "put (p + 1) (xs @ [0]) (m(p := x)) p = x"
    using put_out [of p "p + 1" "xs @ [0]"] not_in_rng_next [of "Suc (length xs)" p] Cons.prems by simp
  then show ?case using Cons by simp
qed simp

lemma cstr_nonzero: "cstr m p xs \<Longrightarrow> 0 \<notin> set xs"
  by (induction xs arbitrary: p) auto

lemma cstr_Nil_iff: "cstr m p xs \<Longrightarrow> m p = 0 \<longleftrightarrow> xs = []"
  by (cases xs) auto

section \<open>Copying\<close>

lemma cpy_loop_cstr:
  assumes "cstr m s xs" "rng d (Suc (length xs)) \<inter> rng s (Suc (length xs)) = {}"
  shows "cpy_loop d s m = Some (put d (xs @ [0]) m)"
  using assms
proof (induction xs arbitrary: d s m)
  case Nil
  then show ?case by (subst cpy_loop.simps) (simp add: Let_def)
next
  case (Cons x xs)
  have "cstr (m(d := x)) (s + 1) xs = cstr m (s + 1) xs"
    by (rule cstr_unchanged) (use Cons.prems(2) in \<open>auto simp: rng_Suc\<close>)
  moreover have "rng (d + 1) (Suc (length xs)) \<inter> rng (s + 1) (Suc (length xs)) = {}"
    using Cons.prems(2) rng_Suc [of d "Suc (length xs)"] rng_Suc [of s "Suc (length xs)"] by auto
  ultimately show ?case using Cons by (subst cpy_loop.simps) (simp add: Let_def)
qed

lemma end_of_cstr: "cstr m p xs \<Longrightarrow> end_of p m = Some (p + of_nat (length xs))"
proof (induction xs arbitrary: p)
  case Nil
  then show ?case by (subst end_of.simps) simp
next
  case (Cons x xs)
  then show ?case by (subst end_of.simps) (simp add: algebra_simps)
qed


section \<open>Comparing\<close>

lemma byte_diff: "uint (x :: u8) - uint y = 0 \<longleftrightarrow> x = y" "uint (x :: u8) - uint y < 0 \<longleftrightarrow> x < y"
  by (simp_all add: word_less_def word_uint_eq_iff)

lemma strcmp_cstr:
  "cstr m cs xs \<Longrightarrow> cstr m ct ys \<Longrightarrow>
     \<exists>r. strcmp cs ct m = Some r \<and> (r = 0 \<longleftrightarrow> xs = ys) \<and> (r < 0 \<longleftrightarrow> (xs, ys) \<in> lexord {(x, y). x < y})"
proof (induction xs arbitrary: cs ct ys)
  case Nil
  then have "strcmp cs ct m = Some (uint (0 :: u8) - uint (m ct))" by (subst strcmp.simps) simp
  then show ?case using Nil byte_diff [of 0 "m ct"] by (cases ys) (auto simp: word_gt_0)
next
  case (Cons x xs)
  show ?case
  proof (cases "ys \<noteq> [] \<and> hd ys = x")
    case True
    then obtain ys' where ys: "ys = x # ys'" by (cases ys) auto
    then have "strcmp cs ct m = strcmp (cs + 1) (ct + 1) m" using Cons.prems by (subst strcmp.simps) simp
    then show ?thesis using ys Cons.prems Cons.IH [of "cs + 1" "ct + 1" ys'] by simp
  next
    case False
    then have "strcmp cs ct m = Some (uint x - uint (m ct))" using Cons.prems
      by (subst strcmp.simps) (cases ys; auto)
    then show ?thesis using False Cons.prems byte_diff [of x "m ct"] by (cases ys) auto
  qed
qed

section \<open>Bounded copies\<close>

lemma pad_loop_put: "pad_loop n d m = put d (replicate n 0) m"
  by (induction n arbitrary: d m) simp_all

lemma ncpy_loop_cstr:
  assumes "cstr m s xs" "length xs < n" "rng d (Suc (length xs)) \<inter> rng s (Suc (length xs)) = {}"
  shows "ncpy_loop n d s m = (n - length xs, d + of_nat (Suc (length xs)), put d (xs @ [0]) m)"
  using assms
proof (induction xs arbitrary: d s m n)
  case Nil
  then show ?case by (cases n) (simp_all add: Let_def fun_upd_def)
next
  case (Cons x xs)
  obtain k where k: "n = Suc k" using Cons.prems by (cases n) auto
  have "cstr (m(d := x)) (s + 1) xs = cstr m (s + 1) xs"
    by (rule cstr_unchanged) (use Cons.prems(3) in \<open>auto simp: rng_Suc\<close>)
  moreover have "rng (d + 1) (Suc (length xs)) \<inter> rng (s + 1) (Suc (length xs)) = {}"
    using Cons.prems(3) rng_Suc [of d "Suc (length xs)"] rng_Suc [of s "Suc (length xs)"] by auto
  ultimately have "ncpy_loop k (d + 1) (s + 1) (m(d := x)) =
      (k - length xs, d + 1 + of_nat (Suc (length xs)), put (d + 1) (xs @ [0]) (m(d := x)))"
    using Cons.prems k by (intro Cons.IH) (auto simp: fun_upd_def)
  then show ?case using Cons.prems k by (simp only: ncpy_loop.simps put.simps append_Cons Let_def) simp
qed

lemma strncpy_exact:
  assumes "cstr m src xs" "int (length xs) < count" "rng dest (Suc (length xs)) \<inter> rng src (Suc (length xs)) = {}"
  shows "strncpy dest src count m = (dest, put dest (xs @ replicate (Suc (nat count - length xs)) 0) m)"
proof -
  have "length xs < nat count" using assms(2) by simp
  then show ?thesis
    using ncpy_loop_cstr [OF assms(1) _ assms(3), of "nat count"]
    by (simp add: strncpy_def pad_loop_put put_append [of _ xs] put_append [of _ "xs @ [0]", simplified] algebra_simps)
qed


section \<open>Moving memory\<close>

lemma unat_plus_nat: "unat d + i < 2^64 \<Longrightarrow> unat (d + of_nat i :: u64) = unat d + i"
  by (simp add: unat_word_ariths unat_of_nat)

lemma plus_nat_eq_iff:
  "unat d + i < 2^64 \<Longrightarrow> unat s + j < 2^64 \<Longrightarrow> d + of_nat i = (s + of_nat j :: u64) \<longleftrightarrow> unat d + i = unat s + j"
  by (simp add: word_unat_eq_iff unat_plus_nat)

text \<open>\<open>moved d s n m m'\<close>: the \<open>n\<close> bytes at \<open>s\<close> have been moved to \<open>d\<close>, and nothing else changed.\<close>

definition moved :: "u64 \<Rightarrow> u64 \<Rightarrow> nat \<Rightarrow> bytes \<Rightarrow> bytes \<Rightarrow> bool" where
  "moved d s n m m' \<longleftrightarrow> (\<forall>i<n. m' (d + of_nat i) = m (s + of_nat i)) \<and> (\<forall>q. q \<notin> rng d n \<longrightarrow> m' q = m q)"

lemma up_loop_moved:
  "unat d + n < 2^64 \<Longrightarrow> unat s + n < 2^64 \<Longrightarrow> d \<le> s \<Longrightarrow> moved d s n m (up_loop n d s m)"
proof (induction n arbitrary: d s m)
  case (Suc n)
  have u: "unat (d + 1) = unat d + 1" "unat (s + 1) = unat s + 1"
    using Suc.prems unat_plus_nat [of d 1] unat_plus_nat [of s 1] by auto
  have "moved (d + 1) (s + 1) n (m(d := m s)) (up_loop n (d + 1) (s + 1) (m(d := m s)))"
    using Suc.prems by (intro Suc.IH) (simp_all add: u word_le_nat_alt)
  then have IH: "up_loop (Suc n) d s m (d + 1 + of_nat i) = (m(d := m s)) (s + 1 + of_nat i)" if "i < n" for i
    using that by (simp add: moved_def)
  have out: "up_loop (Suc n) d s m q = (m(d := m s)) q" if "q \<notin> rng (d + 1) n" for q
    using \<open>moved (d + 1) _ _ _ _\<close> that by (simp add: moved_def)
  have "up_loop (Suc n) d s m (d + of_nat i) = m (s + of_nat i)" if i: "i < Suc n" for i
  proof (cases i)
    case 0
    then show ?thesis using out [of d] not_in_rng_next [of n d] Suc.prems by simp
  next
    case (Suc j)
    have "s + of_nat i \<noteq> d + of_nat 0"
      using Suc.prems i Suc by (subst plus_nat_eq_iff) (auto simp: word_le_nat_alt)
    then show ?thesis using IH [of j] i Suc by (simp add: add.assoc)
  qed
  moreover have "up_loop (Suc n) d s m q = m q" if "q \<notin> rng d (Suc n)" for q
    using out [of q] that by (simp add: rng_Suc)
  ultimately show ?case by (simp add: moved_def)
qed (simp add: moved_def)

lemma rng_Suc_top: "rng d (Suc n) = insert (d + of_nat n) (rng d n)"
  by (simp add: rng_def lessThan_Suc)

lemma down_loop_moved:
  "unat d + n < 2^64 \<Longrightarrow> unat s + n < 2^64 \<Longrightarrow> s \<le> d \<Longrightarrow> moved d s n m (down_loop n (d + of_nat n) (s + of_nat n) m)"
proof (induction n arbitrary: m)
  case (Suc n)
  let ?m = "m(d + of_nat n := m (s + of_nat n))"
  have e: "down_loop (Suc n) (d + of_nat (Suc n)) (s + of_nat (Suc n)) m = down_loop n (d + of_nat n) (s + of_nat n) ?m"
    by simp
  have IH: "moved d s n ?m (down_loop n (d + of_nat n) (s + of_nat n) ?m)"
    using Suc.prems by (intro Suc.IH) simp_all
  have ne: "s + of_nat i \<noteq> d + of_nat n" if "i < n" for i
    using Suc.prems that by (subst plus_nat_eq_iff) (auto simp: word_le_nat_alt)
  have nr: "d + of_nat n \<notin> rng d n"
  proof
    assume "d + of_nat n \<in> rng d n"
    then obtain i where "i < n" "d + of_nat n = d + of_nat i" by (auto simp: rng_def)
    then show False using Suc.prems plus_nat_eq_iff [of d n d i] by simp
  qed
  show ?case unfolding e moved_def
  proof (intro conjI allI impI)
    fix i assume "i < Suc n"
    then consider "i < n" | "i = n" by linarith
    then show "down_loop n (d + of_nat n) (s + of_nat n) ?m (d + of_nat i) = m (s + of_nat i)"
      by cases (use IH ne nr in \<open>simp_all add: moved_def\<close>)
  next
    fix q assume "q \<notin> rng d (Suc n)"
    then show "down_loop n (d + of_nat n) (s + of_nat n) ?m q = m q"
      using IH by (simp add: moved_def rng_Suc_top)
  qed
qed (simp add: moved_def)

lemma memmove_moved:
  "unat dest + unat n < 2^64 \<Longrightarrow> unat src + unat n < 2^64 \<Longrightarrow>
     fst (memmove dest src n m) = dest \<and> moved dest src (unat n) m (snd (memmove dest src n m))"
  using up_loop_moved [of dest "unat n" src m] down_loop_moved [of dest "unat n" src m]
  by (auto simp: memmove_def not_less)

lemma set_loop_put: "set_loop n p c m = put p (replicate n c) m"
  by (induction n arbitrary: p m) simp_all


section \<open>Searching\<close>

lemma among_cstr: "cstr m p ys \<Longrightarrow> among p c m = Some (c \<in> set ys)"
proof (induction ys arbitrary: p)
  case Nil
  then show ?case by (subst among.simps) simp
next
  case (Cons y ys)
  then show ?case by (subst among.simps) auto
qed

lemma span_loop_cstr:
  "cstr m s xs \<Longrightarrow> cstr m ct ys \<Longrightarrow>
     span_loop want s ct m = Some (s + of_nat (length (takeWhile (\<lambda>x. (x \<in> set ys) = want) xs)))"
proof (induction xs arbitrary: s)
  case Nil
  then show ?case by (subst span_loop.simps) simp
next
  case (Cons x xs)
  then show ?case using among_cstr [of m ct ys x] by (subst span_loop.simps) (auto simp: add.assoc)
qed

lemma cstr_at: "cstr m p (xs @ ys) \<Longrightarrow> cstr m (p + of_nat (length xs)) ys"
  by (induction xs arbitrary: p) (simp_all add: add.assoc [symmetric])

lemma match_here_cstr:
  "cstr m p xs \<Longrightarrow> cstr m q ys \<Longrightarrow> match_here p q m = Some (take (length ys) xs = ys)"
proof (induction ys arbitrary: p q xs)
  case Nil
  then show ?case by (subst match_here.simps) simp
next
  case (Cons y ys)
  then show ?case by (subst match_here.simps) (cases xs; auto)
qed

text \<open>The first position at which \<open>ys\<close> occurs in \<open>xs\<close>.\<close>

fun first_sub :: "'a list \<Rightarrow> 'a list \<Rightarrow> nat option" where
  "first_sub ys [] = None"
| "first_sub ys (x # xs) = (if take (length ys) (x # xs) = ys then Some 0 else map_option Suc (first_sub ys xs))"

lemma str_loop_cstr:
  "cstr m s xs \<Longrightarrow> cstr m ct ys \<Longrightarrow>
     str_loop s ct m = Some (case first_sub ys xs of None \<Rightarrow> 0 | Some i \<Rightarrow> s + of_nat i)"
proof (induction xs arbitrary: s)
  case Nil
  then show ?case by (subst str_loop.simps) simp
next
  case (Cons x xs)
  then show ?case using match_here_cstr [OF Cons.prems]
    by (subst str_loop.simps) (auto simp: add.assoc split: option.splits)
qed

lemma first_sub_spec:
  "ys \<noteq> [] \<Longrightarrow> first_sub ys xs = Some i \<longleftrightarrow>
     i < length xs \<and> take (length ys) (drop i xs) = ys \<and> (\<forall>j<i. take (length ys) (drop j xs) \<noteq> ys)"
proof (induction xs arbitrary: i)
  case (Cons x xs)
  show ?case
  proof (cases "take (length ys) (x # xs) = ys")
    case True
    then show ?thesis by (cases i) auto
  next
    case False
    then show ?thesis using Cons by (cases i) (auto simp: All_less_Suc2)
  qed
qed simp

section \<open>Character classes\<close>

lemma ctype_nth:
  assumes "n < 256"
  shows "ctype ! n =
     (if n < 9 then cC else if n < 14 then cC OR cS else if n < 32 then cC else if n = 32 then cS OR cSP
      else if n < 48 then cP else if n < 58 then cD else if n < 65 then cP else if n < 71 then cU OR cX
      else if n < 91 then cU else if n < 97 then cP else if n < 103 then cL OR cX else if n < 123 then cL
      else if n < 127 then cP else if n = 127 then cC else 0)"
  using assms unfolding ctype_def by (auto simp: nth_append nth_Cons' less_diff_conv2)


lemma cstr_cut:
  "cstr m p (tok @ d # rest) \<Longrightarrow> length tok < 2^64 \<Longrightarrow> cstr (m(p + of_nat (length tok) := 0)) p tok"
proof (induction tok arbitrary: p)
  case (Cons x tok)
  have "p \<notin> rng (p + 1) (Suc (length tok))" using not_in_rng_next [of "Suc (length tok)" p] Cons.prems by simp
  then have "p + of_nat (length (x # tok)) \<noteq> p" by (auto simp: rng_Suc_top add.assoc)
  moreover have "cstr (m(p + 1 + of_nat (length tok) := 0)) (p + 1) tok"
    by (rule Cons.IH) (use Cons.prems in simp_all)
  ultimately show ?case using Cons.prems by (simp add: add.assoc fun_upd_def)
qed simp

lemma takeWhile_split: "(\<forall>x\<in>set xs. P x) \<Longrightarrow> ys = [] \<or> \<not> P (hd ys) \<Longrightarrow> takeWhile P (xs @ ys) = xs"
  by (cases ys) (auto simp: takeWhile_append)

lemmas class_bits = cU_def cL_def cD_def cC_def cP_def cS_def cX_def cSP_def

lemma byte_less: "unat (c :: u8) < 256"
  using unsigned_less [of c] by simp

lemma islower_iff: "islower c \<longleftrightarrow> 97 \<le> unat c \<and> unat c \<le> 122"
  using byte_less [of c] by (simp add: islower_def ctype_nth class_bits)

lemma isupper_iff: "isupper c \<longleftrightarrow> 65 \<le> unat c \<and> unat c \<le> 90"
  using byte_less [of c] by (simp add: isupper_def ctype_nth class_bits)

lemma isdigit_iff: "isdigit c \<longleftrightarrow> 48 \<le> unat c \<and> unat c \<le> 57"
  using byte_less [of c] by (simp add: isdigit_def ctype_nth class_bits)

lemma isspace_iff: "isspace c \<longleftrightarrow> 9 \<le> unat c \<and> unat c \<le> 13 \<or> unat c = 32"
  using byte_less [of c] by (simp add: isspace_def ctype_nth class_bits)

section \<open>Properties\<close>

text \<open>C30: \<open>memmove\<close> moves the bytes correctly when the two areas overlap in either direction, writes nothing
  outside the target and returns the target.\<close>

theorem memmove_correct:
  assumes "unat dest + unat n < 2^64" "unat src + unat n < 2^64"
  shows "fst (memmove dest src n m) = dest \<and>
     (\<forall>i<unat n. snd (memmove dest src n m) (dest + of_nat i) = m (src + of_nat i)) \<and>
     (\<forall>q. q \<notin> rng dest (unat n) \<longrightarrow> snd (memmove dest src n m) q = m q)"
  using memmove_moved [OF assms, of m] by (simp add: moved_def)

theorem memmove_correct_witness:
  "snd (memmove 0x1001 0x1000 2 ((\<lambda>_. 0)(0x1000 := 7, 0x1001 := 8))) 0x1001 = 7 \<and>
   snd (memmove 0x1001 0x1000 2 ((\<lambda>_. 0)(0x1000 := 7, 0x1001 := 8))) 0x1002 = 8"
proof -
  let ?m = "(\<lambda>_. 0)(0x1000 := 7, 0x1001 := 8) :: bytes"
  have "\<forall>i<unat (2 :: u64). snd (memmove 0x1001 0x1000 2 ?m) (0x1001 + of_nat i) = ?m (0x1000 + of_nat i)"
    using memmove_correct [of "0x1001" 2 "0x1000" ?m] by simp
  from this [rule_format, of 0] this [rule_format, of 1] show ?thesis by simp
qed



text \<open>C32: \<open>strcmp\<close> returns on two strings, with 0 exactly when they are equal and a negative number exactly
  when the first comes first in the dictionary order of unsigned bytes.\<close>

theorem strcmp_order:
  assumes "cstr m cs xs" "cstr m ct ys"
  shows "\<exists>r. strcmp cs ct m = Some r \<and> (r = 0 \<longleftrightarrow> xs = ys) \<and> (r < 0 \<longleftrightarrow> (xs, ys) \<in> lexord {(x, y). x < y})"
  by (rule strcmp_cstr [OF assms])

theorem strcmp_order_witness:
  "\<exists>r. strcmp 0x1000 0x2000 ((\<lambda>_. 0)(0x1000 := 97, 0x2000 := 98)) = Some r \<and> r < 0"
  using strcmp_order [of "(\<lambda>_. 0)(0x1000 := 97, 0x2000 := 98)" "0x1000" "[97]" "0x2000" "[98]"] by auto

text \<open>\<open>strncpy\<close> of a string shorter than \<open>count\<close> writes one byte more than \<open>count\<close>: the byte at
  \<open>dest + count\<close> becomes zero.\<close>

theorem strncpy_overruns:
  assumes "cstr m src xs" "int (length xs) < count" "nat count < 2^63"
    and "rng dest (Suc (length xs)) \<inter> rng src (Suc (length xs)) = {}"
  shows "snd (strncpy dest src count m) (dest + of_nat (nat count)) = 0"
proof -
  let ?ys = "xs @ replicate (Suc (nat count - length xs)) (0 :: u8)"
  have "snd (strncpy dest src count m) = put dest ?ys m" using strncpy_exact [OF assms(1,2,4)] by simp
  moreover have "put dest ?ys m (dest + of_nat (nat count)) = ?ys ! nat count"
    by (rule put_in) (use assms(2,3) in auto)
  moreover have "?ys ! nat count = 0" using assms(2) by (auto simp: nth_append simp del: replicate_Suc)
  ultimately show ?thesis by simp
qed

theorem strncpy_overruns_witness:
  "snd (strncpy 0x2000 0x1000 4 ((\<lambda>_. 0)(0x1000 := 97, 0x2004 := 1))) 0x2004 = 0"
  using strncpy_overruns [of "(\<lambda>_. 0)(0x1000 := 97, 0x2004 := 1)" "0x1000" "[97]" 4 "0x2000"]
  by (simp add: rng_def lessThan_Suc)

text \<open>\<open>toupper\<close> maps the lower-case letters onto the upper-case ones, while \<open>tolower\<close> maps every
  upper-case letter outside ASCII.\<close>

theorem toupper_tolower:
  "(\<forall>c. islower c \<longrightarrow> toupper c = uint c - 32 \<and> isupper (word_of_int (toupper c))) \<and>
   (\<forall>c. isupper c \<longrightarrow> tolower c > 127)"
proof -
  have u: "unat (word_of_int (uint c - 32) :: u8) = unat c - 32" if "32 \<le> unat c" for c :: u8
  proof -
    have "word_of_int (uint c - 32) = (of_nat (unat c - 32) :: u8)" using that by simp
    then show ?thesis using byte_less [of c] by (simp only: unat_of_nat) simp
  qed
  have "toupper c = uint c - 32 \<and> isupper (word_of_int (toupper c))" if "islower c" for c
    using that u [of c] by (auto simp: toupper_def islower_iff isupper_iff)
  moreover have "tolower c > 127" if "isupper c" for c
  proof -
    have "0 \<le> uint c" by simp
    then have "127 < uint c + (97 + 65)" by linarith
    then show ?thesis using that by (simp only: tolower_def if_True)
  qed
  ultimately show ?thesis by blast
qed

theorem toupper_tolower_witness:
  "islower 97 \<and> toupper 97 = 65 \<and> isupper 65 \<and> tolower 65 > 127"
proof -
  have "islower 97" "isupper 65" by (simp_all add: islower_iff isupper_iff)
  then show ?thesis using toupper_tolower by auto
qed

end
