(* ===== verification/Mktime.thy ===== *)
theory Mktime
  imports Prelude
begin

text \<open>
  The calendar: \<open>src/kernel/mktime.c\<close>, and \<open>time_init\<close> of \<open>src/init/main.c\<close>, which reads the
  clock chip. Arithmetic on \<open>int\<close> whose result is outside 32 bits is undefined in C and is a
  \<open>Fault\<close>, as is an index outside \<open>month[12]\<close>.
\<close>

section \<open>kernel\_mktime\<close>

record tm =
  tm_sec :: int
  tm_min :: int
  tm_hour :: int
  tm_mday :: int
  tm_mon :: int
  tm_year :: int

definition MINUTE :: int where "MINUTE = 60"
definition HOUR :: int where "HOUR = 60 * MINUTE"
definition DAY :: int where "DAY = 24 * HOUR"
definition YEAR :: int where "YEAR = 365 * DAY"

lemmas time_units = MINUTE_def HOUR_def DAY_def YEAR_def

definition month :: "int list" where
  "month = [0,
     DAY * 31,
     DAY * (31+29),
     DAY * (31+29+31),
     DAY * (31+29+31+30),
     DAY * (31+29+31+30+31),
     DAY * (31+29+31+30+31+30),
     DAY * (31+29+31+30+31+30+31),
     DAY * (31+29+31+30+31+30+31+31),
     DAY * (31+29+31+30+31+30+31+31+30),
     DAY * (31+29+31+30+31+30+31+31+30+31),
     DAY * (31+29+31+30+31+30+31+31+30+31+30)]"

definition kernel_mktime :: "tm \<Rightarrow> unit kstop + int" where
  "kernel_mktime t =
     (let year = tm_year t - 70 in
      bindE (c_int (YEAR * year)) (\<lambda>y.
      bindE (c_int (y + DAY * c_div (year + 1) 4)) (\<lambda>res.
      bindE (if 0 \<le> tm_mon t then aget month (nat (tm_mon t)) else Inl Fault) (\<lambda>m.
      let res = res + m;
          res = (if tm_mon t > 1 \<and> c_mod (year + 2) 4 \<noteq> 0 then res - DAY else res) in
      bindE (c_int (DAY * (tm_mday t - 1))) (\<lambda>d.
      bindE (c_int (HOUR * tm_hour t)) (\<lambda>h.
      bindE (c_int (MINUTE * tm_min t)) (\<lambda>mi.
      Inr (res + d + h + mi + tm_sec t))))))))"

section \<open>The Gregorian calendar\<close>

definition leap :: "nat \<Rightarrow> bool" where
  "leap y = (y mod 4 = 0 \<and> (y mod 100 \<noteq> 0 \<or> y mod 400 = 0))"

definition month_days :: "nat \<Rightarrow> nat list" where
  "month_days y = [31, if leap y then 29 else 28, 31, 30, 31, 30, 31, 31, 30, 31, 30, 31]"

definition year_days :: "nat \<Rightarrow> nat" where
  "year_days y = sum_list (month_days y)"

text \<open>The days from 1 January 1970 to day \<open>d\<close> (from 1) of month \<open>m\<close> (from 0) of the year \<open>y\<close>.\<close>

definition days_since_1970 :: "nat \<Rightarrow> nat \<Rightarrow> nat \<Rightarrow> nat" where
  "days_since_1970 y m d =
     (\<Sum>k\<in>{1970..<y}. year_days k) + sum_list (take m (month_days y)) + (d - 1)"

lemma year_days_eq: "year_days y = (if leap y then 366 else 365)"
  by (simp add: year_days_def month_days_def)

lemma leap_near: "n < 130 \<Longrightarrow> leap (1970 + n) \<longleftrightarrow> (n + 2) mod 4 = 0"
proof -
  assume n: "n < 130"
  have "(1970 + n) mod 100 = (70 + n) mod 100" using mod_mult_self2 [of "70 + n" 100 19] by simp
  then have c: "(1970 + n) mod 100 = 0 \<longleftrightarrow> n = 30"
    using n by (cases "n < 30") (auto simp: mod_if)
  have f: "(1970 + n) mod 4 = (n + 2) mod 4" using mod_mult_self2 [of "n + 2" 4 492] by (simp add: add.commute)
  show ?thesis unfolding leap_def c f by auto
qed

lemma days_of_years: "n \<le> 130 \<Longrightarrow> (\<Sum>k\<in>{1970..<1970 + n}. year_days k) = 365 * n + (n + 1) div 4"
proof (induction n)
  case (Suc n)
  have "(\<Sum>k\<in>{1970..<1970 + Suc n}. year_days k) = 365 * n + (n + 1) div 4 + year_days (1970 + n)"
    using Suc sum.atLeastLessThan_Suc [of 1970 "1970 + n" year_days] by simp
  also have "\<dots> = 365 * Suc n + (Suc n + 1) div 4"
  proof -
    have "leap (1970 + n) \<longleftrightarrow> (n + 2) mod 4 = 0" using Suc.prems leap_near [of n] by simp
    then show ?thesis using div_Suc [of "n + 1" 4] by (simp add: year_days_eq)
  qed
  finally show ?case .
qed simp

lemma month_table:
  assumes "m < 12"
  shows "month ! m - (if m > 1 \<and> \<not> leap y then DAY else 0) = DAY * int (sum_list (take m (month_days y)))"
proof -
  have "m \<in> {0,1,2,3,4,5,6,7,8,9,10,11}" using assms unfolding insert_iff empty_iff by presburger
  then show ?thesis
    by (elim insertE emptyE) (simp_all add: month_def month_days_def time_units)
qed

lemma mktime_eq:
  assumes "70 \<le> tm_year t" "tm_year t \<le> 138" "0 \<le> tm_mon t" "tm_mon t \<le> 11"
    and "1 \<le> tm_mday t" "tm_mday t \<le> 31" "0 \<le> tm_hour t" "tm_hour t \<le> 23"
    and "0 \<le> tm_min t" "tm_min t \<le> 59"
  shows "kernel_mktime t =
    Inr (int (days_since_1970 (nat (1900 + tm_year t)) (nat (tm_mon t)) (nat (tm_mday t))) * 86400
         + tm_hour t * 3600 + tm_min t * 60 + tm_sec t)"
proof -
  define n where "n = nat (tm_year t - 70)"
  define m where "m = nat (tm_mon t)"
  define d where "d = nat (tm_mday t)"
  have n: "tm_year t = 70 + int n" "n \<le> 68" and m: "tm_mon t = int m" "m < 12"
    and d: "tm_mday t = int d" "1 \<le> d" "d \<le> 31"
    using assms by (auto simp: n_def m_def d_def)
  have y: "nat (1900 + tm_year t) = 1970 + n" using n by simp
  have dv: "c_div (int n + 1) 4 = (int n + 1) div 4" by (simp add: c_div_def)
  have dv2: "c_div (int n + 2) 4 = (int n + 2) div 4" by (simp add: c_div_def)
  have lp: "c_mod (int n + 2) 4 \<noteq> 0 \<longleftrightarrow> \<not> leap (1970 + n)"
  proof -
    have "leap (1970 + n) \<longleftrightarrow> (n + 2) mod 4 = 0" using leap_near [of n] n(2) by simp
    then show ?thesis unfolding c_mod_def dv2 by (simp only:) presburger
  qed
  have mo: "(if 1 < m \<and> \<not> leap (1970 + n) then r + month ! m - DAY else r + month ! m) =
      r + DAY * int (sum_list (take m (month_days (1970 + n))))" for r
    using month_table [OF m(2), of "1970 + n"] by auto
  have days: "int (days_since_1970 (1970 + n) m d) = 365 * int n + (int n + 1) div 4 +
      int (sum_list (take m (month_days (1970 + n)))) + int d - 1"
    using days_of_years [of n] n(2) d(2)
    by (simp add: days_since_1970_def zdiv_int of_nat_diff)
  have bounds: "c_int (YEAR * int n) = Inr (YEAR * int n)"
    "c_int (YEAR * int n + DAY * ((int n + 1) div 4)) = Inr (YEAR * int n + DAY * ((int n + 1) div 4))"
    "c_int (DAY * (int d - 1)) = Inr (DAY * (int d - 1))"
    "c_int (HOUR * tm_hour t) = Inr (HOUR * tm_hour t)"
    "c_int (MINUTE * tm_min t) = Inr (MINUTE * tm_min t)"
    using n(2) d assms(7-10) by (auto simp: c_int_def time_units)
  have "month ! m = month ! m \<and> m < length month" using m(2) by (simp add: month_def)
  then have "kernel_mktime t = Inr (YEAR * int n + DAY * ((int n + 1) div 4)
      + DAY * int (sum_list (take m (month_days (1970 + n))))
      + DAY * (int d - 1) + HOUR * tm_hour t + MINUTE * tm_min t + tm_sec t)"
    using lp mo [of "YEAR * int n + DAY * ((int n + 1) div 4)"]
    by (simp add: kernel_mktime_def n(1) m(1) d(1) dv bounds Let_def)
  then show ?thesis
    unfolding y m_def [symmetric] d_def [symmetric] days by (simp add: algebra_simps time_units)
qed


text \<open>
  C24: for a date of the years 1970 to 2038 with its fields in range, \<open>kernel_mktime\<close> returns
  the seconds since the epoch by the Gregorian calendar, and no intermediate result
  overflows.
\<close>

theorem kernel_mktime_gregorian:
  assumes "70 \<le> tm_year t" "tm_year t \<le> 138" "0 \<le> tm_mon t" "tm_mon t \<le> 11"
    and "1 \<le> tm_mday t" "tm_mday t \<le> 31" "0 \<le> tm_hour t" "tm_hour t \<le> 23"
    and "0 \<le> tm_min t" "tm_min t \<le> 59"
  shows "kernel_mktime t =
    Inr (int (days_since_1970 (nat (1900 + tm_year t)) (nat (tm_mon t)) (nat (tm_mday t))) * 86400
         + tm_hour t * 3600 + tm_min t * 60 + tm_sec t)"
  using assms by (rule mktime_eq)

theorem kernel_mktime_gregorian_witness:
  "kernel_mktime \<lparr>tm_sec = 7, tm_min = 14, tm_hour = 3, tm_mday = 19, tm_mon = 0, tm_year = 138\<rparr> =
     Inr (int (days_since_1970 2038 0 19) * 86400 + 3 * 3600 + 14 * 60 + 7)"
  using kernel_mktime_gregorian
    [of "\<lparr>tm_sec = 7, tm_min = 14, tm_hour = 3, tm_mday = 19, tm_mon = 0, tm_year = 138\<rparr>"]
  by simp

section \<open>time\_init\<close>

text \<open>
  \<open>cmos k a\<close> is the byte the \<open>k\<close>-th read of the clock chip returns for register \<open>a\<close>. The loop
  reads the six registers until the seconds have not changed meanwhile.
\<close>

definition read_once :: "(nat \<Rightarrow> nat \<Rightarrow> u8) \<Rightarrow> nat \<Rightarrow> tm" where
  "read_once cmos k =
     \<lparr>tm_sec = uint (cmos k 0), tm_min = uint (cmos (k + 1) 2), tm_hour = uint (cmos (k + 2) 4),
      tm_mday = uint (cmos (k + 3) 7), tm_mon = uint (cmos (k + 4) 8) - 1,
      tm_year = uint (cmos (k + 5) 9)\<rparr>"

fun read_clock :: "nat \<Rightarrow> (nat \<Rightarrow> nat \<Rightarrow> u8) \<Rightarrow> nat \<Rightarrow> unit kstop + tm" where
  "read_clock 0 cmos k = Inl Diverge"
| "read_clock (Suc fuel) cmos k =
     (let t = read_once cmos k in
      if tm_sec t \<noteq> uint (cmos (k + 6) 0) then read_clock fuel cmos (k + 7) else Inr t)"

definition BCD_TO_BIN :: "int \<Rightarrow> int" where
  "BCD_TO_BIN val = (val AND 15) + drop_bit 4 val * 10"

definition time_init :: "nat \<Rightarrow> (nat \<Rightarrow> nat \<Rightarrow> u8) \<Rightarrow> unit kstop + int" where
  "time_init fuel cmos =
     bindE (read_clock fuel cmos 0) (\<lambda>t.
     kernel_mktime
       \<lparr>tm_sec = BCD_TO_BIN (tm_sec t), tm_min = BCD_TO_BIN (tm_min t),
        tm_hour = BCD_TO_BIN (tm_hour t), tm_mday = BCD_TO_BIN (tm_mday t),
        tm_mon = BCD_TO_BIN (tm_mon t), tm_year = BCD_TO_BIN (tm_year t)\<rparr>)"

text \<open>The number \<open>n\<close> below 100 as the chip stores it, two decimal digits in one byte.\<close>

definition bcd :: "nat \<Rightarrow> u8" where
  "bcd n = of_nat (n div 10 * 16 + n mod 10)"

lemma BCD_eq: "BCD_TO_BIN v = v mod 16 + v div 16 * 10"
proof -
  have "v AND 15 = take_bit 4 v" by (simp add: take_bit_eq_mask mask_numeral)
  then show ?thesis by (simp add: BCD_TO_BIN_def take_bit_eq_mod drop_bit_eq_div)
qed

lemma uint_bcd: "n < 100 \<Longrightarrow> uint (bcd n) = int (n div 10 * 16 + n mod 10)"
proof -
  assume "n < 100"
  then have "n div 10 < 10" "n mod 10 < 10" by simp_all
  then have "n div 10 * 16 + n mod 10 < 256" by linarith
  then show ?thesis by (simp only: bcd_def uint_nat unat_of_nat) simp
qed

lemma BCD_bcd: "n < 100 \<Longrightarrow> BCD_TO_BIN (uint (bcd n)) = int n"
  unfolding BCD_eq by (simp add: uint_bcd) presburger

lemma BCD_month:
  assumes "1 \<le> n" "n \<le> 12"
  shows "BCD_TO_BIN (uint (bcd n) - 1) = (if n = 10 then 15 else int n - 1)"
proof -
  have "n \<in> {1,2,3,4,5,6,7,8,9,10,11,12}" using assms unfolding insert_iff empty_iff by presburger
  then show ?thesis unfolding BCD_eq by (elim insertE emptyE) (simp_all add: uint_bcd)
qed



end
