(* ===== verification/Sched.thy ===== *)
theory Sched
  imports Memory
begin

text \<open>
  Tasks and the scheduler: the structures of \<open>src/include/linux/sched.h\<close>, the descriptors of
  \<open>src/include/linux/head.h\<close> and \<open>src/include/asm/system.h\<close>, and \<open>src/kernel/sched.c\<close>.

  A \<open>struct task_struct *\<close> is the address of the page of the task; \<open>task_at\<close> gives the
  structure there. A \<open>long\<close> is an \<open>int\<close>, a signal mask a 64-bit word. Pointers to open files and
  inodes are indices into their tables plus one, with 0 for \<open>NULL\<close>.

  \<open>schedule\<close> gives the processor away: \<open>run\<close> is what the other tasks and the interrupts do to
  the state until the task is switched back in, an arbitrary function. The task comes back only
  through a \<open>switch_to\<close> that made it \<open>current\<close> again and \<open>rsp0\<close> the top of its stack.
\<close>

section \<open>Descriptors\<close>

record desc_struct =
  d_a :: u32
  d_b :: u32

text \<open>
  The byte stores of \<open>_set_base\<close> and \<open>_set_limit\<close> on the two words: bytes 2 and 3 are the upper
  half of \<open>a\<close>, byte 4 the lowest and byte 7 the highest byte of \<open>b\<close>.
\<close>

definition set_base :: "desc_struct \<Rightarrow> u64 \<Rightarrow> desc_struct" where
  "set_base d base =
     \<lparr>d_a = (d_a d AND 0xFFFF) OR push_bit 16 (ucast (base AND 0xFFFF)),
      d_b = (d_b d AND 0x00FFFF00) OR ucast (drop_bit 16 base AND 0xFF)
              OR push_bit 24 (ucast (drop_bit 24 base AND 0xFF))\<rparr>"

definition set_limit_raw :: "desc_struct \<Rightarrow> u64 \<Rightarrow> desc_struct" where
  "set_limit_raw d limit =
     \<lparr>d_a = (d_a d AND 0xFFFF0000) OR ucast (limit AND 0xFFFF),
      d_b = (d_b d AND 0xFFF0FFFF) OR push_bit 16 (ucast (drop_bit 16 limit AND 0x0F))\<rparr>"

definition set_limit :: "desc_struct \<Rightarrow> u64 \<Rightarrow> desc_struct" where
  "set_limit d limit = set_limit_raw d (drop_bit 12 (limit - 1))"

definition get_base :: "desc_struct \<Rightarrow> u64" where
  "get_base d = ucast (drop_bit 16 (d_a d)) OR push_bit 16 (ucast (d_b d AND 0xFF))
     OR push_bit 24 (ucast (drop_bit 24 (d_b d)))"

text \<open>
  \<open>lsl\<close> on a descriptor: the 20-bit limit, counted in pages of 4096 bytes when the granularity
  bit is set.
\<close>

definition lsl_limit :: "desc_struct \<Rightarrow> u64" where
  "lsl_limit d =
     (let l = ucast ((d_a d AND 0xFFFF) OR (d_b d AND 0xF0000)) in
      if has_bits (d_b d) 0x800000 then push_bit 12 l OR 0xFFF else l)"

text \<open>\<open>_set_tssldt_desc\<close>: a 16-byte system descriptor, as two entries of the table.\<close>

definition tssldt_desc :: "u64 \<Rightarrow> u32 \<Rightarrow> u32 \<Rightarrow> desc_struct \<times> desc_struct" where
  "tssldt_desc addr limit ty =
     (\<lparr>d_a = (limit AND 0xFFFF) OR push_bit 16 (ucast (addr AND 0xFFFF)),
       d_b = ucast (drop_bit 16 addr AND 0xFF) OR push_bit 8 (ty OR 0x80)
               OR push_bit 16 (drop_bit 16 limit AND 0x0F)
               OR push_bit 24 (ucast (drop_bit 24 addr AND 0xFF))\<rparr>,
      \<lparr>d_a = ucast (drop_bit 32 addr), d_b = 0\<rparr>)"

text \<open>\<open>_set_gate\<close>: an entry of the interrupt table.\<close>

record idt_entry =
  offset_low :: u16
  selector :: u16
  ist :: u8
  type_attr :: u8
  offset_mid :: u16
  offset_high :: u32
  idt_reserved :: u32

definition gate :: "u8 \<Rightarrow> u8 \<Rightarrow> u64 \<Rightarrow> idt_entry" where
  "gate ty dpl addr =
     \<lparr>offset_low = ucast (addr AND 0xFFFF), selector = 0x08, ist = 0,
      type_attr = 0x80 OR push_bit 5 dpl OR ty,
      offset_mid = ucast (drop_bit 16 addr AND 0xFFFF), offset_high = ucast (drop_bit 32 addr),
      idt_reserved = 0\<rparr>"

section \<open>Tasks\<close>

abbreviation NR_TASKS :: nat where "NR_TASKS \<equiv> 64"
abbreviation NR_OPEN :: nat where "NR_OPEN \<equiv> 20"
abbreviation HZ :: int where "HZ \<equiv> 100"
abbreviation PAGE_SIZE :: u64 where "PAGE_SIZE \<equiv> 4096"

abbreviation TASK_RUNNING :: int where "TASK_RUNNING \<equiv> 0"
abbreviation TASK_INTERRUPTIBLE :: int where "TASK_INTERRUPTIBLE \<equiv> 1"
abbreviation TASK_UNINTERRUPTIBLE :: int where "TASK_UNINTERRUPTIBLE \<equiv> 2"
abbreviation TASK_ZOMBIE :: int where "TASK_ZOMBIE \<equiv> 3"
abbreviation TASK_STOPPED :: int where "TASK_STOPPED \<equiv> 4"

abbreviation SIGINT :: nat where "SIGINT \<equiv> 2"
abbreviation SIGPIPE :: nat where "SIGPIPE \<equiv> 13"
abbreviation SIGALRM :: nat where "SIGALRM \<equiv> 14"
abbreviation SIGCHLD :: nat where "SIGCHLD \<equiv> 17"

record thread_struct =
  th_rsp :: u64
  th_rip :: u64
  th_rbx :: u64
  th_rbp :: u64
  th_r12 :: u64
  th_r13 :: u64
  th_r14 :: u64
  th_r15 :: u64
  th_fs :: u64
  th_gs :: u64

record task_struct =
  t_state :: int
  t_counter :: int
  t_priority :: int
  t_signal :: u64
  t_sig_restorer :: u64
  t_sig_fn :: "u64 list"
  t_exit_code :: int
  t_end_code :: u64
  t_end_data :: u64
  t_brk :: u64
  t_start_stack :: u64
  t_pid :: int
  t_father :: int
  t_pgrp :: int
  t_session :: int
  t_leader :: int
  t_uid :: u16
  t_euid :: u16
  t_suid :: u16
  t_gid :: u16
  t_egid :: u16
  t_sgid :: u16
  t_alarm :: int
  t_utime :: int
  t_stime :: int
  t_cutime :: int
  t_cstime :: int
  t_start_time :: int
  t_used_math :: u16
  t_tty :: int
  t_umask :: u16
  t_pwd :: nat
  t_root :: nat
  t_close_on_exec :: u64
  t_filp :: "nat list"
  t_ldt :: "desc_struct list"
  t_thread :: thread_struct
  t_i387 :: "u8 list"

definition INIT_TASK :: task_struct where
  "INIT_TASK =
     \<lparr>t_state = 0, t_counter = 15, t_priority = 15,
      t_signal = 0, t_sig_restorer = 0, t_sig_fn = replicate 32 0,
      t_exit_code = 0, t_end_code = 0, t_end_data = 0, t_brk = 0, t_start_stack = 0,
      t_pid = 0, t_father = -1, t_pgrp = 0, t_session = 0, t_leader = 0,
      t_uid = 0, t_euid = 0, t_suid = 0, t_gid = 0, t_egid = 0, t_sgid = 0,
      t_alarm = 0, t_utime = 0, t_stime = 0, t_cutime = 0, t_cstime = 0, t_start_time = 0,
      t_used_math = 0,
      t_tty = -1, t_umask = 0x5B, t_pwd = 0, t_root = 0, t_close_on_exec = 0,
      t_filp = replicate NR_OPEN 0,
      t_ldt = [\<lparr>d_a = 0, d_b = 0\<rparr>, \<lparr>d_a = 0xFFFF, d_b = 0x00AFFA00\<rparr>,
               \<lparr>d_a = 0xFFFF, d_b = 0x00CFF200\<rparr>],
      t_thread = \<lparr>th_rsp = 0, th_rip = 0, th_rbx = 0, th_rbp = 0, th_r12 = 0, th_r13 = 0,
                  th_r14 = 0, th_r15 = 0, th_fs = 0, th_gs = 0\<rparr>,
      t_i387 = replicate 512 0\<rparr>"

record sched = mm +
  task_at :: "u64 \<Rightarrow> task_struct"
  task :: "u64 list"
  current :: u64
  last_task_used_math :: u64
  jiffies :: int
  startup_time :: int
  last_pid :: u64
  rsp0 :: u64 \<comment> \<open>\<open>init_tss.rsp0\<close>\<close>
  gdt :: "desc_struct list"
  idt :: "idt_entry list"
  outs :: "(u16 \<times> u8) list" \<comment> \<open>the bytes written to ports, latest first\<close>
  init_task :: u64 \<comment> \<open>the address of \<open>init_task.task\<close>, fixed by the linker\<close>
  fpu :: "u8 list" \<comment> \<open>the floating-point registers\<close>
  umem :: "u64 \<Rightarrow> u8" \<comment> \<open>memory seen through \<open>fs\<close>, by byte\<close>

definition upd_task :: "u64 \<Rightarrow> (task_struct \<Rightarrow> task_struct) \<Rightarrow> 'a sched_scheme \<Rightarrow> 'a sched_scheme" where
  "upd_task p f s = s\<lparr>task_at := (task_at s)(p := f (task_at s p))\<rparr>"

abbreviation cur :: "'a sched_scheme \<Rightarrow> task_struct" where
  "cur s \<equiv> task_at s (current s)"

definition upd_cur :: "(task_struct \<Rightarrow> task_struct) \<Rightarrow> 'a sched_scheme \<Rightarrow> 'a sched_scheme" where
  "upd_cur f s = upd_task (current s) f s"

definition outb :: "u8 \<Rightarrow> u16 \<Rightarrow> 'a sched_scheme \<Rightarrow> 'a sched_scheme" where
  "outb v port s = s\<lparr>outs := (port, v) # outs s\<rparr>"

definition set_gate :: "nat \<Rightarrow> u8 \<Rightarrow> u8 \<Rightarrow> u64 \<Rightarrow> 'a sched_scheme \<Rightarrow> 'a sched_scheme" where
  "set_gate n ty dpl addr s = s\<lparr>idt := (idt s)[n := gate ty dpl addr]\<rparr>"

definition set_intr_gate :: "nat \<Rightarrow> u64 \<Rightarrow> 'a sched_scheme \<Rightarrow> 'a sched_scheme" where
  "set_intr_gate n addr = set_gate n 14 0 addr"

definition set_trap_gate :: "nat \<Rightarrow> u64 \<Rightarrow> 'a sched_scheme \<Rightarrow> 'a sched_scheme" where
  "set_trap_gate n addr = set_gate n 15 0 addr"

definition set_system_gate :: "nat \<Rightarrow> u64 \<Rightarrow> 'a sched_scheme \<Rightarrow> 'a sched_scheme" where
  "set_system_gate n addr = set_gate n 15 3 addr"

definition set_tssldt :: "nat \<Rightarrow> u64 \<Rightarrow> u32 \<Rightarrow> u32 \<Rightarrow> 'a sched_scheme \<Rightarrow> 'a sched_scheme" where
  "set_tssldt n addr limit ty s =
     (let (lo, hi) = tssldt_desc addr limit ty in s\<lparr>gdt := (gdt s)[n := lo, Suc n := hi]\<rparr>)"

definition set_tss_desc :: "nat \<Rightarrow> u64 \<Rightarrow> 'a sched_scheme \<Rightarrow> 'a sched_scheme" where
  "set_tss_desc n addr = set_tssldt n addr 103 0x09"

definition set_ldt_desc :: "nat \<Rightarrow> u64 \<Rightarrow> 'a sched_scheme \<Rightarrow> 'a sched_scheme" where
  "set_ldt_desc n addr = set_tssldt n addr 23 0x02"

text \<open>\<open>1<<(sig-1)\<close> is an \<open>int\<close>, widened with its sign to the \<open>long\<close> it is ORed to.\<close>

definition sig_bit :: "nat \<Rightarrow> u64" where
  "sig_bit sig = scast (push_bit (sig - 1) (1 :: u32))"

definition raise_sig :: "nat \<Rightarrow> task_struct \<Rightarrow> task_struct" where
  "raise_sig sig t = t\<lparr>t_signal := t_signal t OR sig_bit sig\<rparr>"

definition set_state :: "int \<Rightarrow> u64 \<Rightarrow> 'a sched_scheme \<Rightarrow> 'a sched_scheme" where
  "set_state st p s = upd_task p (t_state_update (\<lambda>_. st)) s"

definition int32 :: "int \<Rightarrow> int" where
  "int32 x = signed_take_bit 31 x"

definition CURRENT_TIME :: "'a sched_scheme \<Rightarrow> int" where
  "CURRENT_TIME s = startup_time s + c_div (jiffies s) HZ"

text \<open>\<open>get_limit\<close> reads the LDT the processor has loaded, that of task 0: nothing reloads it.\<close>

definition get_limit :: "nat \<Rightarrow> 'a sched_scheme \<Rightarrow> u64" where
  "get_limit sel s = lsl_limit (t_ldt (task_at s (init_task s)) ! (sel div 8)) + 1"

section \<open>schedule\<close>

text \<open>The slots \<open>LAST_TASK\<close> down to the one after \<open>FIRST_TASK\<close>.\<close>

definition slots_down :: "nat list" where
  "slots_down = rev [1..<NR_TASKS]"

definition check_alarm :: "int \<Rightarrow> task_struct \<Rightarrow> task_struct" where
  "check_alarm now t =
     (let t = (if t_alarm t \<noteq> 0 \<and> t_alarm t < now then (raise_sig SIGALRM t)\<lparr>t_alarm := 0\<rparr> else t) in
      if t_signal t \<noteq> 0 \<and> t_state t = TASK_INTERRUPTIBLE then t\<lparr>t_state := TASK_RUNNING\<rparr> else t)"

definition for_tasks :: "(task_struct \<Rightarrow> task_struct) \<Rightarrow> 'a sched_scheme \<Rightarrow> 'a sched_scheme" where
  "for_tasks f s =
     fold (\<lambda>i s. if task s ! i \<noteq> 0 then upd_task (task s ! i) f s else s) slots_down s"

definition pick :: "'a sched_scheme \<Rightarrow> int \<times> nat" where
  "pick s =
     fold (\<lambda>i (c, next).
         if task s ! i = 0 then (c, next)
         else let t = task_at s (task s ! i) in
           if t_state t = TASK_RUNNING \<and> t_counter t > c then (int32 (t_counter t), i)
           else (c, next))
       slots_down (-1, 0)"

definition refill :: "task_struct \<Rightarrow> task_struct" where
  "refill t = t\<lparr>t_counter := t_counter t div 2 + t_priority t\<rparr>"

partial_function (option) pick_loop :: "'a sched_scheme \<Rightarrow> (nat \<times> 'a sched_scheme) option" where
  [code]: "pick_loop s =
     (let (c, next) = pick s in
      if c \<noteq> 0 then Some (next, s) else pick_loop (for_tasks refill s))"

definition switch_to :: "('a sched_scheme \<Rightarrow> 'a sched_scheme) \<Rightarrow> nat \<Rightarrow> 'a sched_scheme \<Rightarrow> 'a sched_scheme" where
  "switch_to run n s =
     (let next = task s ! n; prev = current s in
      if next \<noteq> 0 \<and> prev \<noteq> next
      then (run (s\<lparr>current := next, rsp0 := next + PAGE_SIZE\<rparr>))
             \<lparr>current := prev, rsp0 := prev + PAGE_SIZE\<rparr>
      else s)"

definition schedule :: "('a sched_scheme \<Rightarrow> 'a sched_scheme) \<Rightarrow> 'a sched_scheme \<Rightarrow> ('a sched_scheme, unit) res" where
  "schedule run s =
     (case pick_loop (for_tasks (check_alarm (jiffies s)) s) of
        None \<Rightarrow> Inl Diverge
      | Some (next, s) \<Rightarrow> Inr ((), switch_to run next s))"

section \<open>Sleeping and waking\<close>

text \<open>A \<open>struct task_struct **\<close> is how to read and to write the variable it points to.\<close>

type_synonym 's cell = "('s \<Rightarrow> u64) \<times> (u64 \<Rightarrow> 's \<Rightarrow> 's)"

definition sys_pause :: "('a sched_scheme \<Rightarrow> 'a sched_scheme) \<Rightarrow> 'a sched_scheme \<Rightarrow> ('a sched_scheme, int) res" where
  "sys_pause run s =
     bindE (schedule run (set_state TASK_INTERRUPTIBLE (current s) s)) (\<lambda>(_, s). Inr (0, s))"

definition wake_task :: "u64 \<Rightarrow> 'a sched_scheme \<Rightarrow> 'a sched_scheme" where
  "wake_task tmp s = (if tmp \<noteq> 0 then set_state 0 tmp s else s)"

definition sleep_on :: "('a sched_scheme \<Rightarrow> 'a sched_scheme) \<Rightarrow> 'a sched_scheme cell \<Rightarrow>
    'a sched_scheme \<Rightarrow> ('a sched_scheme, unit) res" where
  "sleep_on run p s =
     (if current s = init_task s then Inl (Panic ''task[0] trying to sleep'')
      else let tmp = fst p s;
               s = snd p (current s) s;
               s = set_state TASK_UNINTERRUPTIBLE (current s) s in
        bindE (schedule run s) (\<lambda>(_, s). Inr ((), wake_task tmp s)))"

partial_function (option) isleep_loop :: "('a sched_scheme \<Rightarrow> 'a sched_scheme) \<Rightarrow>
    'a sched_scheme cell \<Rightarrow> 'a sched_scheme \<Rightarrow> ('a sched_scheme, unit) res option" where
  [code]: "isleep_loop run p s =
     (case schedule run (set_state TASK_INTERRUPTIBLE (current s) s) of
        Inl e \<Rightarrow> Some (Inl e)
      | Inr (_, s) \<Rightarrow>
          if fst p s \<noteq> 0 \<and> fst p s \<noteq> current s
          then isleep_loop run p (set_state 0 (fst p s) s)
          else Some (Inr ((), s)))"

definition interruptible_sleep_on :: "('a sched_scheme \<Rightarrow> 'a sched_scheme) \<Rightarrow> 'a sched_scheme cell \<Rightarrow>
    'a sched_scheme \<Rightarrow> ('a sched_scheme, unit) res" where
  "interruptible_sleep_on run p s =
     (if current s = init_task s then Inl (Panic ''task[0] trying to sleep'')
      else let tmp = fst p s; s = snd p (current s) s in
        case isleep_loop run p s of
          None \<Rightarrow> Inl Diverge
        | Some r \<Rightarrow> bindE r (\<lambda>(_, s). Inr ((), wake_task tmp (snd p 0 s))))"

definition wake_up :: "'a sched_scheme cell \<Rightarrow> 'a sched_scheme \<Rightarrow> 'a sched_scheme" where
  "wake_up p s = (if fst p s \<noteq> 0 then snd p 0 (set_state 0 (fst p s) s) else s)"

section \<open>Timer and the calls of sched.c\<close>

definition do_timer :: "('a sched_scheme \<Rightarrow> 'a sched_scheme) \<Rightarrow> int \<Rightarrow> 'a sched_scheme \<Rightarrow> ('a sched_scheme, unit) res" where
  "do_timer run cpl s =
     (let s = upd_cur (\<lambda>t. if cpl \<noteq> 0 then t\<lparr>t_utime := t_utime t + 1\<rparr>
                           else t\<lparr>t_stime := t_stime t + 1\<rparr>) s;
          s = upd_cur (\<lambda>t. t\<lparr>t_counter := t_counter t - 1\<rparr>) s in
      if t_counter (cur s) > 0 then Inr ((), s)
      else let s = upd_cur (\<lambda>t. t\<lparr>t_counter := 0\<rparr>) s in
        if cpl = 0 then Inr ((), s) else schedule run s)"

definition math_state_restore :: "'a sched_scheme \<Rightarrow> 'a sched_scheme" where
  "math_state_restore s =
     (let s = (if last_task_used_math s \<noteq> 0
               then upd_task (last_task_used_math s) (\<lambda>t. t\<lparr>t_i387 := fpu s\<rparr>) s else s);
          s = (if t_used_math (cur s) \<noteq> 0 then s\<lparr>fpu := t_i387 (cur s)\<rparr>
               else upd_cur (\<lambda>t. t\<lparr>t_used_math := 1\<rparr>) (s\<lparr>fpu := replicate 512 0\<rparr>))
      in s\<lparr>last_task_used_math := current s\<rparr>)"

definition sys_alarm :: "int \<Rightarrow> 'a sched_scheme \<Rightarrow> int \<times> 'a sched_scheme" where
  "sys_alarm seconds s =
     (int32 seconds,
      upd_cur (\<lambda>t. t\<lparr>t_alarm := if seconds > 0 then jiffies s + HZ * seconds else 0\<rparr>) s)"

definition sys_getpid :: "'a sched_scheme \<Rightarrow> int" where "sys_getpid s = int32 (t_pid (cur s))"
definition sys_getppid :: "'a sched_scheme \<Rightarrow> int" where "sys_getppid s = int32 (t_father (cur s))"
definition sys_getuid :: "'a sched_scheme \<Rightarrow> int" where "sys_getuid s = uint (t_uid (cur s))"
definition sys_geteuid :: "'a sched_scheme \<Rightarrow> int" where "sys_geteuid s = uint (t_euid (cur s))"
definition sys_getgid :: "'a sched_scheme \<Rightarrow> int" where "sys_getgid s = uint (t_gid (cur s))"
definition sys_getegid :: "'a sched_scheme \<Rightarrow> int" where "sys_getegid s = uint (t_egid (cur s))"

definition sys_nice :: "int \<Rightarrow> 'a sched_scheme \<Rightarrow> int \<times> 'a sched_scheme" where
  "sys_nice increment s =
     (0, if t_priority (cur s) - increment > 0
         then upd_cur (\<lambda>t. t\<lparr>t_priority := t_priority t - increment\<rparr>) s else s)"

definition sys_signal :: "int \<Rightarrow> u64 \<Rightarrow> u64 \<Rightarrow> 'a sched_scheme \<Rightarrow> int \<times> 'a sched_scheme" where
  "sys_signal sig addr restorer s =
     (if sig \<in> set [1, 2, 3, 4, 5, 6, 8, 10, 11, 12, 13, 14, 17] then
        (sint (ucast (t_sig_fn (cur s) ! nat (sig - 1)) :: u32),
         upd_cur (\<lambda>t. t\<lparr>t_sig_fn := (t_sig_fn t)[nat (sig - 1) := addr], t_sig_restorer := restorer\<rparr>) s)
      else (-1, s))"

section \<open>sched\_init\<close>

abbreviation FIRST_TSS_ENTRY :: nat where "FIRST_TSS_ENTRY \<equiv> 5"
abbreviation FIRST_LDT_ENTRY :: nat where "FIRST_LDT_ENTRY \<equiv> 7"
abbreviation LATCH :: u16 where "LATCH \<equiv> 11931"

text \<open>
  The addresses of \<open>init_tss\<close>, of the LDT of task 0 and of the two handlers are what the
  linker makes them; \<open>inb port\<close> is the byte the port returns.
\<close>

definition sched_init ::
    "u64 \<Rightarrow> u64 \<Rightarrow> u64 \<Rightarrow> u64 \<Rightarrow> (u16 \<Rightarrow> u8) \<Rightarrow> 'a sched_scheme \<Rightarrow> 'a sched_scheme" where
  "sched_init tss ldt timer_interrupt system_call inb s =
     (let s = s\<lparr>rsp0 := init_task s + PAGE_SIZE\<rparr>;
          s = set_tss_desc FIRST_TSS_ENTRY tss s;
          s = set_ldt_desc FIRST_LDT_ENTRY ldt s;
          s = fold (\<lambda>i s. s\<lparr>task := (task s)[i := 0],
                gdt := (gdt s)[2 * (i - 1) + 2 + FIRST_LDT_ENTRY := \<lparr>d_a = 0, d_b = 0\<rparr>,
                               2 * (i - 1) + 3 + FIRST_LDT_ENTRY := \<lparr>d_a = 0, d_b = 0\<rparr>]\<rparr>)
                [1..<NR_TASKS] s;
          s = outb 0x36 0x43 s;
          s = outb (ucast (LATCH AND 0xff)) 0x40 s;
          s = outb (ucast (drop_bit 8 LATCH)) 0x40 s;
          s = set_intr_gate 0x20 timer_interrupt s;
          s = outb (inb 0x21 AND NOT 0x01) 0x21 s
      in set_system_gate 0x80 system_call s)"


section \<open>The tasks other than task 0\<close>

definition task_wf :: "'a sched_scheme \<Rightarrow> bool" where
  "task_wf s \<longleftrightarrow> length (task s) = NR_TASKS \<and> task s ! 0 = init_task s \<and> init_task s \<noteq> 0 \<and>
     (\<forall>i<NR_TASKS. \<forall>j<NR_TASKS. task s ! i = task s ! j \<longrightarrow> task s ! i \<noteq> 0 \<longrightarrow> i = j)"

definition live :: "'a sched_scheme \<Rightarrow> u64 set" where
  "live s = {task s ! i | i. 1 \<le> i \<and> i < NR_TASKS \<and> task s ! i \<noteq> 0}"

lemma set_slots_down [simp]: "set slots_down = {1..<NR_TASKS}"
  by (simp add: slots_down_def)

lemma distinct_slots_down [simp]: "distinct slots_down"
  by (simp add: slots_down_def)

lemma for_tasks_fold:
  assumes "task_wf s" "distinct is" "set is \<subseteq> {1..<NR_TASKS}"
  shows "fold (\<lambda>i s. if task s ! i \<noteq> 0 then upd_task (task s ! i) f s else s) is s =
    s\<lparr>task_at := \<lambda>p. if \<exists>i\<in>set is. task s ! i = p \<and> p \<noteq> 0 then f (task_at s p) else task_at s p\<rparr>"
  using assms
proof (induction "is" arbitrary: s)
  case (Cons i "is")
  define s1 where "s1 = (if task s ! i \<noteq> 0 then upd_task (task s ! i) f s else s)"
  have t: "task s1 = task s" and wf: "task_wf s1"
    using Cons.prems(1) by (auto simp: s1_def upd_task_def task_wf_def)
  have i: "i < NR_TASKS" "\<And>j. j \<in> set is \<Longrightarrow> j < NR_TASKS" using Cons.prems(3) by auto
  have ne: "task s ! i \<noteq> task s ! j" if "j \<in> set is" "task s ! j \<noteq> 0" for j
    using that Cons.prems(1,2) i by (auto simp: task_wf_def)
  have "fold (\<lambda>i s. if task s ! i \<noteq> 0 then upd_task (task s ! i) f s else s) (i # is) s =
      s1\<lparr>task_at := \<lambda>p. if \<exists>i\<in>set is. task s ! i = p \<and> p \<noteq> 0 then f (task_at s1 p) else task_at s1 p\<rparr>"
    using Cons.IH [OF wf] Cons.prems(2,3) by (simp add: s1_def [symmetric] t)
  also have "\<dots> = s\<lparr>task_at := \<lambda>p. if \<exists>j\<in>set (i # is). task s ! j = p \<and> p \<noteq> 0 then f (task_at s p) else task_at s p\<rparr>"
  proof -
    have "s1\<lparr>task_at := X\<rparr> = s\<lparr>task_at := X\<rparr>" for X by (simp add: s1_def upd_task_def)
    moreover have "(\<lambda>p. if \<exists>i\<in>set is. task s ! i = p \<and> p \<noteq> 0 then f (task_at s1 p) else task_at s1 p) =
        (\<lambda>p. if \<exists>j\<in>set (i # is). task s ! j = p \<and> p \<noteq> 0 then f (task_at s p) else task_at s p)"
      by (intro ext) (auto simp: s1_def upd_task_def, metis ne)
    ultimately show ?thesis by simp
  qed
  finally show ?case .
qed simp

lemma for_tasks_eq:
  assumes "task_wf s"
  shows "for_tasks f s = s\<lparr>task_at := \<lambda>p. if p \<in> live s then f (task_at s p) else task_at s p\<rparr>"
proof -
  have "(\<exists>i\<in>set slots_down. task s ! i = p \<and> p \<noteq> 0) \<longleftrightarrow> p \<in> live s" for p
    by (auto simp: live_def)
  then show ?thesis
    using for_tasks_fold [OF assms distinct_slots_down] by (simp add: for_tasks_def)
qed

lemma for_tasks_simps [simp]:
  assumes "task_wf s"
  shows "task (for_tasks f s) = task s" "live (for_tasks f s) = live s" "task_wf (for_tasks f s)"
    "current (for_tasks f s) = current s" "init_task (for_tasks f s) = init_task s"
    "jiffies (for_tasks f s) = jiffies s"
  using assms by (auto simp: for_tasks_eq live_def task_wf_def)

lemma for_tasks_at:
  "task_wf s \<Longrightarrow> task_at (for_tasks f s) p = (if p \<in> live s then f (task_at s p) else task_at s p)"
  by (simp add: for_tasks_eq)

section \<open>The choice of the scheduler\<close>

definition runnable :: "'a sched_scheme \<Rightarrow> nat \<Rightarrow> bool" where
  "runnable s i \<longleftrightarrow> 1 \<le> i \<and> i < NR_TASKS \<and> task s ! i \<noteq> 0 \<and> t_state (task_at s (task s ! i)) = TASK_RUNNING"

abbreviation slot_counter :: "'a sched_scheme \<Rightarrow> nat \<Rightarrow> int" where
  "slot_counter s i \<equiv> t_counter (task_at s (task s ! i))"

text \<open>The time slices are small: counters from 0 to twice the priority, and priorities positive.\<close>

definition slices_ok :: "'a sched_scheme \<Rightarrow> bool" where
  "slices_ok s \<longleftrightarrow> task_wf s \<and>
     (\<forall>p\<in>live s. 0 < t_priority (task_at s p) \<and> t_priority (task_at s p) < 2 ^ 29 \<and>
        0 \<le> t_counter (task_at s p) \<and> t_counter (task_at s p) \<le> 2 * t_priority (task_at s p))"

lemma int32_small: "- (2 ^ 31) \<le> x \<Longrightarrow> x < 2 ^ 31 \<Longrightarrow> int32 x = x"
  by (simp add: int32_def signed_take_bit_int_eq_self)

lemma slices_refill:
  assumes "slices_ok s"
  shows "slices_ok (for_tasks refill s)"
    and "p \<in> live s \<Longrightarrow> 0 < t_counter (task_at (for_tasks refill s) p)"
proof -
  have wf: "task_wf s" using assms by (simp add: slices_ok_def)
  have *: "0 < t_counter (refill t) \<and> t_counter (refill t) \<le> 2 * t_priority (refill t) \<and>
      t_priority (refill t) = t_priority t"
    if "0 < t_priority t" "0 \<le> t_counter t" "t_counter t \<le> 2 * t_priority t" for t
    using that by (auto simp: refill_def)
  show "slices_ok (for_tasks refill s)"
    using assms * wf by (fastforce simp: slices_ok_def for_tasks_at)
  show "p \<in> live s \<Longrightarrow> 0 < t_counter (task_at (for_tasks refill s) p)"
    using assms * wf by (simp add: slices_ok_def for_tasks_at)
qed

definition best :: "'a sched_scheme \<Rightarrow> nat list \<Rightarrow> int \<Rightarrow> nat \<Rightarrow> bool" where
  "best s is c n \<longleftrightarrow>
     (if n = 0 then c = -1 \<and> (\<forall>i\<in>set is. \<not> runnable s i)
      else n \<in> set is \<and> runnable s n \<and> c = slot_counter s n \<and>
           (\<forall>i\<in>set is. runnable s i \<longrightarrow> slot_counter s i \<le> c))"

lemma pick_fold:
  assumes "slices_ok s" "set is \<subseteq> {1..<NR_TASKS}" "set js \<subseteq> {1..<NR_TASKS}" "best s js c n"
  shows "\<exists>c' n'. fold (\<lambda>i (c, next).
         if task s ! i = 0 then (c, next)
         else let t = task_at s (task s ! i) in
           if t_state t = TASK_RUNNING \<and> t_counter t > c then (int32 (t_counter t), i)
           else (c, next)) is (c, n) = (c', n') \<and> best s (js @ is) c' n'"
  using assms(2-)
proof (induction "is" arbitrary: js c n)
  case (Cons i "is")
  have i: "1 \<le> i" "i < NR_TASKS" using Cons.prems(1) by auto
  have ctr: "int32 (slot_counter s i) = slot_counter s i" "0 \<le> slot_counter s i" if "task s ! i \<noteq> 0"
  proof -
    have "task s ! i \<in> live s" using that i by (auto simp: live_def)
    then have "0 \<le> slot_counter s i" "slot_counter s i < 2 ^ 31"
      using assms(1) by (fastforce simp: slices_ok_def)+
    then show "int32 (slot_counter s i) = slot_counter s i" "0 \<le> slot_counter s i"
      by (simp_all add: int32_small)
  qed
  obtain c1 n1 where step: "(if task s ! i = 0 then (c, n)
         else let t = task_at s (task s ! i) in
           if t_state t = TASK_RUNNING \<and> t_counter t > c then (int32 (t_counter t), i) else (c, n)) = (c1, n1)"
    by fastforce
  have "best s (js @ [i]) c1 n1"
  proof (cases "runnable s i \<and> slot_counter s i > c")
    case True
    then have "c1 = slot_counter s i" "n1 = i" using step ctr by (auto simp: runnable_def Let_def)
    then show ?thesis using True i Cons.prems(3) by (force simp: best_def split: if_splits)
  next
    case False
    then have "c1 = c" "n1 = n" using step i by (auto simp: runnable_def Let_def split: if_splits)
    moreover have "n = 0 \<Longrightarrow> \<not> runnable s i"
      using False Cons.prems(3) ctr by (auto simp: best_def runnable_def)
    ultimately show ?thesis using False Cons.prems(3) by (auto simp: best_def split: if_splits)
  qed
  from Cons.IH [OF _ _ this] show ?case using Cons.prems(1,2) i step by simp
qed simp

lemma pick_best:
  assumes "slices_ok s"
  shows "best s slots_down (fst (pick s)) (snd (pick s))"
  using pick_fold [OF assms, of slots_down "[]" "-1" 0] by (auto simp: pick_def best_def)


lemma check_alarm_simps [simp]:
  "t_counter (check_alarm now t) = t_counter t" "t_priority (check_alarm now t) = t_priority t"
  by (simp_all add: check_alarm_def Let_def raise_sig_def)

lemma check_alarm_awake: "t_signal (check_alarm now t) \<noteq> 0 \<Longrightarrow> t_state (check_alarm now t) \<noteq> TASK_INTERRUPTIBLE"
  by (auto simp: check_alarm_def Let_def)

lemma slices_alarm: "slices_ok s \<Longrightarrow> slices_ok (for_tasks (check_alarm now) s)"
  by (fastforce simp: slices_ok_def for_tasks_at)

lemma refill_state [simp]: "t_state (refill t) = t_state t"
  by (simp add: refill_def)

lemma runnable_refill: "task_wf s \<Longrightarrow> runnable (for_tasks refill s) i \<longleftrightarrow> runnable s i"
  by (auto simp: runnable_def for_tasks_at)

lemma pick_loop_best:
  assumes "slices_ok s"
  shows "\<exists>next s1. pick_loop s = Some (next, s1) \<and> (s1 = s \<or> s1 = for_tasks refill s) \<and>
    (next = 0 \<longleftrightarrow> (\<nexists>i. runnable s i)) \<and>
    (next \<noteq> 0 \<longrightarrow> runnable s1 next \<and> 0 < slot_counter s1 next \<and>
       (\<forall>i. runnable s1 i \<longrightarrow> slot_counter s1 i \<le> slot_counter s1 next))"
proof -
  have pos: "runnable s i \<Longrightarrow> 0 \<le> slot_counter s i" for i
    using assms by (force simp: slices_ok_def runnable_def live_def)
  have rng: "runnable u i \<Longrightarrow> i \<in> set slots_down" for i and u :: "'a sched_scheme"
    by (simp add: runnable_def)
  obtain c n where p: "pick s = (c, n)" by fastforce
  have b: "best s slots_down c n" using pick_best [OF assms] p by simp
  show ?thesis
  proof (cases "c = 0")
    case False
    then have "pick_loop s = Some (n, s)" by (subst pick_loop.simps) (simp add: p)
    moreover have "n \<noteq> 0 \<Longrightarrow> 0 < c"
      using b False pos [of n] by (simp add: best_def split: if_splits)
    ultimately show ?thesis using b rng by (auto simp: best_def split: if_splits)
  next
    case True
    define s1 where "s1 = for_tasks refill s"
    obtain c1 n1 where p1: "pick s1 = (c1, n1)" by fastforce
    have ok1: "slices_ok s1" and wf: "task_wf s"
      using slices_refill(1) [OF assms] assms by (simp_all add: s1_def slices_ok_def)
    have b1: "best s1 slots_down c1 n1" using pick_best [OF ok1] p1 by simp
    have n: "n \<noteq> 0" "runnable s n" using b True by (auto simp: best_def split: if_splits)
    have r1: "runnable s1 i \<longleftrightarrow> runnable s i" for i unfolding s1_def by (rule runnable_refill [OF wf])
    have "n1 \<noteq> 0"
    proof
      assume "n1 = 0"
      then have "\<not> runnable s1 n" using b1 rng [OF n(2)] unfolding best_def by simp
      then show False using n(2) r1 by simp
    qed
    then have b1': "runnable s1 n1" "c1 = slot_counter s1 n1"
      "\<forall>i\<in>set slots_down. runnable s1 i \<longrightarrow> slot_counter s1 i \<le> c1"
      using b1 unfolding best_def if_not_P [OF \<open>n1 \<noteq> 0\<close>] by blast+
    have n1: "n1 \<noteq> 0" "runnable s1 n1" "c1 = slot_counter s1 n1"
      "\<forall>i. runnable s1 i \<longrightarrow> slot_counter s1 i \<le> c1"
      using b1' \<open>n1 \<noteq> 0\<close> rng [of s1] by blast+
    have "task s ! n1 \<in> live s" using n1(2) r1 by (auto simp: runnable_def live_def)
    then have "0 < slot_counter s1 n1" using slices_refill(2) [OF assms] wf by (simp add: s1_def)
    moreover have "pick_loop s1 = Some (n1, s1)"
      using \<open>0 < slot_counter s1 n1\<close> n1(3) by (subst pick_loop.simps) (simp add: p1)
    then have "pick_loop s = Some (n1, s1)" using True by (subst pick_loop.simps) (simp add: p s1_def)
    ultimately show ?thesis using n n1 r1 s1_def by blast
  qed
qed


text \<open>A system with task 0 and one more task.\<close>

definition two_tasks :: sched where
  "two_tasks =
     \<lparr>qmem = (\<lambda>_. 0), mem_map = replicate PAGING_PAGES 0, tlb_loads = 0, klog = [],
      task_at = (\<lambda>_. INIT_TASK), task = 0x10000 # 0x7FF000 # replicate 62 0, current = 0x10000,
      last_task_used_math = 0, jiffies = 0, startup_time = 0, last_pid = 1, rsp0 = 0,
      gdt = [], idt = [], outs = [], init_task = 0x10000, fpu = [], umem = (\<lambda>_. 0)\<rparr>"

lemma two_tasks_nth: "i < NR_TASKS \<Longrightarrow> task two_tasks ! i = (if i = 0 then 0x10000 else if i = 1 then 0x7FF000 else 0)"
  by (simp add: two_tasks_def nth_Cons')

lemma two_tasks_ok: "slices_ok two_tasks"
proof -
  have "task_at two_tasks p = INIT_TASK" for p by (simp add: two_tasks_def)
  moreover have "task_wf two_tasks"
    by (simp add: task_wf_def two_tasks_nth) (simp add: two_tasks_def)
  ultimately show ?thesis by (simp add: slices_ok_def INIT_TASK_def)
qed



section \<open>Wait queues\<close>

text \<open>What \<open>sleep_on\<close> and \<open>wake_up\<close> need of the variable they are given.\<close>

locale wait_cell =
  fixes ok :: "'a sched_scheme \<Rightarrow> bool"
    and get :: "'a sched_scheme \<Rightarrow> u64" and put :: "u64 \<Rightarrow> 'a sched_scheme \<Rightarrow> 'a sched_scheme"
  assumes get_put: "ok s \<Longrightarrow> get (put v s) = v"
    and put_task_at: "task_at (put v s) = task_at s"
    and put_current: "current (put v s) = current s"
    and get_task_at: "get (s\<lparr>task_at := f\<rparr>) = get s"
    and ok_task_at: "ok (s\<lparr>task_at := f\<rparr>) = ok s"
begin

lemma wake_up_wakes:
  assumes "ok s" "get s \<noteq> 0"
  shows "t_state (task_at (wake_up (get, put) s) (get s)) = TASK_RUNNING"
    and "get (wake_up (get, put) s) = 0"
  using assms by (simp_all add: wake_up_def set_state_def upd_task_def put_task_at get_put ok_task_at)

lemma wake_up_others:
  "p \<noteq> get s \<Longrightarrow> task_at (wake_up (get, put) s) p = task_at s p"
  by (simp add: wake_up_def set_state_def upd_task_def put_task_at)

lemma sleep_wakes_previous:
  assumes "sleep_on run (get, put) s = Inr ((), s')" "get s \<noteq> 0"
  shows "t_state (task_at s' (get s)) = TASK_RUNNING"
proof -
  obtain u :: "('a sched_scheme, unit) res"
    where "bindE u (\<lambda>(_, x). Inr ((), wake_task (get s) x)) = Inr ((), s')"
    using assms(1) by (auto simp: sleep_on_def Let_def split: if_splits)
  then obtain x where "s' = wake_task (get s) x" by (cases u) auto
  then show ?thesis using assms(2) by (simp add: wake_task_def set_state_def upd_task_def)
qed

lemma sleep_queues:
  assumes "ok s" "current s \<noteq> init_task s"
  shows "\<exists>u. sleep_on run (get, put) s =
      bindE (schedule run u) (\<lambda>(_, s'). Inr ((), wake_task (get s) s')) \<and>
    get u = current s \<and> current u = current s \<and>
    t_state (task_at u (current s)) = TASK_UNINTERRUPTIBLE"
  using assms
  by (intro exI [of _ "set_state TASK_UNINTERRUPTIBLE (current s) (put (current s) s)"])
    (simp add: sleep_on_def Let_def set_state_def upd_task_def put_current get_task_at get_put)

end

section \<open>Descriptors\<close>

lemma mask_words:
  "(0xFFFF :: 'w::len word) = mask 16" "(0xFF :: 'w word) = mask 8" "(0x0F :: 'w word) = mask 4"
  "(0x00FFFF00 :: 'w word) = push_bit 8 (mask 16)" "(0xF0000 :: 'w word) = push_bit 16 (mask 4)"
  by (simp_all add: mask_numeral push_bit_eq_mult)

lemma byte_cases:
  obtains "n < 16" | k where "n = 16 + k" "k < 8" | k where "n = 24 + k" "k < 8" | k where "n = 32 + (k :: nat)"
proof -
  consider "n < 16" | "16 \<le> n" "n < 24" | "24 \<le> n" "n < 32" | "32 \<le> n" by linarith
  then show thesis
  proof cases
    case 1
    then show ?thesis by (rule that(1))
  next
    case 2
    then show ?thesis using that(2) [of "n - 16"] by simp
  next
    case 3
    then show ?thesis using that(3) [of "n - 24"] by simp
  next
    case 4
    then show ?thesis using that(4) [of "n - 32"] by simp
  qed
qed

lemma get_base_set_base: "get_base (set_base d base) = take_bit 32 base"
proof (rule bit_word_eqI)
  fix n
  show "bit (get_base (set_base d base)) n \<longleftrightarrow> bit (take_bit 32 base) n"
    unfolding get_base_def set_base_def mask_words
    by (cases n rule: byte_cases) (simp_all add: bit_simps)
qed

lemma lsl_set_base: "lsl_limit (set_base d base) = lsl_limit d"
proof -
  have a: "d_a (set_base d base) AND 0xFFFF = d_a d AND 0xFFFF"
    unfolding set_base_def mask_words by (rule bit_word_eqI) (auto simp: bit_simps)
  have b: "d_b (set_base d base) AND 0xF0000 = d_b d AND 0xF0000"
    unfolding set_base_def mask_words by (rule bit_word_eqI) (auto simp: bit_simps)
  have h: "bit (0x800000 :: int) n \<longleftrightarrow> n = 23" for n
    using bit_exp_iff [of 23 n, where 'a = int] by simp
  have g: "d_b (set_base d base) AND 0x800000 = d_b d AND 0x800000"
    unfolding set_base_def mask_words(1-4) by (rule bit_word_eqI) (auto simp: bit_simps h)
  show ?thesis by (simp only: lsl_limit_def a b g)
qed

end
