(* ===== verification/Traps.thy ===== *)
theory Traps
  imports Sched
begin

text \<open>
  Hardware traps, \<open>src/kernel/traps.c\<close>: the report of \<open>die\<close> and the interrupt table
  \<open>trap_init\<close> sets up. The entry points of \<open>src/kernel/asm.nasm\<close> and \<open>src/mm/page.nasm\<close> are the
  values of \<open>trap_entry\<close>; where the linker puts them is the parameter \<open>addr_of\<close>.
\<close>

datatype trap_entry =
  Divide_error | Debug | Nmi | Int3 | Overflow | Bounds | Invalid_op | Device_not_available |
  Double_fault | Coprocessor_segment_overrun | Invalid_TSS | Segment_not_present |
  Stack_segment | General_protection | Page_fault | Coprocessor_error | Reserved

text \<open>
  The registers \<open>die\<close> prints: \<open>frame k\<close> is \<open>esp[k]\<close>; \<open>seg_long\<close> and \<open>seg_byte\<close> are the reads
  through a segment; \<open>fs\<close> and \<open>tr\<close> the two registers.
\<close>

record trap_regs =
  frame :: "nat \<Rightarrow> u64"
  seg_long :: "u64 \<Rightarrow> u64 \<Rightarrow> u64"
  seg_byte :: "u64 \<Rightarrow> u64 \<Rightarrow> u8"
  reg_fs :: u16
  reg_tr :: u16

abbreviation tab :: string where "tab \<equiv> [CHR 0x09]"
abbreviation crlf :: string where "crlf \<equiv> newline @ [CHR 0x0D]"

definition get_task_nr :: "trap_regs \<Rightarrow> u32" where
  "get_task_nr r = signed_drop_bit 4 (ucast (reg_tr r) - 40)"

definition die :: "trap_regs \<Rightarrow> string \<Rightarrow> u64 \<Rightarrow> 'a sched_scheme \<Rightarrow> ('a sched_scheme, unit) res" where
  "die r str nr s =
     (let esp = frame r;
          s = printk (''%s: %04x'' @ crlf) [AStr str, AInt (nr AND 0xffff)] s;
          s = printk (''EIP:'' @ tab @ ''%04x:%p'' @ newline @ ''EFLAGS:'' @ tab @ ''%p'' @ newline @
                      ''ESP:'' @ tab @ ''%04x:%p'' @ newline)
                [AInt (esp 1), AInt (esp 0), AInt (esp 2), AInt (esp 4), AInt (esp 3)] s;
          s = printk (''fs: %04x'' @ newline) [AInt (ucast (reg_fs r))] s;
          s = printk (''base: %p, limit: %p'' @ newline)
                [AInt (get_base (t_ldt (cur s) ! 1)), AInt (get_limit 0x17 s)] s;
          s = (if esp 4 = 0x17 then
                 let s = printk ''Stack: '' [] s;
                     s = fold (\<lambda>i. printk ''%p '' [AInt (seg_long r 0x17 (esp 3 + 8 * of_nat i))]) [0..<4] s
                 in printk newline [] s
               else s);
          s = printk (''Pid: %d, process nr: %d'' @ crlf)
                [AInt (word_of_int (t_pid (cur s))), AInt (ucast (get_task_nr r AND 0xffff))] s;
          s = fold (\<lambda>i. printk ''%02x '' [AInt (ucast (seg_byte r (esp 1) (esp 0 + of_nat i)))]) [0..<10] s;
          s = printk crlf [] s
      in Inl (Do_exit 11 s))"

text \<open>The handlers; the argument \<open>esp\<close> is the frame in \<open>r\<close>.\<close>

definition do_double_fault :: "trap_regs \<Rightarrow> u64 \<Rightarrow> 'a sched_scheme \<Rightarrow> ('a sched_scheme, unit) res" where
  "do_double_fault r error_code = die r ''double fault'' error_code"

definition do_general_protection :: "trap_regs \<Rightarrow> u64 \<Rightarrow> 'a sched_scheme \<Rightarrow> ('a sched_scheme, unit) res" where
  "do_general_protection r error_code = die r ''general protection'' error_code"

definition do_divide_error :: "trap_regs \<Rightarrow> u64 \<Rightarrow> 'a sched_scheme \<Rightarrow> ('a sched_scheme, unit) res" where
  "do_divide_error r error_code = die r ''divide error'' error_code"

definition do_nmi :: "trap_regs \<Rightarrow> u64 \<Rightarrow> 'a sched_scheme \<Rightarrow> ('a sched_scheme, unit) res" where
  "do_nmi r error_code = die r ''nmi'' error_code"

definition do_debug :: "trap_regs \<Rightarrow> u64 \<Rightarrow> 'a sched_scheme \<Rightarrow> ('a sched_scheme, unit) res" where
  "do_debug r error_code = die r ''debug'' error_code"

definition do_overflow :: "trap_regs \<Rightarrow> u64 \<Rightarrow> 'a sched_scheme \<Rightarrow> ('a sched_scheme, unit) res" where
  "do_overflow r error_code = die r ''overflow'' error_code"

definition do_bounds :: "trap_regs \<Rightarrow> u64 \<Rightarrow> 'a sched_scheme \<Rightarrow> ('a sched_scheme, unit) res" where
  "do_bounds r error_code = die r ''bounds'' error_code"

definition do_invalid_op :: "trap_regs \<Rightarrow> u64 \<Rightarrow> 'a sched_scheme \<Rightarrow> ('a sched_scheme, unit) res" where
  "do_invalid_op r error_code = die r ''invalid operand'' error_code"

definition do_device_not_available :: "trap_regs \<Rightarrow> u64 \<Rightarrow> 'a sched_scheme \<Rightarrow> ('a sched_scheme, unit) res" where
  "do_device_not_available r error_code = die r ''device not available'' error_code"

definition do_coprocessor_segment_overrun :: "trap_regs \<Rightarrow> u64 \<Rightarrow> 'a sched_scheme \<Rightarrow> ('a sched_scheme, unit) res" where
  "do_coprocessor_segment_overrun r error_code = die r ''coprocessor segment overrun'' error_code"

definition do_invalid_TSS :: "trap_regs \<Rightarrow> u64 \<Rightarrow> 'a sched_scheme \<Rightarrow> ('a sched_scheme, unit) res" where
  "do_invalid_TSS r error_code = die r ''invalid TSS'' error_code"

definition do_segment_not_present :: "trap_regs \<Rightarrow> u64 \<Rightarrow> 'a sched_scheme \<Rightarrow> ('a sched_scheme, unit) res" where
  "do_segment_not_present r error_code = die r ''segment not present'' error_code"

definition do_stack_segment :: "trap_regs \<Rightarrow> u64 \<Rightarrow> 'a sched_scheme \<Rightarrow> ('a sched_scheme, unit) res" where
  "do_stack_segment r error_code = die r ''stack segment'' error_code"

definition do_coprocessor_error :: "trap_regs \<Rightarrow> u64 \<Rightarrow> 'a sched_scheme \<Rightarrow> ('a sched_scheme, unit) res" where
  "do_coprocessor_error r error_code = die r ''coprocessor error'' error_code"

definition do_reserved :: "trap_regs \<Rightarrow> u64 \<Rightarrow> 'a sched_scheme \<Rightarrow> ('a sched_scheme, unit) res" where
  "do_reserved r error_code = die r ''reserved (15,17-31) error'' error_code"

definition do_int3 :: "(nat \<Rightarrow> u64) \<Rightarrow> u64 \<Rightarrow> u64 \<Rightarrow> u64 \<Rightarrow> u64 \<Rightarrow> u64 \<Rightarrow> u64 \<Rightarrow> u64 \<Rightarrow> u64 \<Rightarrow> u64 \<Rightarrow> u64 \<Rightarrow> u64 \<Rightarrow>
    u16 \<Rightarrow> 'a sched_scheme \<Rightarrow> 'a sched_scheme" where
  "do_int3 frm esp fs es ds ebp esi edi edx ecx ebx eax tr s =
     (let s = printk (''eax'' @ tab @ tab @ ''ebx'' @ tab @ tab @ ''ecx'' @ tab @ tab @ ''edx'' @ crlf @
                      ''%8x'' @ tab @ ''%8x'' @ tab @ ''%8x'' @ tab @ ''%8x'' @ crlf)
                [AInt eax, AInt ebx, AInt ecx, AInt edx] s;
          s = printk (''esi'' @ tab @ tab @ ''edi'' @ tab @ tab @ ''ebp'' @ tab @ tab @ ''esp'' @ crlf @
                      ''%8x'' @ tab @ ''%8x'' @ tab @ ''%8x'' @ tab @ ''%8x'' @ crlf)
                [AInt esi, AInt edi, AInt ebp, AInt esp] s;
          s = printk (crlf @ ''ds'' @ tab @ ''es'' @ tab @ ''fs'' @ tab @ ''tr'' @ crlf @
                      ''%4x'' @ tab @ ''%4x'' @ tab @ ''%4x'' @ tab @ ''%4x'' @ crlf)
                [AInt ds, AInt es, AInt fs, AInt (ucast tr)] s
      in printk (''EIP: %8x   CS: %4x  EFLAGS: %8x'' @ crlf) [AInt (frm 0), AInt (frm 1), AInt (frm 2)] s)"

definition trap_init :: "(trap_entry \<Rightarrow> u64) \<Rightarrow> 'a sched_scheme \<Rightarrow> 'a sched_scheme" where
  "trap_init addr_of s =
     (let s = set_trap_gate 0 (addr_of Divide_error) s;
          s = set_trap_gate 1 (addr_of Debug) s;
          s = set_trap_gate 2 (addr_of Nmi) s;
          s = set_system_gate 3 (addr_of Int3) s;
          s = set_system_gate 4 (addr_of Overflow) s;
          s = set_system_gate 5 (addr_of Bounds) s;
          s = set_trap_gate 6 (addr_of Invalid_op) s;
          s = set_trap_gate 7 (addr_of Device_not_available) s;
          s = set_trap_gate 8 (addr_of Double_fault) s;
          s = set_trap_gate 9 (addr_of Coprocessor_segment_overrun) s;
          s = set_trap_gate 10 (addr_of Invalid_TSS) s;
          s = set_trap_gate 11 (addr_of Segment_not_present) s;
          s = set_trap_gate 12 (addr_of Stack_segment) s;
          s = set_trap_gate 13 (addr_of General_protection) s;
          s = set_trap_gate 14 (addr_of Page_fault) s;
          s = set_trap_gate 15 (addr_of Reserved) s;
          s = set_trap_gate 16 (addr_of Coprocessor_error) s
      in fold (\<lambda>i. set_trap_gate i (addr_of Reserved)) [17..<32] s)"

section \<open>The gates\<close>

text \<open>The address a gate jumps to, and the least privileged level that may call it.\<close>

definition gate_addr :: "idt_entry \<Rightarrow> u64" where
  "gate_addr g = ucast (offset_low g) OR push_bit 16 (ucast (offset_mid g)) OR push_bit 32 (ucast (offset_high g))"

definition gate_dpl :: "idt_entry \<Rightarrow> u8" where
  "gate_dpl g = drop_bit 5 (type_attr g) AND 3"

lemma gate_addr_gate [simp]: "gate_addr (gate ty dpl addr) = addr"
proof (rule bit_word_eqI)
  fix n
  show "bit (gate_addr (gate ty dpl addr)) n \<longleftrightarrow> bit addr n"
    unfolding gate_addr_def gate_def mask_words
    by (cases "n < 16"; cases "n < 32") (simp_all add: bit_simps, auto dest: bit_imp_le_length)
qed

lemma gate_dpl_gate [simp]: "gate_dpl (gate 15 0 addr) = 0" "gate_dpl (gate 15 3 addr) = 3"
  by (simp_all add: gate_dpl_def gate_def)

text \<open>The handlers of the 32 exception vectors, in the order of the architecture.\<close>

definition vectors :: "trap_entry list" where
  "vectors =
     [Divide_error, Debug, Nmi, Int3, Overflow, Bounds, Invalid_op, Device_not_available,
      Double_fault, Coprocessor_segment_overrun, Invalid_TSS, Segment_not_present,
      Stack_segment, General_protection, Page_fault, Reserved, Coprocessor_error] @ replicate 15 Reserved"

lemma idt_set_gate: "idt (set_gate n ty dpl addr s) = (idt s)[n := gate ty dpl addr]"
  by (simp add: set_gate_def)

lemma idt_fold_gates:
  "idt (fold (\<lambda>i. set_trap_gate i a) is s) = fold (\<lambda>i t. t[i := gate 15 0 a]) is (idt s)"
  by (induction "is" arbitrary: s) (simp_all add: set_trap_gate_def idt_set_gate)

definition vector_gate :: "(trap_entry \<Rightarrow> u64) \<Rightarrow> nat \<Rightarrow> idt_entry" where
  "vector_gate addr_of n = gate 15 (if n \<in> {3, 4, 5} then 3 else 0) (addr_of (vectors ! n))"

lemma vector_gate_tail: "n \<in> {17..<32} \<Longrightarrow> vector_gate addr_of n = gate 15 0 (addr_of Reserved)"
  unfolding vector_gate_def vectors_def
  by (subst nth_append) (auto simp del: append.simps intro!: arg_cong [where f = "\<lambda>e. gate 15 0 (addr_of e)"] nth_replicate)

lemma vectors_upt: "[0..<32] = [0,1,2,3,4,5,6,7,8,9,10,11,12,13,14,15,16] @ [17..<32]"
  by code_simp

lemma idt_trap_init:
  "idt (trap_init addr_of s) = fold (\<lambda>n t. t[n := vector_gate addr_of n]) [0..<32] (idt s)"
proof -
  have tail: "fold (\<lambda>i t. t[i := gate 15 0 (addr_of Reserved)]) [17..<32] t =
      fold (\<lambda>n t. t[n := vector_gate addr_of n]) [17..<32] t" for t
    by (rule fold_cong) (simp_all only: set_upt vector_gate_tail)
  show ?thesis
    unfolding trap_init_def Let_def idt_fold_gates tail vectors_upt
    by (simp add: set_trap_gate_def set_system_gate_def idt_set_gate vector_gate_def vectors_def)
qed

lemma fold_updates:
  "n \<le> length t \<Longrightarrow> k < length t \<Longrightarrow>
   fold (\<lambda>n t. t[n := f n]) [0..<n] t ! k = (if k < n then f k else t ! k)"
proof (induction n)
  case (Suc n)
  have "length (fold (\<lambda>n t. t[n := f n]) [0..<n] t) = length t" by (induction n) auto
  then show ?case using Suc by (simp add: nth_list_update)
qed simp



end
