(* ===== verification/Fifo.thy ===== *)
theory Fifo
  imports Prelude
begin

text \<open>
  Bounded first-in first-out queues: the interface the terminal queues and the pipes provide,
  and what follows from it for sequences of operations.
\<close>

locale bounded_fifo =
  fixes wf :: "'q \<Rightarrow> bool"
    and contents :: "'q \<Rightarrow> 'b list"
    and capacity :: nat
    and put :: "'b \<Rightarrow> 'q \<Rightarrow> 'q"
    and get :: "'q \<Rightarrow> 'b \<times> 'q"
    and is_empty :: "'q \<Rightarrow> bool"
    and is_full :: "'q \<Rightarrow> bool"
  assumes empty_iff: "wf q \<Longrightarrow> is_empty q \<longleftrightarrow> contents q = []"
    and full_iff: "wf q \<Longrightarrow> is_full q \<longleftrightarrow> length (contents q) = capacity"
    and within: "wf q \<Longrightarrow> length (contents q) \<le> capacity"
    and put_law: "wf q \<Longrightarrow> \<not> is_full q \<Longrightarrow> wf (put c q) \<and> contents (put c q) = contents q @ [c]"
    and get_law: "wf q \<Longrightarrow> \<not> is_empty q \<Longrightarrow>
      wf (snd (get q)) \<and> contents q = fst (get q) # contents (snd (get q))"
begin

text \<open>Taking \<open>n\<close> elements out, one after the other.\<close>

fun get_n :: "nat \<Rightarrow> 'q \<Rightarrow> 'b list \<times> 'q" where
  "get_n 0 q = ([], q)"
| "get_n (Suc n) q = (let (c, q) = get q; (cs, q) = get_n n q in (c # cs, q))"

lemma put_all:
  assumes "wf q" "length (contents q) + length cs \<le> capacity"
  shows "wf (fold put cs q) \<and> contents (fold put cs q) = contents q @ cs"
  using assms
proof (induction cs arbitrary: q)
  case (Cons c cs)
  then have "\<not> is_full q" by (simp add: full_iff)
  from put_law [OF Cons.prems(1) this] Cons.IH [of "put c q"] Cons.prems(2) show ?case by simp
qed simp

lemma get_all:
  assumes "wf q" "n \<le> length (contents q)"
  shows "fst (get_n n q) = take n (contents q) \<and> wf (snd (get_n n q)) \<and>
    contents (snd (get_n n q)) = drop n (contents q)"
  using assms
proof (induction n arbitrary: q)
  case (Suc n)
  then have "\<not> is_empty q" by (auto simp: empty_iff)
  note law = get_law [OF Suc.prems(1) this]
  obtain c q' where g: "get q = (c, q')" by fastforce
  have "n \<le> length (contents q')" using law g Suc.prems(2) by simp
  from Suc.IH [OF _ this] law g show ?case by (auto simp: split_beta)
qed simp

lemma fifo_order:
  assumes "wf q" "contents q = []" "length cs \<le> capacity"
  shows "fst (get_n (length cs) (fold put cs q)) = cs \<and> is_empty (snd (get_n (length cs) (fold put cs q)))"
proof -
  note p = put_all [OF assms(1), of cs]
  have "fst (get_n (length cs) (fold put cs q)) = cs \<and> wf (snd (get_n (length cs) (fold put cs q))) \<and>
      contents (snd (get_n (length cs) (fold put cs q))) = []"
    using get_all [of "fold put cs q" "length cs"] p assms(2,3) by simp
  then show ?thesis by (simp add: empty_iff)
qed

end

section \<open>A ring of bytes\<close>

text \<open>
  Both providers keep the bytes in an array of \<open>N\<close> cells (a power of two) between a tail and a
  head that are advanced modulo \<open>N\<close>; one cell always stays free.
\<close>

definition ring :: "nat \<Rightarrow> int \<Rightarrow> int \<Rightarrow> (nat \<Rightarrow> 'b) \<Rightarrow> 'b list" where
  "ring N head tail f =
     map (\<lambda>i. f (nat ((tail + int i) mod int N))) [0..<nat ((head - tail) mod int N)]"

lemma length_ring: "length (ring N head tail f) = nat ((head - tail) mod int N)"
  by (simp add: ring_def)

lemma ring_empty: "0 < N \<Longrightarrow> 0 \<le> head \<Longrightarrow> head < int N \<Longrightarrow> 0 \<le> tail \<Longrightarrow> tail < int N \<Longrightarrow>
  ring N head tail f = [] \<longleftrightarrow> head = tail"
proof -
  assume a: "0 < N" "0 \<le> head" "head < int N" "0 \<le> tail" "tail < int N"
  have "(head - tail) mod int N = 0 \<longleftrightarrow> head = tail"
  proof
    assume "(head - tail) mod int N = 0"
    then have "head mod int N = tail mod int N" by (simp add: mod_eq_dvd_iff dvd_eq_mod_eq_0)
    then show "head = tail" using a by simp
  qed simp
  moreover have "0 \<le> (head - tail) mod int N" using a(1) by simp
  ultimately show ?thesis by (auto simp: ring_def)
qed

lemma ring_put:
  assumes "0 < N" "0 \<le> head" "head < int N" "nat ((head - tail) mod int N) < N - 1"
    and "\<And>i. i < N \<Longrightarrow> g i = (if i = nat head then c else f i)"
  shows "ring N ((head + 1) mod int N) tail g = ring N head tail f @ [c]"
proof -
  define k where "k = nat ((head - tail) mod int N)"
  have k: "int k = (head - tail) mod int N" "k < N - 1" using assms(1,4) by (simp_all add: k_def)
  have hd: "(tail + int k) mod int N = head"
    using assms(2,3) by (simp add: k(1) mod_add_right_eq)
  have "((head + 1) mod int N - tail) mod int N = (int k + 1) mod int N"
    unfolding k(1) by (simp add: mod_simps algebra_simps)
  also have "\<dots> = int k + 1" using k(2) by simp
  finally have len: "nat (((head + 1) mod int N - tail) mod int N) = Suc k" by simp
  have idx: "nat ((tail + int i) mod int N) < N" for i using assms(1) by (simp add: nat_less_iff)
  have ne: "nat ((tail + int i) mod int N) \<noteq> nat head" if "i < k" for i
  proof
    assume "nat ((tail + int i) mod int N) = nat head"
    then have "(tail + int i) mod int N = head" using assms(1,2) by (simp add: nat_eq_iff)
    then have "(tail + int i) mod int N = (tail + int k) mod int N" using hd by simp
    then have "(tail + int i - tail) mod int N = (tail + int k - tail) mod int N"
      by (metis mod_diff_cong)
    then show False using that k(2) by simp
  qed
  have old: "g (nat ((tail + int i) mod int N)) = f (nat ((tail + int i) mod int N))" if "i < k" for i
    using assms(5) [OF idx] ne [OF that] by simp
  have new: "g (nat ((tail + int k) mod int N)) = c"
    using assms(5) [OF idx [of k]] by (simp add: hd)
  show ?thesis
    unfolding ring_def len k_def [symmetric] using old new by simp
qed

lemma ring_get:
  assumes "0 < N" "0 \<le> tail" "tail < int N" "(head - tail) mod int N \<noteq> 0"
  shows "ring N head tail f = f (nat tail) # ring N head ((tail + 1) mod int N) f"
proof -
  define k where "k = nat ((head - tail) mod int N - 1)"
  have "0 \<le> (head - tail) mod int N" using assms(1) by simp
  then have k: "(head - tail) mod int N = int k + 1" using assms(4) unfolding k_def by linarith
  have "(head - (tail + 1) mod int N) mod int N = ((head - tail) mod int N - 1) mod int N"
    by (simp add: mod_simps algebra_simps)
  also have "\<dots> = int k"
    using k pos_mod_bound [of "int N" "head - tail"] assms(1) by simp
  finally have len: "nat ((head - (tail + 1) mod int N) mod int N) = k" by simp
  have "[0..<Suc k] = 0 # map Suc [0..<k]" by (simp add: upt_conv_Cons map_Suc_upt)
  moreover have "(tail + int (Suc i)) mod int N = ((tail + 1) mod int N + int i) mod int N" for i
    by (simp add: mod_simps algebra_simps)
  moreover have "nat ((head - tail) mod int N) = Suc k" using k by simp
  ultimately show ?thesis using assms(2,3) unfolding ring_def len by simp
qed

end
