(* ===== verification/Tty_Queue.thy ===== *)
theory Tty_Queue
  imports Fifo
begin

text \<open>
  The queues of a terminal, \<open>src/include/linux/tty.h\<close>. The macros mask \<open>head\<close> and \<open>tail\<close> with
  \<open>TTY_BUF_SIZE-1\<close>, which is reduction modulo 1024; characters are bytes.
\<close>

abbreviation TTY_BUF_SIZE :: nat where "TTY_BUF_SIZE \<equiv> 1024"

record tty_queue =
  q_data :: u64
  q_head :: int
  q_tail :: int
  q_proc_list :: u64
  q_buf :: "u8 list"

definition INC :: "int \<Rightarrow> int" where "INC a = (a + 1) mod 1024"
definition DEC :: "int \<Rightarrow> int" where "DEC a = (a - 1) mod 1024"
definition EMPTY :: "tty_queue \<Rightarrow> bool" where "EMPTY q = (q_head q = q_tail q)"
definition QLEFT :: "tty_queue \<Rightarrow> int" where "QLEFT q = (q_tail q - q_head q - 1) mod 1024"
definition LAST :: "tty_queue \<Rightarrow> u8" where "LAST q = q_buf q ! nat ((q_head q - 1) mod 1024)"
definition FULL :: "tty_queue \<Rightarrow> bool" where "FULL q = (QLEFT q = 0)"
definition CHARS :: "tty_queue \<Rightarrow> int" where "CHARS q = (q_head q - q_tail q) mod 1024"

definition GETCH :: "tty_queue \<Rightarrow> u8 \<times> tty_queue" where
  "GETCH q = (q_buf q ! nat (q_tail q), q\<lparr>q_tail := INC (q_tail q)\<rparr>)"

definition PUTCH :: "u8 \<Rightarrow> tty_queue \<Rightarrow> tty_queue" where
  "PUTCH c q = q\<lparr>q_buf := (q_buf q)[nat (q_head q) := c], q_head := INC (q_head q)\<rparr>"

text \<open>\<open>flush\<close> of \<open>tty_ioctl.c\<close>, and \<open>DEC(head)\<close>, which drops the last character.\<close>

definition flush :: "tty_queue \<Rightarrow> tty_queue" where
  "flush q = q\<lparr>q_head := q_tail q\<rparr>"

definition unput :: "tty_queue \<Rightarrow> tty_queue" where
  "unput q = q\<lparr>q_head := DEC (q_head q)\<rparr>"

section \<open>The queue as a sequence\<close>

definition q_wf :: "tty_queue \<Rightarrow> bool" where
  "q_wf q \<longleftrightarrow> length (q_buf q) = TTY_BUF_SIZE \<and> 0 \<le> q_head q \<and> q_head q < 1024 \<and>
     0 \<le> q_tail q \<and> q_tail q < 1024"

definition q_chars :: "tty_queue \<Rightarrow> u8 list" where
  "q_chars q = ring TTY_BUF_SIZE (q_head q) (q_tail q) (nth (q_buf q))"

lemma q_chars_length: "int (length (q_chars q)) = CHARS q"
  by (simp add: q_chars_def length_ring CHARS_def)

lemma QLEFT_CHARS: "QLEFT q = 1023 - CHARS q"
proof -
  have "QLEFT q = (- 1 - (q_head q - q_tail q) mod 1024) mod 1024"
    by (simp add: QLEFT_def mod_simps algebra_simps)
  also have "\<dots> = (1023 - (q_head q - q_tail q) mod 1024) mod 1024"
    using mod_add_self2 [of "- 1 - (q_head q - q_tail q) mod 1024" 1024] by (simp add: algebra_simps)
  also have "\<dots> = 1023 - CHARS q"
    unfolding CHARS_def by (rule mod_pos_pos_trivial) auto
  finally show ?thesis .
qed

interpretation ttyq: bounded_fifo q_wf q_chars 1023 PUTCH GETCH EMPTY FULL
proof
  fix q c
  assume wf: "q_wf q"
  show "EMPTY q \<longleftrightarrow> q_chars q = []"
    using wf ring_empty [of TTY_BUF_SIZE "q_head q" "q_tail q" "nth (q_buf q)"]
    by (simp add: EMPTY_def q_chars_def q_wf_def)
  show "FULL q \<longleftrightarrow> length (q_chars q) = 1023"
    using q_chars_length [of q] by (auto simp: FULL_def QLEFT_CHARS)
  show "length (q_chars q) \<le> 1023"
    using q_chars_length [of q] by (simp add: CHARS_def)
  show "\<not> FULL q \<Longrightarrow> q_wf (PUTCH c q) \<and> q_chars (PUTCH c q) = q_chars q @ [c]"
  proof
    assume nf: "\<not> FULL q"
    show "q_wf (PUTCH c q)" using wf by (simp add: q_wf_def PUTCH_def INC_def)
    have "CHARS q < 1024" "0 \<le> CHARS q" by (simp_all add: CHARS_def)
    then have "nat ((q_head q - q_tail q) mod 1024) < 1023"
      using nf by (simp add: FULL_def QLEFT_CHARS CHARS_def)
    then show "q_chars (PUTCH c q) = q_chars q @ [c]"
      using wf unfolding q_chars_def PUTCH_def INC_def
      by (simp, intro ring_put [where N = TTY_BUF_SIZE, simplified])
        (auto simp: q_wf_def nth_list_update)
  qed
  show "\<not> EMPTY q \<Longrightarrow> q_wf (snd (GETCH q)) \<and> q_chars q = fst (GETCH q) # q_chars (snd (GETCH q))"
  proof
    assume ne: "\<not> EMPTY q"
    show "q_wf (snd (GETCH q))" using wf by (simp add: q_wf_def GETCH_def INC_def)
    have "q_chars q \<noteq> []"
      using ne wf ring_empty [of TTY_BUF_SIZE "q_head q" "q_tail q" "nth (q_buf q)"]
      by (simp add: EMPTY_def q_chars_def q_wf_def)
    then have "(q_head q - q_tail q) mod 1024 \<noteq> 0" by (simp add: q_chars_def ring_def)
    then show "q_chars q = fst (GETCH q) # q_chars (snd (GETCH q))"
      using wf ring_get [of TTY_BUF_SIZE "q_tail q" "q_head q" "nth (q_buf q)"]
      by (simp add: q_chars_def GETCH_def INC_def q_wf_def)
  qed
qed

lemma unput_put:
  assumes "q_wf q" "\<not> EMPTY q"
  shows "q_wf (unput q)" "q_chars q = q_chars (unput q) @ [LAST q]"
proof -
  show wf: "q_wf (unput q)" using assms(1) by (simp add: q_wf_def unput_def DEC_def)
  have inc: "INC (DEC (q_head q)) = q_head q"
    using assms(1) by (simp add: INC_def DEC_def q_wf_def mod_simps)
  have q: "PUTCH (LAST q) (unput q) = q"
    using inc by (simp add: PUTCH_def unput_def LAST_def DEC_def)
  have "(q_head q - q_tail q) mod 1024 \<noteq> 0"
    using assms by (auto simp: EMPTY_def q_wf_def mod_eq_dvd_iff [symmetric] dvd_eq_mod_eq_0 [symmetric])
  then have pos: "1 \<le> CHARS q" using pos_mod_sign [of 1024 "q_head q - q_tail q"] by (simp add: CHARS_def)
  have "CHARS (unput q) = (CHARS q - 1) mod 1024"
    unfolding CHARS_def unput_def DEC_def by (simp add: mod_simps algebra_simps)
  also have "\<dots> = CHARS q - 1"
    using pos by (intro mod_pos_pos_trivial) (auto simp: CHARS_def intro: less_imp_le le_less_trans)
  finally have "CHARS (unput q) = CHARS q - 1" .
  moreover have "CHARS q < 1024" by (simp add: CHARS_def)
  ultimately have "\<not> FULL (unput q)" by (simp add: FULL_def QLEFT_CHARS)
  from ttyq.put_law [OF wf this, of "LAST q"] show "q_chars q = q_chars (unput q) @ [LAST q]"
    by (simp add: q)
qed

lemma flush_chars: "q_wf q \<Longrightarrow> q_wf (flush q) \<and> q_chars (flush q) = []"
  by (simp add: flush_def q_wf_def q_chars_def ring_def)

lemma INC_full: "q_wf q \<Longrightarrow> INC (q_head q) = q_tail q \<longleftrightarrow> FULL q"
proof -
  assume w: "q_wf q"
  have "q_tail q - q_head q - 1 = - (q_head q + 1 - q_tail q)" by simp
  then have "(q_tail q - q_head q - 1) mod 1024 = 0 \<longleftrightarrow> (q_head q + 1) mod 1024 = q_tail q mod 1024"
    by (simp only: dvd_eq_mod_eq_0 [symmetric] mod_eq_dvd_iff dvd_minus_iff)
  moreover have "q_tail q mod 1024 = q_tail q" using w by (simp add: q_wf_def)
  ultimately show ?thesis by (simp add: INC_def FULL_def QLEFT_def)
qed

end
