(* ===== verification/Console.thy ===== *)
theory Console
  imports Prelude
begin

text \<open>
  The console, \<open>src/kernel/console.c\<close>: a terminal that interprets escape sequences and writes
  characters to video memory. The static variables of the file are the record \<open>con\<close>;
  \<open>vmem\<close> is memory by the address of a 16-bit cell, and \<open>con_outs\<close> the bytes sent to the ports
  of the display controller, latest first.

  The positions are \<open>unsigned long\<close> in C; here they are integers. The invariant \<open>con_wf\<close> keeps
  every one of them below \<open>0xc0000\<close> and not negative, so no operation of the code wraps.
  Parameters of escape sequences, which a program can make as large as it likes, are 64-bit
  words, and are cut to 32 bits where the code passes them as \<open>unsigned int\<close>.
\<close>

section \<open>State\<close>

abbreviation SCREEN_START :: int where "SCREEN_START \<equiv> 0xb8000"
abbreviation SCREEN_END :: int where "SCREEN_END \<equiv> 0xc0000"
abbreviation NPAR :: nat where "NPAR \<equiv> 16"

record con =
  con_origin :: int
  con_scr_end :: int
  con_pos :: int
  con_x :: int
  con_y :: int
  con_top :: int
  con_bottom :: int
  con_lines :: int
  con_columns :: int
  con_state :: nat
  con_npar :: nat
  con_par :: "u64 list"
  con_ques :: bool
  con_attr :: u8
  saved_x :: int
  saved_y :: int
  vmem :: "int \<Rightarrow> u16"
  con_outs :: "(u16 \<times> u8) list"

text \<open>The initial values of the variables, over a screen \<open>m\<close>.\<close>

definition con_start :: "(int \<Rightarrow> u16) \<Rightarrow> con" where
  "con_start m =
     \<lparr>con_origin = SCREEN_START, con_scr_end = SCREEN_START + 25 * 80 * 2, con_pos = 0, con_x = 0, con_y = 0,
      con_top = 0, con_bottom = 25, con_lines = 25, con_columns = 80, con_state = 0,
      con_npar = 0, con_par = replicate NPAR 0, con_ques = False, con_attr = 0x07,
      saved_x = 0, saved_y = 0, vmem = m, con_outs = []\<rparr>"

section \<open>Helpers\<close>

text \<open>A count is an \<open>unsigned long\<close>.\<close>

definition ulong_nat :: "int \<Rightarrow> nat" where
  "ulong_nat n = nat (n mod 2 ^ 64)"

fun setw_loop :: "int \<Rightarrow> u16 \<Rightarrow> nat \<Rightarrow> (int \<Rightarrow> u16) \<Rightarrow> int \<Rightarrow> u16" where
  "setw_loop dest v 0 m = m"
| "setw_loop dest v (Suc n) m = setw_loop (dest + 2) v n (m(dest := v))"

definition memsetw :: "int \<Rightarrow> u16 \<Rightarrow> int \<Rightarrow> con \<Rightarrow> con" where
  "memsetw dest v count c = c\<lparr>vmem := setw_loop dest v (ulong_nat count) (vmem c)\<rparr>"

fun cpyw_loop :: "int \<Rightarrow> int \<Rightarrow> nat \<Rightarrow> (int \<Rightarrow> u16) \<Rightarrow> int \<Rightarrow> u16" where
  "cpyw_loop dest src 0 m = m"
| "cpyw_loop dest src (Suc n) m = cpyw_loop (dest + 2) (src + 2) n (m(dest := m src))"

definition memcpyw :: "int \<Rightarrow> int \<Rightarrow> int \<Rightarrow> con \<Rightarrow> con" where
  "memcpyw dest src count c = c\<lparr>vmem := cpyw_loop dest src (ulong_nat count) (vmem c)\<rparr>"

fun cpyw_back_loop :: "int \<Rightarrow> int \<Rightarrow> nat \<Rightarrow> (int \<Rightarrow> u16) \<Rightarrow> int \<Rightarrow> u16" where
  "cpyw_back_loop dest src 0 m = m"
| "cpyw_back_loop dest src (Suc n) m =
     cpyw_back_loop (dest - 2) (src - 2) n (m(dest - 2 := m (src - 2)))"

definition memcpyw_backward :: "int \<Rightarrow> int \<Rightarrow> int \<Rightarrow> con \<Rightarrow> con" where
  "memcpyw_backward dest src count c =
     (let n = ulong_nat count in
      c\<lparr>vmem := cpyw_back_loop (dest + 2 * int n) (src + 2 * int n) n (vmem c)\<rparr>)"

definition con_outb :: "u8 \<Rightarrow> u16 \<Rightarrow> con \<Rightarrow> con" where
  "con_outb v port c = c\<lparr>con_outs := (port, v) # con_outs c\<rparr>"

section \<open>Cursor and scrolling\<close>

definition gotoxy :: "u32 \<Rightarrow> u32 \<Rightarrow> con \<Rightarrow> con" where
  "gotoxy new_x new_y c =
     (if uint new_x \<ge> con_columns c \<or> uint new_y \<ge> con_lines c then c
      else c\<lparr>con_x := uint new_x, con_y := uint new_y,
             con_pos := con_origin c + (uint new_y * con_columns c + uint new_x) * 2\<rparr>)"

definition set_origin :: "con \<Rightarrow> con" where
  "set_origin c =
     con_outb (word_of_int ((con_origin c - SCREEN_START) div 2)) 0x3d5 (con_outb 13 0x3d4
    (con_outb (word_of_int ((con_origin c - SCREEN_START) div 512)) 0x3d5 (con_outb 12 0x3d4 c)))"

definition scrup :: "con \<Rightarrow> con" where
  "scrup c =
     (let w = con_columns c * 2 in
      if con_top c = 0 \<and> con_bottom c = con_lines c then
        let c = c\<lparr>con_origin := con_origin c + w, con_pos := con_pos c + w, con_scr_end := con_scr_end c + w\<rparr>;
            c = (if con_scr_end c > SCREEN_END then
                   let c = memcpyw SCREEN_START (con_origin c) ((con_lines c - 1) * con_columns c) c;
                       c = memsetw (SCREEN_START + (con_lines c - 1) * con_columns c * 2) 0x0720 (con_columns c) c;
                       off = con_origin c - SCREEN_START
                   in c\<lparr>con_scr_end := con_scr_end c - off, con_pos := con_pos c - off,
                        con_origin := SCREEN_START\<rparr>
                 else memsetw (con_scr_end c - w) 0x0720 (con_columns c) c)
        in set_origin c
      else
        let c = memcpyw (con_origin c + w * con_top c) (con_origin c + w * (con_top c + 1))
                  ((con_bottom c - con_top c - 1) * con_columns c) c
        in memsetw (con_origin c + w * (con_bottom c - 1)) 0x0720 (con_columns c) c)"

definition scrdown :: "con \<Rightarrow> con" where
  "scrdown c =
     (let w = con_columns c * 2;
          c = memcpyw_backward (con_origin c + w * (con_top c + 1)) (con_origin c + w * con_top c)
                ((con_bottom c - con_top c - 1) * con_columns c) c
      in memsetw (con_origin c + w * con_top c) 0x0720 (con_columns c) c)"

definition con_lf :: "con \<Rightarrow> con" where
  "con_lf c =
     (if con_y c + 1 < con_bottom c then c\<lparr>con_y := con_y c + 1, con_pos := con_pos c + con_columns c * 2\<rparr>
      else scrup c)"

definition con_ri :: "con \<Rightarrow> con" where
  "con_ri c =
     (if con_y c > con_top c then c\<lparr>con_y := con_y c - 1, con_pos := con_pos c - con_columns c * 2\<rparr>
      else scrdown c)"

definition con_cr :: "con \<Rightarrow> con" where
  "con_cr c = c\<lparr>con_pos := con_pos c - con_x c * 2, con_x := 0\<rparr>"

definition put_cell :: "int \<Rightarrow> u16 \<Rightarrow> con \<Rightarrow> con" where
  "put_cell a v c = c\<lparr>vmem := (vmem c)(a := v)\<rparr>"

definition con_del :: "con \<Rightarrow> con" where
  "con_del c =
     (if con_x c \<noteq> 0
      then put_cell (con_pos c - 2) 0x0720 (c\<lparr>con_pos := con_pos c - 2, con_x := con_x c - 1\<rparr>)
      else c)"

section \<open>Escape sequences\<close>

definition csi_J :: "u32 \<Rightarrow> con \<Rightarrow> con" where
  "csi_J vpar c =
     (if vpar = 0 then memsetw (con_pos c) 0x0720 ((con_scr_end c - con_pos c) div 2) c
      else if vpar = 1 then memsetw (con_origin c) 0x0720 ((con_pos c - con_origin c) div 2) c
      else if vpar = 2 then memsetw (con_origin c) 0x0720 (con_columns c * con_lines c) c
      else c)"

definition csi_K :: "u32 \<Rightarrow> con \<Rightarrow> con" where
  "csi_K vpar c =
     (if vpar = 0 then
        if con_x c \<ge> con_columns c then c
        else memsetw (con_pos c) 0x0720 (con_columns c - con_x c) c
      else if vpar = 1 then
        memsetw (con_pos c - con_x c * 2) 0x0720 (if con_x c < con_columns c then con_x c else con_columns c) c
      else if vpar = 2 then memsetw (con_pos c - con_x c * 2) 0x0720 (con_columns c) c
      else c)"

definition sgr :: "u64 \<Rightarrow> u8 \<Rightarrow> u8" where
  "sgr p a =
     (if p = 0 then 0x07 else if p = 1 then 0x0f else if p = 4 then 0x0f else if p = 7 then 0x70
      else if p = 27 then 0x07 else a)"

definition csi_m :: "con \<Rightarrow> con" where
  "csi_m c = c\<lparr>con_attr := fold (\<lambda>i. sgr (con_par c ! i)) [0..<Suc (con_npar c)] (con_attr c)\<rparr>"

definition set_cursor :: "con \<Rightarrow> con" where
  "set_cursor c =
     con_outb (word_of_int ((con_pos c - SCREEN_START) div 2)) 0x3d5 (con_outb 15 0x3d4
    (con_outb (word_of_int ((con_pos c - SCREEN_START) div 512)) 0x3d5 (con_outb 14 0x3d4 c)))"

fun insert_loop :: "nat \<Rightarrow> int \<Rightarrow> u16 \<Rightarrow> (int \<Rightarrow> u16) \<Rightarrow> int \<Rightarrow> u16" where
  "insert_loop 0 p old m = m"
| "insert_loop (Suc n) p old m = insert_loop n (p + 2) (m p) (m(p := old))"

definition insert_char :: "con \<Rightarrow> con" where
  "insert_char c = c\<lparr>vmem := insert_loop (nat (con_columns c - con_x c)) (con_pos c) 0x0720 (vmem c)\<rparr>"

definition with_region :: "(con \<Rightarrow> con) \<Rightarrow> con \<Rightarrow> con" where
  "with_region f c =
     (f (c\<lparr>con_top := con_y c, con_bottom := con_lines c\<rparr>))\<lparr>con_top := con_top c, con_bottom := con_bottom c\<rparr>"

definition insert_line :: "con \<Rightarrow> con" where "insert_line = with_region scrdown"
definition delete_line :: "con \<Rightarrow> con" where "delete_line = with_region scrup"

fun delete_loop :: "nat \<Rightarrow> int \<Rightarrow> (int \<Rightarrow> u16) \<Rightarrow> int \<Rightarrow> u16" where
  "delete_loop 0 p m = m(p := 0x0720)"
| "delete_loop (Suc n) p m = delete_loop n (p + 2) (m(p := m (p + 2)))"

definition delete_char :: "con \<Rightarrow> con" where
  "delete_char c =
     (if con_x c \<ge> con_columns c then c
      else c\<lparr>vmem := delete_loop (nat (con_columns c - con_x c - 1)) (con_pos c) (vmem c)\<rparr>)"

text \<open>\<open>if (nr>limit) nr=limit; else if (!nr) nr=1; while (nr--) f();\<close>\<close>

definition csi_count :: "int \<Rightarrow> u32 \<Rightarrow> nat" where
  "csi_count limit nr = (if uint nr > limit then nat limit else if nr = 0 then 1 else unat nr)"

definition csi_at :: "u32 \<Rightarrow> con \<Rightarrow> con" where
  "csi_at nr c = (insert_char ^^ csi_count (con_columns c) nr) c"

definition csi_L :: "u32 \<Rightarrow> con \<Rightarrow> con" where
  "csi_L nr c = (insert_line ^^ csi_count (con_lines c) nr) c"

definition csi_P :: "u32 \<Rightarrow> con \<Rightarrow> con" where
  "csi_P nr c = (delete_char ^^ csi_count (con_columns c) nr) c"

definition csi_M :: "u32 \<Rightarrow> con \<Rightarrow> con" where
  "csi_M nr c = (delete_line ^^ csi_count (con_lines c) nr) c"

definition save_cur :: "con \<Rightarrow> con" where
  "save_cur c = c\<lparr>saved_x := con_x c, saved_y := con_y c\<rparr>"

definition restore_cur :: "con \<Rightarrow> con" where
  "restore_cur c =
     c\<lparr>con_x := saved_x c, con_y := saved_y c,
       con_pos := con_origin c + (saved_y c * con_columns c + saved_x c) * 2\<rparr>"

section \<open>One character\<close>

definition par_at :: "nat \<Rightarrow> con \<Rightarrow> u64" where "par_at i c = con_par c ! i"

definition set_par :: "nat \<Rightarrow> u64 \<Rightarrow> con \<Rightarrow> con" where
  "set_par i v c = c\<lparr>con_par := (con_par c)[i := v]\<rparr>"

definition par_down :: "nat \<Rightarrow> con \<Rightarrow> con" where
  "par_down i c = (if par_at i c \<noteq> 0 then set_par i (par_at i c - 1) c else c)"

definition par_up :: "con \<Rightarrow> con" where
  "par_up c = (if par_at 0 c = 0 then set_par 0 1 c else c)"

definition xw :: "con \<Rightarrow> u64" where "xw c = word_of_int (con_x c)"
definition yw :: "con \<Rightarrow> u64" where "yw c = word_of_int (con_y c)"

definition con_go :: "u64 \<Rightarrow> u64 \<Rightarrow> con \<Rightarrow> con" where
  "con_go a b = gotoxy (ucast a) (ucast b)"

definition con_csi :: "char \<Rightarrow> con \<Rightarrow> con" where
  "con_csi ch c =
     (if ch = CHR ''G'' \<or> ch = CHR 0x60 then let c = par_down 0 c in con_go (par_at 0 c) (yw c) c
      else if ch = CHR ''A'' then let c = par_up c in con_go (xw c) (yw c - par_at 0 c) c
      else if ch = CHR ''B'' \<or> ch = CHR ''e'' then let c = par_up c in con_go (xw c) (yw c + par_at 0 c) c
      else if ch = CHR ''C'' \<or> ch = CHR ''a'' then let c = par_up c in con_go (xw c + par_at 0 c) (yw c) c
      else if ch = CHR ''D'' then let c = par_up c in con_go (xw c - par_at 0 c) (yw c) c
      else if ch = CHR ''E'' then let c = par_up c in con_go 0 (yw c + par_at 0 c) c
      else if ch = CHR ''F'' then let c = par_up c in con_go 0 (yw c - par_at 0 c) c
      else if ch = CHR ''d'' then let c = par_down 0 c in con_go (xw c) (par_at 0 c) c
      else if ch = CHR ''H'' \<or> ch = CHR ''f'' then
        let c = par_down 1 (par_down 0 c) in con_go (par_at 1 c) (par_at 0 c) c
      else if ch = CHR ''J'' then csi_J (ucast (par_at 0 c)) c
      else if ch = CHR ''K'' then csi_K (ucast (par_at 0 c)) c
      else if ch = CHR ''L'' then csi_L (ucast (par_at 0 c)) c
      else if ch = CHR ''M'' then csi_M (ucast (par_at 0 c)) c
      else if ch = CHR ''P'' then csi_P (ucast (par_at 0 c)) c
      else if ch = CHR ''@'' then csi_at (ucast (par_at 0 c)) c
      else if ch = CHR ''m'' then csi_m c
      else if ch = CHR ''r'' then
        let c = par_down 0 c;
            c = (if par_at 1 c = 0 then set_par 1 (word_of_int (con_lines c)) c else c)
        in if par_at 0 c < par_at 1 c \<and> uint (par_at 1 c) \<le> con_lines c
           then c\<lparr>con_top := uint (par_at 0 c), con_bottom := uint (par_at 1 c)\<rparr> else c
      else if ch = CHR ''s'' then save_cur c
      else if ch = CHR ''u'' then restore_cur c
      else c)"

text \<open>State 0: text and control characters; \<open>erase\<close> is \<open>ERASE_CHAR(tty)\<close>.\<close>

definition con_wrap :: "con \<Rightarrow> con" where
  "con_wrap c = con_lf (c\<lparr>con_x := con_x c - con_columns c, con_pos := con_pos c - con_columns c * 2\<rparr>)"

definition con_text :: "u8 \<Rightarrow> u8 \<Rightarrow> con \<Rightarrow> con" where
  "con_text erase b c =
     (let n = sint b in
      if n > 31 \<and> n < 127 then
        let c = (if con_x c \<ge> con_columns c then con_wrap c else c);
            c = put_cell (con_pos c) (push_bit 8 (ucast (con_attr c)) OR ucast b) c
        in c\<lparr>con_pos := con_pos c + 2, con_x := con_x c + 1\<rparr>
      else if n = 27 then c\<lparr>con_state := 1\<rparr>
      else if n = 10 \<or> n = 11 \<or> n = 12 then con_lf c
      else if n = 13 then con_cr c
      else if n = uint erase then con_del c
      else if n = 8 then
        if con_x c \<noteq> 0 then c\<lparr>con_x := con_x c - 1, con_pos := con_pos c - 2\<rparr> else c
      else if n = 9 then
        let k = 8 - con_x c mod 8;
            c = c\<lparr>con_x := con_x c + k, con_pos := con_pos c + k * 2\<rparr>
        in if con_x c > con_columns c then con_wrap c else c
      else c)"

text \<open>State 1, after an escape. The result tells whether the terminal has to \<open>respond\<close>.\<close>

definition con_escape :: "char \<Rightarrow> con \<Rightarrow> con \<times> bool" where
  "con_escape ch c =
     (let c = c\<lparr>con_state := 0\<rparr> in
      if ch = CHR ''['' then (c\<lparr>con_state := 2\<rparr>, False)
      else if ch = CHR ''E'' then (con_go 0 (yw c + 1) c, False)
      else if ch = CHR ''M'' then (con_ri c, False)
      else if ch = CHR ''D'' then (con_lf c, False)
      else if ch = CHR ''Z'' then (c, True)
      else if con_x c = 55 then (save_cur c, False)
      else if con_x c = 56 then (restore_cur c, False)
      else (c, False))"

text \<open>State 3: the parameters; any other character falls through to state 4.\<close>

definition con_param :: "char \<Rightarrow> con \<Rightarrow> con" where
  "con_param ch c =
     (if ch = CHR '';'' \<and> con_npar c < NPAR - 1 then c\<lparr>con_npar := con_npar c + 1\<rparr>
      else if 48 \<le> (of_char ch :: nat) \<and> (of_char ch :: nat) \<le> 57 then
        set_par (con_npar c) (10 * par_at (con_npar c) c + of_char ch - 48) c
      else con_csi ch (c\<lparr>con_state := 0\<rparr>))"

definition con_putc :: "u8 \<Rightarrow> u8 \<Rightarrow> con \<Rightarrow> con \<times> bool" where
  "con_putc erase b c =
     (let ch = char_of (unat b) in
      if con_state c = 0 then (con_text erase b c, False)
      else if con_state c = 1 then con_escape ch c
      else if con_state c = 2 then
        let c = c\<lparr>con_par := replicate NPAR 0, con_npar := 0, con_state := 3, con_ques := (ch = CHR ''?'')\<rparr>
        in if con_ques c then (c, False) else (con_param ch c, False)
      else if con_state c = 3 then (con_param ch c, False)
      else if con_state c = 4 then (con_csi ch (c\<lparr>con_state := 0\<rparr>), False)
      else (c, False))"

text \<open>
  \<open>con_init\<close>, with the cursor position the boot code left at \<open>0x90000+510\<close>; the keyboard gate
  and the ports of the keyboard controller are set by the caller's state.
\<close>

definition con_init_cursor :: "u8 \<Rightarrow> u8 \<Rightarrow> con \<Rightarrow> con" where
  "con_init_cursor bx by' c = gotoxy (ucast bx) (ucast by') c"


section \<open>The loops over video memory\<close>

text \<open>The cells of \<open>n\<close> words from \<open>d\<close> on.\<close>

definition cells :: "int \<Rightarrow> nat \<Rightarrow> int set" where
  "cells d n = {a. d \<le> a \<and> a < d + 2 * int n \<and> even (a - d)}"

lemma cells_0 [simp]: "cells d 0 = {}"
  by (auto simp: cells_def)

lemma cells_Suc: "cells d (Suc n) = insert d (cells (d + 2) n)"
proof -
  have "a = d \<or> d + 2 \<le> a" if "d \<le> a" "even (a - d)" for a
  proof -
    have "a \<noteq> d + 1" using that(2) by auto
    then show ?thesis using that(1) by linarith
  qed
  then show ?thesis by (auto simp: cells_def algebra_simps)
qed

lemma cells_Suc_last: "cells d (Suc n) = insert (d + 2 * int n) (cells d n)"
proof (induction n arbitrary: d)
  case (Suc n)
  have "cells d (Suc (Suc n)) = insert d (insert (d + 2 + 2 * int n) (cells (d + 2) n))"
    by (subst cells_Suc) (simp only: Suc.IH)
  then show ?case by (simp add: cells_Suc [of d n] insert_commute algebra_simps)
qed (simp add: cells_Suc)

lemma setw_loop_at: "setw_loop d v n m a = (if a \<in> cells d n then v else m a)"
  by (induction n arbitrary: d m) (auto simp: cells_Suc)

lemma cpyw_loop_at:
  "d \<le> s \<Longrightarrow> cpyw_loop d s n m a = (if a \<in> cells d n then m (a - d + s) else m a)"
proof (induction n arbitrary: d s m)
  case (Suc n)
  have "d \<notin> cells (d + 2) n" by (simp add: cells_def)
  moreover have "(m(d := m s)) (a - (d + 2) + (s + 2)) = m (a - d + s)" if "a \<in> cells (d + 2) n"
  proof -
    have "a - (d + 2) + (s + 2) = a - d + s" "a - d + s \<noteq> d"
      using that Suc.prems by (auto simp: cells_def)
    then show ?thesis by (simp only: fun_upd_other not_False_eq_True)
  qed
  ultimately show ?case using Suc.prems by (simp add: Suc.IH cells_Suc)
qed simp

lemma cpyw_back_loop_at:
  "s \<le> d \<Longrightarrow> cpyw_back_loop (d + 2 * int n) (s + 2 * int n) n m a =
     (if a \<in> cells d n then m (a - d + s) else m a)"
proof (induction n arbitrary: m)
  case (Suc n)
  let ?d = "d + 2 * int n" and ?s = "s + 2 * int n"
  have "?d \<notin> cells d n" by (simp add: cells_def)
  moreover have "(m(?d := m ?s)) (a - d + s) = m (a - d + s)" if "a \<in> cells d n"
    using that Suc.prems by (auto simp: cells_def)
  moreover have "d + 2 * int (Suc n) - 2 = ?d" "s + 2 * int (Suc n) - 2 = ?s" by simp_all
  ultimately show ?case
    using Suc.IH [of "m(?d := m ?s)"] Suc.prems by (simp only: cpyw_back_loop.simps cells_Suc_last) (auto simp: add.commute)
qed simp

lemma insert_loop_outside: "a \<notin> cells p n \<Longrightarrow> insert_loop n p old m a = m a"
  by (induction n arbitrary: p old m) (auto simp: cells_Suc)

lemma delete_loop_outside: "a \<notin> cells p (Suc n) \<Longrightarrow> delete_loop n p m a = m a"
  by (induction n arbitrary: p m) (auto simp: cells_Suc)

lemma ulong_nat_small: "0 \<le> n \<Longrightarrow> n < 2 ^ 64 \<Longrightarrow> ulong_nat n = nat n"
  by (simp add: ulong_nat_def)

section \<open>Staying on the screen\<close>

definition con_wf :: "con \<Rightarrow> bool" where
  "con_wf c \<longleftrightarrow> con_columns c = 80 \<and> con_lines c = 25 \<and>
     SCREEN_START \<le> con_origin c \<and> con_scr_end c = con_origin c + 4000 \<and> con_scr_end c \<le> SCREEN_END \<and>
     0 \<le> con_x c \<and> con_x c \<le> 80 \<and> 0 \<le> con_y c \<and> con_y c < 25 \<and>
     con_pos c = con_origin c + (con_y c * 80 + con_x c) * 2 \<and>
     0 \<le> con_top c \<and> con_top c < con_bottom c \<and> con_bottom c \<le> 25 \<and>
     0 \<le> saved_x c \<and> saved_x c \<le> 80 \<and> 0 \<le> saved_y c \<and> saved_y c < 25 \<and>
     con_npar c < NPAR \<and> length (con_par c) = NPAR"

text \<open>Memory outside the video area is as in \<open>m0\<close>.\<close>

definition on_screen :: "(int \<Rightarrow> u16) \<Rightarrow> con \<Rightarrow> bool" where
  "on_screen m0 c \<longleftrightarrow> (\<forall>a. a < SCREEN_START \<or> SCREEN_END \<le> a \<longrightarrow> vmem c a = m0 a)"

definition con_safe :: "(int \<Rightarrow> u16) \<Rightarrow> con \<Rightarrow> bool" where
  "con_safe m0 c \<longleftrightarrow> con_wf c \<and> on_screen m0 c"

lemma on_screen_vmem: "vmem c' = vmem c \<Longrightarrow> on_screen m0 c' = on_screen m0 c"
  by (simp add: on_screen_def)

lemma vmem_memsetw:
  "0 \<le> n \<Longrightarrow> n < 2 ^ 32 \<Longrightarrow> vmem (memsetw d v n c) a = (if a \<in> cells d (nat n) then v else vmem c a)"
  by (simp add: memsetw_def setw_loop_at ulong_nat_small)

lemma vmem_memcpyw:
  "0 \<le> n \<Longrightarrow> n < 2 ^ 32 \<Longrightarrow> d \<le> s \<Longrightarrow>
   vmem (memcpyw d s n c) a = (if a \<in> cells d (nat n) then vmem c (a - d + s) else vmem c a)"
  by (simp add: memcpyw_def cpyw_loop_at ulong_nat_small)

lemma vmem_memcpyw_backward:
  assumes "0 \<le> n" "n < 2 ^ 32" "s \<le> d"
  shows "vmem (memcpyw_backward d s n c) a = (if a \<in> cells d (nat n) then vmem c (a - d + s) else vmem c a)"
proof -
  obtain k where "n = int k" using assms(1) nonneg_int_cases by blast
  then show ?thesis
    using assms cpyw_back_loop_at [of s d k "vmem c"]
    by (simp add: memcpyw_backward_def Let_def ulong_nat_small)
qed

lemma memsetw_on:
  assumes "on_screen m0 c" "0 \<le> n" "n < 2 ^ 32" "SCREEN_START \<le> d" "d + 2 * n \<le> SCREEN_END"
  shows "on_screen m0 (memsetw d v n c)"
  using assms by (auto simp: on_screen_def vmem_memsetw cells_def)

lemma memcpyw_on:
  assumes "on_screen m0 c" "0 \<le> n" "n < 2 ^ 32" "SCREEN_START \<le> d" "d + 2 * n \<le> SCREEN_END" "d \<le> s"
  shows "on_screen m0 (memcpyw d s n c)"
  using assms by (auto simp: on_screen_def vmem_memcpyw cells_def)

lemma memcpyw_backward_on:
  assumes "on_screen m0 c" "0 \<le> n" "n < 2 ^ 32" "SCREEN_START \<le> d" "d + 2 * n \<le> SCREEN_END" "s \<le> d"
  shows "on_screen m0 (memcpyw_backward d s n c)"
  using assms by (auto simp: on_screen_def vmem_memcpyw_backward cells_def)

lemma memsetw_more: "con_wf (memsetw d v n c) = con_wf c"
  by (simp add: con_wf_def memsetw_def)

lemma memcpyw_more: "con_wf (memcpyw d s n c) = con_wf c"
  by (simp add: con_wf_def memcpyw_def)

lemma memcpyw_backward_more: "con_wf (memcpyw_backward d s n c) = con_wf c"
  by (simp add: con_wf_def memcpyw_backward_def Let_def)

lemma outb_more: "con_wf (con_outb b p c) = con_wf c" "vmem (con_outb b p c) = vmem c"
  by (simp_all add: con_wf_def con_outb_def)

lemma set_origin_more: "con_wf (set_origin c) = con_wf c" "vmem (set_origin c) = vmem c"
  by (simp_all add: set_origin_def outb_more)

lemma set_cursor_more: "con_wf (set_cursor c) = con_wf c" "vmem (set_cursor c) = vmem c"
  by (simp_all add: set_cursor_def outb_more)

lemmas more_simps = memsetw_more memcpyw_more memcpyw_backward_more outb_more set_origin_more set_cursor_more

lemma memsetw_safe:
  assumes "con_safe m0 c" "0 \<le> n" "n < 2 ^ 32" "SCREEN_START \<le> d" "d + 2 * n \<le> SCREEN_END"
  shows "con_safe m0 (memsetw d v n c)"
  using assms by (simp add: con_safe_def memsetw_on memsetw_more)

lemma safe_wf: "con_safe m0 c \<Longrightarrow> con_wf c"
  by (simp add: con_safe_def)

lemma mem_fields [simp]:
  "con_origin (memsetw d v n c) = con_origin c" "con_scr_end (memsetw d v n c) = con_scr_end c"
  "con_pos (memsetw d v n c) = con_pos c" "con_columns (memsetw d v n c) = con_columns c"
  "con_lines (memsetw d v n c) = con_lines c"
  "con_origin (memcpyw d s n c) = con_origin c" "con_scr_end (memcpyw d s n c) = con_scr_end c"
  "con_pos (memcpyw d s n c) = con_pos c" "con_columns (memcpyw d s n c) = con_columns c"
  "con_lines (memcpyw d s n c) = con_lines c" "con_top (memcpyw d s n c) = con_top c"
  "con_bottom (memcpyw d s n c) = con_bottom c"
  "con_origin (memcpyw_backward d s n c) = con_origin c" "con_columns (memcpyw_backward d s n c) = con_columns c"
  "con_top (memcpyw_backward d s n c) = con_top c"
  by (simp_all add: memsetw_def memcpyw_def memcpyw_backward_def Let_def)

lemma scrdown_safe: "con_safe m0 c \<Longrightarrow> con_safe m0 (scrdown c)"
proof -
  assume s: "con_safe m0 c"
  note w = safe_wf [OF s, unfolded con_wf_def]
  have "on_screen m0 (scrdown c)"
    unfolding scrdown_def Let_def using w s
    by (intro memsetw_on memcpyw_backward_on) (auto simp: con_safe_def)
  then show ?thesis using s by (simp add: con_safe_def scrdown_def Let_def more_simps)
qed

text \<open>The two ways \<open>scrup\<close> scrolls the whole screen: by moving the origin, or back to the start.\<close>

lemma scrup_move:
  assumes "con_wf c" "con_top c = 0" "con_bottom c = 25" "con_scr_end c + 160 \<le> SCREEN_END"
  shows "scrup c = set_origin (memsetw (con_scr_end c) 0x0720 80
    (c\<lparr>con_origin := con_origin c + 160, con_pos := con_pos c + 160, con_scr_end := con_scr_end c + 160\<rparr>))"
  using assms by (simp add: scrup_def Let_def con_wf_def algebra_simps)

lemma scrup_copy:
  assumes "con_wf c" "con_top c = 0" "con_bottom c = 25" "con_scr_end c + 160 > SCREEN_END"
  shows "scrup c = set_origin ((memsetw (SCREEN_START + 3840) 0x0720 80
      (memcpyw SCREEN_START (con_origin c + 160) 1920
        (c\<lparr>con_origin := con_origin c + 160, con_pos := con_pos c + 160, con_scr_end := con_scr_end c + 160\<rparr>)))
     \<lparr>con_scr_end := SCREEN_START + 4000, con_pos := con_pos c - con_origin c + SCREEN_START, con_origin := SCREEN_START\<rparr>)"
  using assms by (simp add: scrup_def Let_def con_wf_def algebra_simps)

lemma scrup_region:
  assumes "\<not> (con_top c = 0 \<and> con_bottom c = con_lines c)"
  shows "scrup c = memsetw (con_origin c + con_columns c * 2 * (con_bottom c - 1)) 0x0720 (con_columns c)
    (memcpyw (con_origin c + con_columns c * 2 * con_top c) (con_origin c + con_columns c * 2 * (con_top c + 1))
       ((con_bottom c - con_top c - 1) * con_columns c) c)"
  unfolding scrup_def Let_def if_not_P [OF assms] by simp

lemma scrup_safe: "con_safe m0 c \<Longrightarrow> con_safe m0 (scrup c)"
proof -
  assume s: "con_safe m0 c"
  note wf = safe_wf [OF s]
  note w = wf [unfolded con_wf_def]
  have on: "on_screen m0 c" using s by (simp add: con_safe_def)
  consider "\<not> (con_top c = 0 \<and> con_bottom c = con_lines c)"
    | "con_top c = 0" "con_bottom c = 25" "con_scr_end c + 160 \<le> SCREEN_END"
    | "con_top c = 0" "con_bottom c = 25" "con_scr_end c + 160 > SCREEN_END"
    using w by fastforce
  then show ?thesis
  proof cases
    case 1
    have "on_screen m0 (scrup c)"
      unfolding scrup_region [OF 1] using w on by (intro memsetw_on memcpyw_on) auto
    then show ?thesis using wf by (simp add: con_safe_def scrup_region [OF 1] more_simps)
  next
    case 2
    let ?c = "c\<lparr>con_origin := con_origin c + 160, con_pos := con_pos c + 160, con_scr_end := con_scr_end c + 160\<rparr>"
    have "con_wf ?c" using w 2 by (simp add: con_wf_def)
    moreover have "on_screen m0 (memsetw (con_scr_end c) 0x0720 80 ?c)"
      using w 2 on by (intro memsetw_on) (auto simp: on_screen_def)
    ultimately show ?thesis
      by (simp add: con_safe_def scrup_move [OF wf 2] more_simps on_screen_vmem [of "set_origin _"])
  next
    case 3
    define u where "u = memsetw (SCREEN_START + 3840) 0x0720 80
      (memcpyw SCREEN_START (con_origin c + 160) 1920
        (c\<lparr>con_origin := con_origin c + 160, con_pos := con_pos c + 160, con_scr_end := con_scr_end c + 160\<rparr>))"
    define v where "v = u\<lparr>con_scr_end := SCREEN_START + 4000, con_pos := con_pos c - con_origin c + SCREEN_START,
      con_origin := SCREEN_START\<rparr>"
    have "on_screen m0 u"
      unfolding u_def using w 3 on by (intro memsetw_on memcpyw_on) (auto simp: on_screen_def)
    then have "on_screen m0 v" by (simp add: v_def on_screen_def)
    moreover have "con_wf v" using w by (simp add: v_def u_def con_wf_def memsetw_def memcpyw_def)
    ultimately show ?thesis
      unfolding scrup_copy [OF wf 3] u_def [symmetric] v_def [symmetric]
      by (simp add: con_safe_def more_simps on_screen_vmem [of "set_origin _"])
  qed
qed


lemma safe_fields:
  "con_safe m0 c \<Longrightarrow> con_wf c' \<Longrightarrow> vmem c' = vmem c \<Longrightarrow> con_safe m0 c'"
  by (simp add: con_safe_def on_screen_def)

lemma put_cell_safe:
  assumes "con_safe m0 c" "SCREEN_START \<le> a" "a < SCREEN_END"
  shows "con_safe m0 (put_cell a v c)"
  using assms by (auto simp: con_safe_def on_screen_def put_cell_def con_wf_def)

lemma gotoxy_safe:
  assumes "con_safe m0 c"
  shows "con_safe m0 (gotoxy a b c)"
  using safe_wf [OF assms] by (intro safe_fields [OF assms]) (auto simp: gotoxy_def con_wf_def)

lemma con_lf_safe:
  assumes "con_safe m0 c"
  shows "con_safe m0 (con_lf c)"
proof (cases "con_y c + 1 < con_bottom c")
  case True
  then show ?thesis
    using safe_wf [OF assms] by (intro safe_fields [OF assms]) (auto simp: con_lf_def con_wf_def)
next
  case False
  then show ?thesis using scrup_safe [OF assms] by (simp add: con_lf_def)
qed

lemma con_ri_safe:
  assumes "con_safe m0 c"
  shows "con_safe m0 (con_ri c)"
proof (cases "con_y c > con_top c")
  case True
  then show ?thesis
    using safe_wf [OF assms] by (intro safe_fields [OF assms]) (auto simp: con_ri_def con_wf_def)
next
  case False
  then show ?thesis using scrdown_safe [OF assms] by (simp add: con_ri_def)
qed

lemma con_cr_safe:
  assumes "con_safe m0 c"
  shows "con_safe m0 (con_cr c)"
  using safe_wf [OF assms] by (intro safe_fields [OF assms]) (auto simp: con_cr_def con_wf_def)

lemma con_del_safe: "con_safe m0 c \<Longrightarrow> con_safe m0 (con_del c)"
proof (cases "con_x c = 0")
  case False
  assume s: "con_safe m0 c"
  note w = safe_wf [OF s, unfolded con_wf_def]
  have "con_safe m0 (c\<lparr>con_pos := con_pos c - 2, con_x := con_x c - 1\<rparr>)"
    by (rule safe_fields [OF s]) (use w False in \<open>auto simp: con_wf_def\<close>)
  then show ?thesis
    using False w by (auto simp: con_del_def intro!: put_cell_safe)
qed (simp add: con_del_def)

lemma csi_J_safe: "con_safe m0 c \<Longrightarrow> con_safe m0 (csi_J p c)"
proof -
  assume s: "con_safe m0 c"
  note w = safe_wf [OF s, unfolded con_wf_def]
  show ?thesis
    unfolding csi_J_def using s w by (auto intro!: memsetw_safe)
qed

lemma csi_K_safe: "con_safe m0 c \<Longrightarrow> con_safe m0 (csi_K p c)"
proof -
  assume s: "con_safe m0 c"
  note w = safe_wf [OF s, unfolded con_wf_def]
  show ?thesis
    unfolding csi_K_def using s w by (auto intro!: memsetw_safe)
qed

lemma loop_safe:
  assumes "con_safe m0 c" "\<And>a. a \<notin> cells p n \<Longrightarrow> m a = vmem c a" "SCREEN_START \<le> p" "p + 2 * int n \<le> SCREEN_END"
  shows "con_safe m0 (c\<lparr>vmem := m\<rparr>)"
proof -
  have "m a = m0 a" if "a < SCREEN_START \<or> SCREEN_END \<le> a" for a
  proof -
    have "a \<notin> cells p n" using that assms(3,4) by (auto simp: cells_def)
    then show ?thesis using assms(1,2) that by (auto simp: con_safe_def on_screen_def)
  qed
  then show ?thesis using assms(1) by (simp add: con_safe_def con_wf_def on_screen_def)
qed

lemma insert_char_safe: "con_safe m0 c \<Longrightarrow> con_safe m0 (insert_char c)"
proof -
  assume s: "con_safe m0 c"
  note w = safe_wf [OF s, unfolded con_wf_def]
  show ?thesis
    unfolding insert_char_def
    by (rule loop_safe [OF s, where p = "con_pos c" and n = "nat (con_columns c - con_x c)"])
      (use w in \<open>auto simp: insert_loop_outside\<close>)
qed

lemma delete_char_safe: "con_safe m0 c \<Longrightarrow> con_safe m0 (delete_char c)"
proof (cases "con_x c \<ge> con_columns c")
  case False
  assume s: "con_safe m0 c"
  note w = safe_wf [OF s, unfolded con_wf_def]
  have "con_safe m0 (c\<lparr>vmem := delete_loop (nat (con_columns c - con_x c - 1)) (con_pos c) (vmem c)\<rparr>)"
    by (rule loop_safe [OF s, where p = "con_pos c" and n = "Suc (nat (con_columns c - con_x c - 1))"])
      (use w False in \<open>auto simp: delete_loop_outside\<close>)
  then show ?thesis using False by (simp add: delete_char_def)
qed (simp add: delete_char_def)

lemma with_region_safe:
  assumes "\<And>c. con_safe m0 c \<Longrightarrow> con_safe m0 (f c)" "con_safe m0 c"
  shows "con_safe m0 (with_region f c)"
proof -
  note w = safe_wf [OF assms(2), unfolded con_wf_def]
  define u where "u = f (c\<lparr>con_top := con_y c, con_bottom := con_lines c\<rparr>)"
  have "con_safe m0 (c\<lparr>con_top := con_y c, con_bottom := con_lines c\<rparr>)"
    by (rule safe_fields [OF assms(2)]) (use w in \<open>auto simp: con_wf_def\<close>)
  then have u: "con_safe m0 u" unfolding u_def by (rule assms(1))
  show ?thesis
    unfolding with_region_def u_def [symmetric]
    by (rule safe_fields [OF u]) (use w safe_wf [OF u] in \<open>auto simp: con_wf_def\<close>)
qed

lemma funpow_safe: "(\<And>c. con_safe m0 c \<Longrightarrow> con_safe m0 (f c)) \<Longrightarrow> con_safe m0 c \<Longrightarrow> con_safe m0 ((f ^^ n) c)"
  by (induction n) simp_all

lemma csi_loops_safe:
  assumes "con_safe m0 c"
  shows "con_safe m0 (csi_at n c)" "con_safe m0 (csi_P n c)" "con_safe m0 (csi_L n c)" "con_safe m0 (csi_M n c)"
  unfolding csi_at_def csi_P_def csi_L_def csi_M_def insert_line_def delete_line_def
  by (intro funpow_safe assms insert_char_safe delete_char_safe with_region_safe scrdown_safe scrup_safe; assumption)+

lemma small_safe:
  assumes "con_safe m0 c"
  shows "con_safe m0 (csi_m c)" "con_safe m0 (save_cur c)" "con_safe m0 (restore_cur c)"
    "con_safe m0 (set_par i v c)" "con_safe m0 (par_down i c)" "con_safe m0 (par_up c)" "con_safe m0 (con_go a b c)"
    "con_safe m0 (c\<lparr>con_state := k\<rparr>)"
proof -
  note w = safe_wf [OF assms, unfolded con_wf_def]
  show "con_safe m0 (csi_m c)" "con_safe m0 (save_cur c)" "con_safe m0 (restore_cur c)"
    "con_safe m0 (c\<lparr>con_state := k\<rparr>)"
    by (rule safe_fields [OF assms]; use w in \<open>auto simp: con_wf_def csi_m_def save_cur_def restore_cur_def\<close>)+
  show par: "con_safe m0 (set_par i v c)" for i v
    by (rule safe_fields [OF assms]; use w in \<open>auto simp: con_wf_def set_par_def\<close>)
  show "con_safe m0 (par_down i c)" "con_safe m0 (par_up c)" using par assms by (auto simp: par_down_def par_up_def)
  show "con_safe m0 (con_go a b c)" unfolding con_go_def by (rule gotoxy_safe [OF assms])
qed


lemma if_safe: "(P \<Longrightarrow> con_safe m0 a) \<Longrightarrow> (\<not> P \<Longrightarrow> con_safe m0 b) \<Longrightarrow> con_safe m0 (if P then a else b)"
  by simp

lemma region_safe:
  assumes "con_safe m0 c"
  shows "con_safe m0 (if p < q \<and> uint (q :: u64) \<le> con_lines c then c\<lparr>con_top := uint p, con_bottom := uint q\<rparr> else c)"
proof (cases "p < q \<and> uint q \<le> con_lines c")
  case True
  have "con_wf (c\<lparr>con_top := uint p, con_bottom := uint q\<rparr>)"
    using safe_wf [OF assms] True by (simp add: con_wf_def word_less_def)
  then show ?thesis using True safe_fields [OF assms] by simp
qed (use assms in auto)

lemma con_csi_safe:
  assumes "con_safe m0 c"
  shows "con_safe m0 (con_csi ch c)"
  unfolding con_csi_def Let_def
  by (intro if_safe region_safe small_safe csi_loops_safe csi_J_safe csi_K_safe assms)

lemma con_wrap_safe:
  assumes "con_safe m0 (c\<lparr>con_x := con_x c - con_columns c, con_pos := con_pos c - con_columns c * 2\<rparr>)"
  shows "con_safe m0 (con_wrap c)"
  unfolding con_wrap_def by (rule con_lf_safe [OF assms])

lemma con_lf_x [simp]: "con_x (con_lf c) = con_x c" "con_columns (con_lf c) = con_columns c"
  by (simp_all add: con_lf_def scrup_def Let_def set_origin_def con_outb_def memsetw_def memcpyw_def)

lemma put_char_safe:
  assumes "con_safe m0 c" "con_x c < 80"
  shows "con_safe m0 ((put_cell (con_pos c) v c)\<lparr>con_pos := con_pos c + 2, con_x := con_x c + 1\<rparr>)"
proof -
  note w = safe_wf [OF assms(1), unfolded con_wf_def]
  have "con_safe m0 (put_cell (con_pos c) v c)"
    using w assms by (intro put_cell_safe) auto
  then show ?thesis
    by (rule safe_fields) (use w assms(2) in \<open>auto simp: con_wf_def put_cell_def\<close>)
qed

lemma con_text_safe:
  assumes "con_safe m0 c"
  shows "con_safe m0 (con_text erase b c)"
proof -
  note w = safe_wf [OF assms, unfolded con_wf_def]
  have txt1: "con_safe m0 (let c = (if con_x c \<ge> con_columns c then con_wrap c else c);
        c = put_cell (con_pos c) (v c) c in c\<lparr>con_pos := con_pos c + 2, con_x := con_x c + 1\<rparr>)" for v
  proof (cases "con_x c \<ge> con_columns c")
    case True
    have "con_safe m0 (c\<lparr>con_x := con_x c - con_columns c, con_pos := con_pos c - con_columns c * 2\<rparr>)"
      by (rule safe_fields [OF assms]) (use w True in \<open>auto simp: con_wf_def\<close>)
    then have "con_safe m0 (con_wrap c)" by (rule con_wrap_safe)
    moreover have "con_x (con_wrap c) < 80" using True w by (simp add: con_wrap_def)
    ultimately show ?thesis
      using True put_char_safe [of m0 "con_wrap c" "v (con_wrap c)"] by (simp add: Let_def put_cell_def)
  next
    case False
    then show ?thesis using put_char_safe [OF assms, of "v c"] w by (simp add: Let_def put_cell_def)
  qed
  have bs: "con_safe m0 (if con_x c \<noteq> 0 then c\<lparr>con_x := con_x c - 1, con_pos := con_pos c - 2\<rparr> else c)"
    by (intro if_safe assms safe_fields [OF assms]) (use w in \<open>auto simp: con_wf_def\<close>)
  define k where "k = 8 - con_x c mod 8"
  define d where "d = c\<lparr>con_x := con_x c + k, con_pos := con_pos c + k * 2\<rparr>"
  have k: "1 \<le> k" "k \<le> 8" "con_x c < 80 \<Longrightarrow> con_x c + k \<le> 80"
    using w unfolding k_def by presburger+
  have tab: "con_safe m0 (if con_x d > con_columns d then con_wrap d else d)"
  proof (rule if_safe)
    assume "con_x d > con_columns d"
    then have "\<not> con_x c < 80" using k(3) w by (auto simp: d_def)
    then have "con_x c = 80" using w by linarith
    then have "con_wf (d\<lparr>con_x := con_x d - con_columns d, con_pos := con_pos d - con_columns d * 2\<rparr>)"
      using w k by (simp add: con_wf_def d_def)
    then have "con_safe m0 (d\<lparr>con_x := con_x d - con_columns d, con_pos := con_pos d - con_columns d * 2\<rparr>)"
      by (rule safe_fields [OF assms]) (simp add: d_def)
    then show "con_safe m0 (con_wrap d)" by (rule con_wrap_safe)
  next
    assume "\<not> con_x d > con_columns d"
    then show "con_safe m0 d"
      by (intro safe_fields [OF assms]) (use w k in \<open>auto simp: con_wf_def d_def\<close>)
  qed
  then have tab1: "con_safe m0 (let k = 8 - con_x c mod 8; c = c\<lparr>con_x := con_x c + k, con_pos := con_pos c + k * 2\<rparr>
      in if con_x c > con_columns c then con_wrap c else c)"
    unfolding d_def k_def Let_def .
  show ?thesis
    unfolding con_text_def Let_def [of "sint b"]
    by (intro if_safe txt1 small_safe con_lf_safe con_cr_safe con_del_safe bs tab1 assms)
qed

lemma con_param_safe:
  assumes "con_safe m0 c"
  shows "con_safe m0 (con_param ch c)"
proof -
  note w = safe_wf [OF assms, unfolded con_wf_def]
  have "con_safe m0 (c\<lparr>con_npar := con_npar c + 1\<rparr>)" if "con_npar c < NPAR - 1"
    by (rule safe_fields [OF assms]) (use w that in \<open>auto simp: con_wf_def\<close>)
  then show ?thesis
    unfolding con_param_def by (intro if_safe small_safe con_csi_safe assms) auto
qed

lemma con_putc_safe_lemma:
  assumes "con_safe m0 c"
  shows "con_safe m0 (fst (con_putc erase b c))"
proof -
  note w = safe_wf [OF assms, unfolded con_wf_def]
  have esc: "con_safe m0 (fst (con_escape ch c))" for ch
    using small_safe [OF assms] assms
    by (auto simp: con_escape_def Let_def intro!: small_safe con_ri_safe con_lf_safe)
  have two: "con_safe m0 (c\<lparr>con_par := replicate NPAR 0, con_npar := 0, con_state := 3, con_ques := q\<rparr>)" for q
    by (rule safe_fields [OF assms]) (use w in \<open>auto simp: con_wf_def\<close>)
  show ?thesis
    using two by (auto simp: con_putc_def Let_def
        intro!: con_text_safe esc con_param_safe con_csi_safe small_safe(8) assms)
qed


text \<open>The output of a sequence of bytes, none of which makes the terminal respond.\<close>

definition con_puts :: "u8 \<Rightarrow> u8 list \<Rightarrow> con \<Rightarrow> con" where
  "con_puts erase bs c = fold (\<lambda>b c. fst (con_putc erase b c)) bs c"

lemma con_puts_safe: "con_safe m0 c \<Longrightarrow> con_safe m0 (con_puts erase bs c)"
  by (induction bs arbitrary: c) (simp_all add: con_puts_def con_putc_safe_lemma)

lemma con_start_safe:
  assumes "bx < 80" "by' < 25"
  shows "con_safe m (con_init_cursor bx by' (con_start m))"
proof -
  have "uint bx < 80" "uint by' < 25" using assms by (simp_all add: word_less_def)
  then show ?thesis
    by (simp add: con_init_cursor_def gotoxy_def con_start_def con_safe_def con_wf_def on_screen_def uint_up_ucast is_up)
qed

text \<open>
  C8: from a cursor the boot code left on the screen, no sequence of output bytes makes the
  console write outside the video memory: cursor, scroll region and saved cursor stay in
  range whatever escape sequences the bytes contain.
\<close>

theorem console_memory_safe:
  assumes "bx < 80" "by' < 25" "c = con_puts erase bs (con_init_cursor bx by' (con_start m))"
  shows "con_wf c \<and> (\<forall>a. a < SCREEN_START \<or> SCREEN_END \<le> a \<longrightarrow> vmem c a = m a)"
proof -
  have "con_safe m c" unfolding assms(3) by (intro con_puts_safe con_start_safe assms(1,2))
  then show ?thesis by (simp add: con_safe_def on_screen_def)
qed

theorem console_memory_safe_witness:
  "con_wf (con_puts 127 [27, 91, 57, 57, 59, 49, 72, 65, 10] (con_init_cursor 3 24 (con_start (\<lambda>_. 0)))) \<and>
   vmem (con_puts 127 [27, 91, 57, 57, 59, 49, 72, 65, 10] (con_init_cursor 3 24 (con_start (\<lambda>_. 0)))) 0 = 0"
  using console_memory_safe [of 3 24 "con_puts 127 [27, 91, 57, 57, 59, 49, 72, 65, 10] (con_init_cursor 3 24 (con_start (\<lambda>_. 0)))"
      127 "[27, 91, 57, 57, 59, 49, 72, 65, 10]" "\<lambda>_. 0"]
  by simp

section \<open>What is on the screen\<close>

definition cell :: "con \<Rightarrow> int \<Rightarrow> int \<Rightarrow> u16" where
  "cell c row col = vmem c (con_origin c + (row * 80 + col) * 2)"

lemma cells_row: "(p + k * 2 \<in> cells p (nat n)) \<longleftrightarrow> 0 \<le> k \<and> k < n"
  by (auto simp: cells_def)

lemma outb_fields [simp]:
  "con_origin (set_origin c) = con_origin c" "con_x (set_origin c) = con_x c" "con_y (set_origin c) = con_y c"
  by (simp_all add: set_origin_def con_outb_def)




lemma grid_inj:
  fixes r k r' k' :: int
  assumes "0 \<le> k" "k < 80" "0 \<le> k'" "k' < 80"
  shows "r * 80 + k = r' * 80 + k' \<longleftrightarrow> r = r' \<and> k = k'"
proof
  assume eq: "r * 80 + k = r' * 80 + k'"
  have "(r * 80 + k) div 80 = r" "(r' * 80 + k') div 80 = r'" using assms by simp_all
  then show "r = r' \<and> k = k'" using eq by auto
qed auto

definition printable :: "u8 \<Rightarrow> bool" where
  "printable b \<longleftrightarrow> 32 \<le> b \<and> b < 127"

lemma printable_sint: "printable b \<Longrightarrow> sint b > 31 \<and> sint b < 127"
proof -
  assume "printable b"
  then have "32 \<le> uint b" "uint b < 127" by (simp_all add: printable_def word_le_def word_less_def)
  moreover from this have "sint b = uint b"
    by (simp add: sint_uint signed_take_bit_int_eq_self)
  ultimately show ?thesis by simp
qed

definition glyph :: "u8 \<Rightarrow> u8 \<Rightarrow> u16" where
  "glyph a b = push_bit 8 (ucast a) OR ucast b"

lemma putc_printable:
  assumes "con_wf c" "con_state c = 0" "con_x c < 80" "printable b"
  shows "fst (con_putc erase b c) =
    c\<lparr>vmem := (vmem c)(con_pos c := glyph (con_attr c) b), con_pos := con_pos c + 2, con_x := con_x c + 1\<rparr>"
  using assms printable_sint [OF assms(4)]
  by (simp add: con_putc_def con_text_def Let_def put_cell_def con_wf_def glyph_def)



text \<open>The escape sequences that should save and restore the cursor test the column instead.\<close>

lemma escape_7_ignored:
  "con_x c \<noteq> 55 \<Longrightarrow> con_x c \<noteq> 56 \<Longrightarrow> con_escape CHR ''7'' c = (c\<lparr>con_state := 0\<rparr>, False)"
  by (simp add: con_escape_def Let_def)

end
