(* ===== verification/Tty_Io.thy ===== *)
theory Tty_Io
  imports Sched Tty_Queue Console Kstring
begin

text \<open>
  Terminals: \<open>src/include/termios.h\<close>, \<open>src/include/linux/tty.h\<close>, \<open>src/kernel/tty_io.c\<close>, the driver half of
  \<open>src/kernel/console.c\<close> (\<open>con_write\<close>) and \<open>src/kernel/serial.c\<close>. A \<open>struct tty_struct *\<close> is the
  index into \<open>tty_table\<close>. The function pointer \<open>write\<close> is a value of \<open>tty_driver\<close>.

  \<open>env\<close> is what an operation needs from outside: \<open>e_run\<close>, what the other tasks do while this
  one sleeps; \<open>e_inb\<close>, the byte a port returns; \<open>e_fuel\<close>, how often a loop that waits for them
  may turn before the model gives up with \<open>Diverge\<close>.
\<close>

section \<open>State\<close>

record 's env =
  e_run :: "'s \<Rightarrow> 's"
  e_inb :: "u16 \<Rightarrow> u8"
  e_fuel :: nat

record termios =
  c_iflag :: u64
  c_oflag :: u64
  c_cflag :: u64
  c_lflag :: u64
  c_line :: u8
  c_cc :: "u8 list"
  c_pad :: "u8 list" \<comment> \<open>the six bytes of padding at the end\<close>

datatype tty_driver = Con_write | Rs_write

record tty_struct =
  tt_termios :: termios
  tt_pgrp :: int
  tt_stopped :: int
  tt_write :: tty_driver
  tt_read_q :: tty_queue
  tt_write_q :: tty_queue
  tt_secondary :: tty_queue

record ttys = sched +
  tty_table :: "tty_struct list"
  cr_flag :: bool
  console :: con

abbreviation VINTR :: nat where "VINTR \<equiv> 0"
abbreviation VERASE :: nat where "VERASE \<equiv> 2"
abbreviation VEOF :: nat where "VEOF \<equiv> 4"
abbreviation VTIME :: nat where "VTIME \<equiv> 5"
abbreviation VMIN :: nat where "VMIN \<equiv> 6"
abbreviation VSTART :: nat where "VSTART \<equiv> 8"
abbreviation VSTOP :: nat where "VSTOP \<equiv> 9"

abbreviation INLCR :: u64 where "INLCR \<equiv> 0x40"
abbreviation IGNCR :: u64 where "IGNCR \<equiv> 0x80"
abbreviation ICRNL :: u64 where "ICRNL \<equiv> 0x100"
abbreviation IUCLC :: u64 where "IUCLC \<equiv> 0x200"
abbreviation OPOST :: u64 where "OPOST \<equiv> 1"
abbreviation OLCUC :: u64 where "OLCUC \<equiv> 2"
abbreviation ONLCR :: u64 where "ONLCR \<equiv> 4"
abbreviation OCRNL :: u64 where "OCRNL \<equiv> 8"
abbreviation ONLRET :: u64 where "ONLRET \<equiv> 0x20"
abbreviation ISIG :: u64 where "ISIG \<equiv> 1"
abbreviation ICANON :: u64 where "ICANON \<equiv> 2"
abbreviation ECHO :: u64 where "ECHO \<equiv> 8"
abbreviation ECHOCTL :: u64 where "ECHOCTL \<equiv> 0x200"
abbreviation ECHOKE :: u64 where "ECHOKE \<equiv> 0x800"

definition L_FLAG :: "tty_struct \<Rightarrow> u64 \<Rightarrow> bool" where "L_FLAG t f = has_bits (c_lflag (tt_termios t)) f"
definition I_FLAG :: "tty_struct \<Rightarrow> u64 \<Rightarrow> bool" where "I_FLAG t f = has_bits (c_iflag (tt_termios t)) f"
definition O_FLAG :: "tty_struct \<Rightarrow> u64 \<Rightarrow> bool" where "O_FLAG t f = has_bits (c_oflag (tt_termios t)) f"

definition tty_cc :: "tty_struct \<Rightarrow> nat \<Rightarrow> u8" where "tty_cc t i = c_cc (tt_termios t) ! i"

definition INIT_C_CC :: "u8 list" where
  "INIT_C_CC = [3, 28, 127, 21, 4, 0, 1, 0, 17, 19, 25, 0, 18, 15, 23, 22, 0]"

definition empty_q :: "u64 \<Rightarrow> tty_queue" where
  "empty_q port = \<lparr>q_data = port, q_head = 0, q_tail = 0, q_proc_list = 0, q_buf = replicate TTY_BUF_SIZE 0\<rparr>"

text \<open>The initial table; \<open>B2400 | CS8\<close> is \<open>0x3B\<close>.\<close>

definition tty_table_init :: "tty_struct list" where
  "tty_table_init =
     (let rs = (\<lambda>port.
          \<lparr>tt_termios = \<lparr>c_iflag = 0, c_oflag = OPOST OR ONLRET, c_cflag = 0x3B, c_lflag = 0, c_line = 0, c_cc = INIT_C_CC, c_pad = replicate 6 0\<rparr>,
           tt_pgrp = 0, tt_stopped = 0, tt_write = Rs_write,
           tt_read_q = empty_q port, tt_write_q = empty_q port, tt_secondary = empty_q 0\<rparr>) in
      [\<lparr>tt_termios = \<lparr>c_iflag = 0, c_oflag = OPOST OR ONLCR, c_cflag = 0,
                      c_lflag = ICANON OR ECHO OR ECHOCTL OR ECHOKE, c_line = 0, c_cc = INIT_C_CC, c_pad = replicate 6 0\<rparr>,
        tt_pgrp = 0, tt_stopped = 0, tt_write = Con_write,
        tt_read_q = empty_q 0, tt_write_q = empty_q 0, tt_secondary = empty_q 0\<rparr>,
       rs 0x3f8, rs 0x2f8])"

abbreviation tty :: "'a ttys_scheme \<Rightarrow> nat \<Rightarrow> tty_struct" where "tty s n \<equiv> tty_table s ! n"

definition upd_tty :: "nat \<Rightarrow> (tty_struct \<Rightarrow> tty_struct) \<Rightarrow> 'a ttys_scheme \<Rightarrow> 'a ttys_scheme" where
  "upd_tty n f s = s\<lparr>tty_table := (tty_table s)[n := f (tty_table s ! n)]\<rparr>"

definition upd_read_q :: "nat \<Rightarrow> (tty_queue \<Rightarrow> tty_queue) \<Rightarrow> 'a ttys_scheme \<Rightarrow> 'a ttys_scheme" where
  "upd_read_q n f = upd_tty n (\<lambda>t. t\<lparr>tt_read_q := f (tt_read_q t)\<rparr>)"

definition upd_write_q :: "nat \<Rightarrow> (tty_queue \<Rightarrow> tty_queue) \<Rightarrow> 'a ttys_scheme \<Rightarrow> 'a ttys_scheme" where
  "upd_write_q n f = upd_tty n (\<lambda>t. t\<lparr>tt_write_q := f (tt_write_q t)\<rparr>)"

definition upd_secondary :: "nat \<Rightarrow> (tty_queue \<Rightarrow> tty_queue) \<Rightarrow> 'a ttys_scheme \<Rightarrow> 'a ttys_scheme" where
  "upd_secondary n f = upd_tty n (\<lambda>t. t\<lparr>tt_secondary := f (tt_secondary t)\<rparr>)"

definition sec_wait :: "nat \<Rightarrow> 'a ttys_scheme cell" where
  "sec_wait n = (\<lambda>s. q_proc_list (tt_secondary (tty s n)), \<lambda>v. upd_secondary n (\<lambda>q. q\<lparr>q_proc_list := v\<rparr>))"

definition wr_wait :: "nat \<Rightarrow> 'a ttys_scheme cell" where
  "wr_wait n = (\<lambda>s. q_proc_list (tt_write_q (tty s n)), \<lambda>v. upd_write_q n (\<lambda>q. q\<lparr>q_proc_list := v\<rparr>))"

interpretation sec: wait_cell "\<lambda>s :: 'a ttys_scheme. n < length (tty_table s)" "fst (sec_wait n)" "snd (sec_wait n)" for n
  by unfold_locales (simp_all add: sec_wait_def upd_secondary_def upd_tty_def)

interpretation wrq: wait_cell "\<lambda>s :: 'a ttys_scheme. n < length (tty_table s)" "fst (wr_wait n)" "snd (wr_wait n)" for n
  by unfold_locales (simp_all add: wr_wait_def upd_write_q_def upd_tty_def)

section \<open>Signals and waiting\<close>

definition tty_intr :: "nat \<Rightarrow> nat \<Rightarrow> 'a ttys_scheme \<Rightarrow> 'a ttys_scheme" where
  "tty_intr n sig s =
     (if tt_pgrp (tty s n) \<le> 0 then s
      else fold (\<lambda>i s. if task s ! i \<noteq> 0 \<and> t_pgrp (task_at s (task s ! i)) = tt_pgrp (tty s n)
                       then upd_task (task s ! i) (raise_sig sig) s else s) [0..<NR_TASKS] s)"

fun sleep_while :: "nat \<Rightarrow> ('a ttys_scheme, 'e) env_scheme \<Rightarrow> ('a ttys_scheme \<Rightarrow> bool) \<Rightarrow> 'a ttys_scheme cell \<Rightarrow>
    'a ttys_scheme \<Rightarrow> ('a ttys_scheme, unit) res" where
  "sleep_while 0 E b p s = Inl Diverge"
| "sleep_while (Suc fuel) E b p s =
     (if t_signal (cur s) = 0 \<and> b s
      then bindE (interruptible_sleep_on (e_run E) p s) (\<lambda>(_, s). sleep_while fuel E b p s)
      else Inr ((), s))"

definition sleep_if_empty :: "('a ttys_scheme, 'e) env_scheme \<Rightarrow> nat \<Rightarrow> 'a ttys_scheme \<Rightarrow> ('a ttys_scheme, unit) res" where
  "sleep_if_empty E n s = sleep_while (e_fuel E) E (\<lambda>s. EMPTY (tt_secondary (tty s n))) (sec_wait n) s"

definition sleep_if_full :: "('a ttys_scheme, 'e) env_scheme \<Rightarrow> nat \<Rightarrow> 'a ttys_scheme \<Rightarrow> ('a ttys_scheme, unit) res" where
  "sleep_if_full E n s =
     (if \<not> FULL (tt_write_q (tty s n)) then Inr ((), s)
      else sleep_while (e_fuel E) E (\<lambda>s. QLEFT (tt_write_q (tty s n)) < 128) (wr_wait n) s)"

section \<open>The line discipline\<close>

text \<open>A signed character compared with an \<open>unsigned char\<close> of \<open>c_cc\<close>.\<close>

definition ceq :: "u8 \<Rightarrow> u8 \<Rightarrow> bool" where "ceq c e = (sint c = uint e)"

text \<open>\<open>tolower\<close> and \<open>toupper\<close> index a table; a character above 127 is negative and out of it.\<close>

definition char_case :: "(u8 \<Rightarrow> int) \<Rightarrow> u8 \<Rightarrow> 's kstop + u8" where
  "char_case f c =
     (if sint c < -1 then Inl Fault else if sint c = -1 then Inr c else Inr (word_of_int (f c)))"

definition map_input :: "tty_struct \<Rightarrow> u8 \<Rightarrow> u8 option" where
  "map_input t c =
     (if c = 13 then if I_FLAG t ICRNL then Some 10 else if I_FLAG t IGNCR then None else Some c
      else if c = 10 \<and> I_FLAG t INLCR then Some 13
      else Some c)"

text \<open>The branch for the erase character.\<close>

definition cook_erase :: "('a ttys_scheme \<Rightarrow> ('a ttys_scheme, unit) res) \<Rightarrow> nat \<Rightarrow> 'a ttys_scheme \<Rightarrow> ('a ttys_scheme, unit) res" where
  "cook_erase wr n s =
     (let t = tty s n; c = LAST (tt_secondary t) in
      if EMPTY (tt_secondary t) \<or> c = 10 \<or> ceq c (tty_cc t VEOF) then Inr ((), s)
      else bindE (if L_FLAG t ECHO
                  then let s = (if sint c < 32 then upd_write_q n (PUTCH 127) s else s)
                       in wr (upd_write_q n (PUTCH 127) s)
                  else Inr ((), s))
        (\<lambda>(_, s). Inr ((), upd_secondary n unput s)))"

text \<open>The echo of an ordinary character.\<close>

definition cook_echo :: "nat \<Rightarrow> u8 \<Rightarrow> 'a ttys_scheme \<Rightarrow> 'a ttys_scheme" where
  "cook_echo n c s =
     (if c = 10 then upd_write_q n (PUTCH 13) (upd_write_q n (PUTCH 10) s)
      else if sint c < 32 then
        if L_FLAG (tty s n) ECHOCTL then upd_write_q n (PUTCH (c + 64)) (upd_write_q n (PUTCH 94) s) else s
      else upd_write_q n (PUTCH c) s)"

definition cook_char :: "('a ttys_scheme \<Rightarrow> ('a ttys_scheme, unit) res) \<Rightarrow> nat \<Rightarrow> u8 \<Rightarrow> 'a ttys_scheme \<Rightarrow> ('a ttys_scheme, unit) res" where
  "cook_char wr n c s =
     (let t = tty s n in
      if L_FLAG t ICANON \<and> ceq c (tty_cc t VERASE) then cook_erase wr n s
      else if L_FLAG t ICANON \<and> ceq c (tty_cc t VSTOP) then Inr ((), upd_tty n (\<lambda>t. t\<lparr>tt_stopped := 1\<rparr>) s)
      else if L_FLAG t ICANON \<and> ceq c (tty_cc t VSTART) then Inr ((), upd_tty n (\<lambda>t. t\<lparr>tt_stopped := 0\<rparr>) s)
      else if \<not> L_FLAG t ISIG \<and> ceq c (tty_cc t VINTR) then Inr ((), tty_intr n SIGINT s)
      else
        let s = (if c = 10 \<or> ceq c (tty_cc t VEOF) then upd_secondary n (\<lambda>q. q\<lparr>q_data := q_data q + 1\<rparr>) s else s) in
        bindE (if L_FLAG t ECHO then wr (cook_echo n c s) else Inr ((), s))
          (\<lambda>(_, s). Inr ((), upd_secondary n (PUTCH c) s)))"

definition cook_one :: "('a ttys_scheme \<Rightarrow> ('a ttys_scheme, unit) res) \<Rightarrow> nat \<Rightarrow> 'a ttys_scheme \<Rightarrow> ('a ttys_scheme, unit) res" where
  "cook_one wr n s =
     (let (c, q) = GETCH (tt_read_q (tty s n)); s = upd_read_q n (\<lambda>_. q) s; t = tty s n in
      case map_input t c of
        None \<Rightarrow> Inr ((), s)
      | Some c \<Rightarrow>
          bindE (if I_FLAG t IUCLC then char_case tolower c else Inr c) (\<lambda>c. cook_char wr n c s))"

fun cook_loop :: "nat \<Rightarrow> ('a ttys_scheme \<Rightarrow> ('a ttys_scheme, unit) res) \<Rightarrow> nat \<Rightarrow> 'a ttys_scheme \<Rightarrow> ('a ttys_scheme, unit) res" where
  "cook_loop 0 wr n s = Inl Diverge"
| "cook_loop (Suc fuel) wr n s =
     (if \<not> EMPTY (tt_read_q (tty s n)) \<and> \<not> FULL (tt_secondary (tty s n))
      then bindE (cook_one wr n s) (\<lambda>(_, s). cook_loop fuel wr n s)
      else Inr ((), s))"

definition copy_to_cooked_with :: "('a ttys_scheme \<Rightarrow> ('a ttys_scheme, unit) res) \<Rightarrow> ('a ttys_scheme, 'e) env_scheme \<Rightarrow> nat \<Rightarrow>
    'a ttys_scheme \<Rightarrow> ('a ttys_scheme, unit) res" where
  "copy_to_cooked_with wr E n s =
     bindE (cook_loop (e_fuel E) wr n s) (\<lambda>(_, s). Inr ((), wake_up (sec_wait n) s))"

section \<open>The drivers\<close>

definition respond :: "('a ttys_scheme \<Rightarrow> ('a ttys_scheme, unit) res) \<Rightarrow> nat \<Rightarrow> 'a ttys_scheme \<Rightarrow> ('a ttys_scheme, unit) res" where
  "respond cook n s = cook (upd_read_q n (fold PUTCH [27, 91, 63, 49, 59, 50, 99]) s)"

text \<open>
  \<open>con_write\<close>: the loop runs as often as there were characters at the start; \<open>respond\<close> calls
  \<open>copy_to_cooked\<close>, given as \<open>cook\<close>.
\<close>

fun con_loop :: "nat \<Rightarrow> ('a ttys_scheme \<Rightarrow> ('a ttys_scheme, unit) res) \<Rightarrow> nat \<Rightarrow> 'a ttys_scheme \<Rightarrow> ('a ttys_scheme, unit) res" where
  "con_loop 0 cook n s = Inr ((), s)"
| "con_loop (Suc nr) cook n s =
     (let (c, q) = GETCH (tt_write_q (tty s n)); s = upd_write_q n (\<lambda>_. q) s;
          (con, resp) = con_putc (tty_cc (tty s n) VERASE) c (console s); s = s\<lparr>console := con\<rparr> in
      bindE (if resp then respond cook n s else Inr ((), s)) (\<lambda>(_, s). con_loop nr cook n s))"

definition con_write :: "('a ttys_scheme \<Rightarrow> ('a ttys_scheme, unit) res) \<Rightarrow> nat \<Rightarrow> 'a ttys_scheme \<Rightarrow> ('a ttys_scheme, unit) res" where
  "con_write cook n s =
     bindE (con_loop (nat (CHARS (tt_write_q (tty s n)))) cook n s)
       (\<lambda>(_, s). Inr ((), s\<lparr>console := set_cursor (console s)\<rparr>))"

definition rs_write :: "(u16 \<Rightarrow> u8) \<Rightarrow> nat \<Rightarrow> 'a ttys_scheme \<Rightarrow> 'a ttys_scheme" where
  "rs_write inb n s =
     (let q = tt_write_q (tty s n); port = ucast (q_data q + 1) in
      if \<not> EMPTY q then outb (inb port OR 0x02) port s else s)"

text \<open>\<open>tty->write(tty)\<close>; \<open>con_write\<close> and \<open>copy_to_cooked\<close> call each other through \<open>respond\<close>.\<close>

fun tty_driver_write :: "nat \<Rightarrow> ('a ttys_scheme, 'e) env_scheme \<Rightarrow> nat \<Rightarrow> 'a ttys_scheme \<Rightarrow> ('a ttys_scheme, unit) res" where
  "tty_driver_write 0 E n s = Inl Diverge"
| "tty_driver_write (Suc fuel) E n s =
     (case tt_write (tty s n) of
        Con_write \<Rightarrow> con_write (copy_to_cooked_with (tty_driver_write fuel E n) E n) n s
      | Rs_write \<Rightarrow> Inr ((), rs_write (e_inb E) n s))"

definition copy_to_cooked :: "('a ttys_scheme, 'e) env_scheme \<Rightarrow> nat \<Rightarrow> 'a ttys_scheme \<Rightarrow> ('a ttys_scheme, unit) res" where
  "copy_to_cooked E n = copy_to_cooked_with (tty_driver_write (e_fuel E) E n) E n"

definition do_tty_interrupt :: "('a ttys_scheme, 'e) env_scheme \<Rightarrow> nat \<Rightarrow> 'a ttys_scheme \<Rightarrow> ('a ttys_scheme, unit) res" where
  "do_tty_interrupt E n s = copy_to_cooked E n s"

definition serial_init :: "u16 \<Rightarrow> 'a sched_scheme \<Rightarrow> 'a sched_scheme" where
  "serial_init port s =
     outb 0x0d (port + 1) (outb 0x0b (port + 4) (outb 0x03 (port + 3) (outb 0x00 (port + 1)
    (outb 0x30 port (outb 0x80 (port + 3) s)))))"

definition rs_init :: "(u16 \<Rightarrow> u8) \<Rightarrow> u64 \<Rightarrow> u64 \<Rightarrow> 'a ttys_scheme \<Rightarrow> 'a ttys_scheme" where
  "rs_init inb rs1_interrupt rs2_interrupt s =
     (let s = set_intr_gate 0x24 rs1_interrupt s;
          s = set_intr_gate 0x23 rs2_interrupt s;
          s = serial_init (ucast (q_data (tt_read_q (tty s 1)))) s;
          s = serial_init (ucast (q_data (tt_read_q (tty s 2)))) s
      in outb (inb 0x21 AND 0xE7) 0x21 s)"

definition con_init :: "(u16 \<Rightarrow> u8) \<Rightarrow> u64 \<Rightarrow> u8 \<Rightarrow> u8 \<Rightarrow> 'a ttys_scheme \<Rightarrow> 'a ttys_scheme" where
  "con_init inb keyboard_interrupt bx by' s =
     (let s = s\<lparr>console := con_init_cursor bx by' (console s)\<rparr>;
          s = set_trap_gate 0x21 keyboard_interrupt s;
          s = outb (inb 0x21 AND 0xfd) 0x21 s;
          a = inb 0x61
      in outb a 0x61 (outb (a OR 0x80) 0x61 s))"

definition tty_init :: "(u16 \<Rightarrow> u8) \<Rightarrow> u64 \<Rightarrow> u64 \<Rightarrow> u64 \<Rightarrow> u8 \<Rightarrow> u8 \<Rightarrow> 'a ttys_scheme \<Rightarrow> 'a ttys_scheme" where
  "tty_init inb rs1 rs2 kbd bx by' s = con_init inb kbd bx by' (rs_init inb rs1 rs2 s)"

section \<open>Reading\<close>

definition put_fs_byte :: "u8 \<Rightarrow> u64 \<Rightarrow> 'a sched_scheme \<Rightarrow> 'a sched_scheme" where
  "put_fs_byte v a s = s\<lparr>umem := (umem s)(a := v)\<rparr>"

definition get_fs_byte :: "u64 \<Rightarrow> 'a sched_scheme \<Rightarrow> u8" where
  "get_fs_byte a s = umem s a"

text \<open>The \<open>do ... while\<close> of \<open>tty_read\<close>: the count read so far, the count still wanted, and whether it returns.\<close>

fun read_chars :: "nat \<Rightarrow> u64 \<Rightarrow> nat \<Rightarrow> nat \<Rightarrow> 'a ttys_scheme \<Rightarrow> nat \<times> nat \<times> bool \<times> 'a ttys_scheme" where
  "read_chars n buf b 0 s = (b, 0, False, s)"
| "read_chars n buf b (Suc nr) s =
     (let (c, q) = GETCH (tt_secondary (tty s n)); s = upd_secondary n (\<lambda>_. q) s; t = tty s n;
          s = (if ceq c (tty_cc t VEOF) \<or> c = 10 then upd_secondary n (\<lambda>q. q\<lparr>q_data := q_data q - 1\<rparr>) s else s) in
      if ceq c (tty_cc t VEOF) \<and> L_FLAG t ICANON then (b, Suc nr, True, s)
      else let s = put_fs_byte c (buf + of_nat b) s in
        if nr = 0 \<or> EMPTY (tt_secondary (tty s n)) then (Suc b, nr, False, s)
        else read_chars n buf (Suc b) nr s)"

definition ALRMMASK :: u64 where "ALRMMASK = sig_bit SIGALRM"

text \<open>\<open>flag = (!oldalarm || time+jiffies<oldalarm)\<close> and the alarm it asks for.\<close>

definition alarm_first :: "int \<Rightarrow> int \<Rightarrow> 'a sched_scheme \<Rightarrow> bool" where
  "alarm_first time oldalarm s = (oldalarm = 0 \<or> time + jiffies s < oldalarm)"

definition set_alarm :: "int \<Rightarrow> 'a sched_scheme \<Rightarrow> 'a sched_scheme" where
  "set_alarm a s = upd_cur (\<lambda>t. t\<lparr>t_alarm := a\<rparr>) s"

fun read_loop :: "nat \<Rightarrow> ('a ttys_scheme, 'e) env_scheme \<Rightarrow> nat \<Rightarrow> u64 \<Rightarrow> int \<Rightarrow> int \<Rightarrow> int \<Rightarrow> bool \<Rightarrow> nat \<Rightarrow> nat \<Rightarrow>
    'a ttys_scheme \<Rightarrow> ('a ttys_scheme, nat \<times> bool) res" where
  "read_loop 0 E n buf time minimum oldalarm flag b nr s = Inl Diverge"
| "read_loop (Suc fuel) E n buf time minimum oldalarm flag b nr s =
     (if nr = 0 then Inr ((b, False), s)
      else if flag \<and> has_bits (t_signal (cur s)) ALRMMASK
      then Inr ((b, False), upd_cur (\<lambda>t. t\<lparr>t_signal := t_signal t AND NOT ALRMMASK\<rparr>) s)
      else if t_signal (cur s) \<noteq> 0 then Inr ((b, False), s)
      else if EMPTY (tt_secondary (tty s n)) \<or> (L_FLAG (tty s n) ICANON \<and>
           q_data (tt_secondary (tty s n)) = 0 \<and> QLEFT (tt_secondary (tty s n)) > 20)
      then bindE (sleep_if_empty E n s) (\<lambda>(_, s). read_loop fuel E n buf time minimum oldalarm flag b nr s)
      else let (b, nr, ret, s) = read_chars n buf b nr s in
        if ret then Inr ((b, True), s)
        else let canon = L_FLAG (tty s n) ICANON;
                 first = alarm_first time oldalarm s;
                 flag = (if time \<noteq> 0 \<and> \<not> canon then first else flag);
                 s = (if time \<noteq> 0 \<and> \<not> canon
                      then set_alarm (if first then time + jiffies s else oldalarm) s else s) in
          if (if canon then b \<noteq> 0 else int b \<ge> minimum) then Inr ((b, False), s)
          else read_loop fuel E n buf time minimum oldalarm flag b nr s)"

abbreviation EINTR :: int where "EINTR \<equiv> 4"

definition tty_read :: "('a ttys_scheme, 'e) env_scheme \<Rightarrow> nat \<Rightarrow> u64 \<Rightarrow> int \<Rightarrow> 'a ttys_scheme \<Rightarrow> ('a ttys_scheme, int) res" where
  "tty_read E channel buf nr s =
     (if channel > 2 \<or> nr < 0 then Inr (-1, s)
      else let t = tty s channel;
               oldalarm = t_alarm (cur s);
               time = 10 * uint (tty_cc t VTIME);
               minimum = uint (tty_cc t VMIN);
               timed = (time \<noteq> 0 \<and> minimum = 0);
               flag = (timed \<and> alarm_first time oldalarm s);
               s = (if flag then set_alarm (time + jiffies s) s else s);
               minimum = (if timed then 1 else minimum);
               minimum = (if minimum > nr then nr else minimum) in
        bindE (read_loop (e_fuel E) E channel buf time minimum oldalarm flag 0 (nat nr) s) (\<lambda>((b, ret), s).
        if ret then Inr (int b, s)
        else let s = set_alarm oldalarm s in
          if t_signal (cur s) \<noteq> 0 \<and> b = 0 then Inr (- EINTR, s) else Inr (int b, s)))"

section \<open>Writing\<close>

text \<open>
  The inner loop of \<open>tty_write\<close>: from address \<open>b\<close>, with \<open>nr\<close> characters to go. The character
  that is put is the one read after the mappings of \<open>c_oflag\<close>.
\<close>

definition map_output :: "tty_struct \<Rightarrow> u8 \<Rightarrow> u8" where
  "map_output t c =
     (if c = 13 \<and> O_FLAG t OCRNL then 10 else if c = 10 \<and> O_FLAG t ONLRET then 13 else c)"

function write_chars :: "nat \<Rightarrow> u64 \<Rightarrow> nat \<Rightarrow> 'a ttys_scheme \<Rightarrow> ('a ttys_scheme, u64 \<times> nat) res" where
  "write_chars n b nr s =
     (if nr = 0 \<or> FULL (tt_write_q (tty s n)) then Inr ((b, nr), s)
      else let t = tty s n; c = get_fs_byte b s; post = O_FLAG t OPOST; c = (if post then map_output t c else c) in
        if post \<and> c = 10 \<and> \<not> cr_flag s \<and> O_FLAG t ONLCR
        then write_chars n b nr (upd_write_q n (PUTCH 13) (s\<lparr>cr_flag := True\<rparr>))
        else bindE (if post \<and> O_FLAG t OLCUC then char_case toupper c else Inr c) (\<lambda>c.
             write_chars n (b + 1) (nr - 1) (upd_write_q n (PUTCH c) (s\<lparr>cr_flag := False\<rparr>))))"
  by pat_completeness auto
termination
  by (relation "measure (\<lambda>(n, b, nr, s). 2 * nr + (if cr_flag s then 0 else 1))")
    (auto simp: upd_write_q_def upd_tty_def)

declare write_chars.simps [simp del]

fun write_loop :: "nat \<Rightarrow> ('a ttys_scheme, 'e) env_scheme \<Rightarrow> nat \<Rightarrow> u64 \<Rightarrow> nat \<Rightarrow> 'a ttys_scheme \<Rightarrow> ('a ttys_scheme, u64) res" where
  "write_loop 0 E n b nr s = Inl Diverge"
| "write_loop (Suc fuel) E n b nr s =
     (if nr = 0 then Inr (b, s)
      else bindE (sleep_if_full E n s) (\<lambda>(_, s).
        if t_signal (cur s) \<noteq> 0 then Inr (b, s)
        else bindE (write_chars n b nr s) (\<lambda>((b, nr), s).
             bindE (tty_driver_write (e_fuel E) E n s) (\<lambda>(_, s).
             bindE (if nr > 0 then schedule (e_run E) s else Inr ((), s)) (\<lambda>(_, s).
             write_loop fuel E n b nr s)))))"

definition tty_write :: "('a ttys_scheme, 'e) env_scheme \<Rightarrow> nat \<Rightarrow> u64 \<Rightarrow> int \<Rightarrow> 'a ttys_scheme \<Rightarrow> ('a ttys_scheme, int) res" where
  "tty_write E channel buf nr s =
     (if channel > 2 \<or> nr < 0 then Inr (-1, s)
      else bindE (write_loop (e_fuel E) E channel buf (nat nr) s) (\<lambda>(b, s). Inr (sint (b - buf), s)))"

end
