(* ===== verification/Tty_Correct.thy ===== *)
theory Tty_Correct
  imports Tty_Io
begin

text \<open>Correctness of the terminals: the queues, the line discipline, and output to the console.\<close>

section \<open>The wait queues of the terminals\<close>

lemma upd_tty_simps [simp]:
  "task_at (upd_tty n f s) = task_at s" "current (upd_tty n f s) = current s"
  "length (tty_table (upd_tty n f s)) = length (tty_table s)" "umem (upd_tty n f s) = umem s"
  "console (upd_tty n f s) = console s" "cr_flag (upd_tty n f s) = cr_flag s"
  "task (upd_tty n f s) = task s" "init_task (upd_tty n f s) = init_task s"
  by (simp_all add: upd_tty_def)

lemma tty_upd_tty [simp]: "n < length (tty_table s) \<Longrightarrow> tty (upd_tty n f s) n = f (tty s n)"
  by (simp add: upd_tty_def)

lemma upd_tty_twice: "n < length (tty_table s) \<Longrightarrow> upd_tty n g (upd_tty n f s) = upd_tty n (\<lambda>t. g (f t)) s"
  by (simp add: upd_tty_def)

lemma tty_task [simp]:
  "tty_table (s\<lparr>task_at := f\<rparr>) = tty_table s" "tty_table (upd_task p g s) = tty_table s"
  by (simp_all add: upd_task_def)

text \<open>C28: the terminal queues are first-in first-out: up to 1023 characters put into an empty queue
  come out in the order they went in and leave it empty.\<close>

theorem tty_queue_fifo:
  assumes "q_wf q" "EMPTY q" "length cs \<le> 1023"
  shows "fst (ttyq.get_n (length cs) (fold PUTCH cs q)) = cs \<and>
    EMPTY (snd (ttyq.get_n (length cs) (fold PUTCH cs q)))"
  using assms by (intro ttyq.fifo_order) (simp_all add: ttyq.empty_iff)

lemma empty_q_wf: "q_wf (empty_q p)" "EMPTY (empty_q p)" "q_chars (empty_q p) = []"
  by (simp_all add: q_wf_def empty_q_def EMPTY_def q_chars_def ring_def)

theorem tty_queue_fifo_witness:
  "fst (ttyq.get_n 3 (fold PUTCH [104, 105, 10] (empty_q 0))) = [104, 105, 10]"
  using tty_queue_fifo [OF empty_q_wf(1,2), of "[104, 105, 10]" 0] by (simp add: numeral_3_eq_3)

section \<open>The line discipline on sequences\<close>

text \<open>What one input character does to the cooked characters not yet read.\<close>

definition edit :: "tty_struct \<Rightarrow> u8 \<Rightarrow> u8 list \<Rightarrow> u8 list" where
  "edit t c xs =
     (case map_input t c of
        None \<Rightarrow> xs
      | Some c \<Rightarrow>
          if L_FLAG t ICANON \<and> ceq c (tty_cc t VERASE) then
            if xs = [] \<or> last xs = 10 \<or> ceq (last xs) (tty_cc t VEOF) then xs else butlast xs
          else if L_FLAG t ICANON \<and> (ceq c (tty_cc t VSTOP) \<or> ceq c (tty_cc t VSTART)) then xs
          else if \<not> L_FLAG t ISIG \<and> ceq c (tty_cc t VINTR) then xs
          else xs @ [c])"

lemma edit_length: "length (edit t c xs) \<le> Suc (length xs)"
  by (auto simp: edit_def split: option.splits)

definition tty_ok :: "nat \<Rightarrow> 'a ttys_scheme \<Rightarrow> bool" where
  "tty_ok n s \<longleftrightarrow> n < length (tty_table s) \<and> q_wf (tt_read_q (tty s n)) \<and> q_wf (tt_secondary (tty s n))"

text \<open>The echo does not come back: there is none, or it goes to a serial line.\<close>

definition quiet :: "tty_struct \<Rightarrow> bool" where
  "quiet t \<longleftrightarrow> \<not> L_FLAG t ECHO \<or> tt_write t = Rs_write"

text \<open>The same terminal but for the output side, the stop flag and the cooked queue.\<close>

definition same_input :: "nat \<Rightarrow> 'a ttys_scheme \<Rightarrow> 'a ttys_scheme \<Rightarrow> bool" where
  "same_input n s s' \<longleftrightarrow> length (tty_table s') = length (tty_table s) \<and>
     tt_termios (tty s' n) = tt_termios (tty s n) \<and> tt_write (tty s' n) = tt_write (tty s n) \<and>
     tt_read_q (tty s' n) = tt_read_q (tty s n)"

lemma flags_cong:
  assumes "tt_termios t' = tt_termios t"
  shows "L_FLAG t' f = L_FLAG t f" "I_FLAG t' f = I_FLAG t f" "O_FLAG t' f = O_FLAG t f" "tty_cc t' i = tty_cc t i"
    "map_input t' c = map_input t c" "edit t' c xs = edit t c xs"
  using assms by (simp_all add: L_FLAG_def I_FLAG_def O_FLAG_def tty_cc_def map_input_def edit_def)

lemma fold_upd_task_table:
  "tty_table (fold (\<lambda>i s. if P i s then upd_task (task s ! i) f s else s) is s) = tty_table s"
  by (induction "is" arbitrary: s) simp_all

lemma tty_intr_table [simp]: "tty_table (tty_intr n sig s) = tty_table s"
  by (simp add: tty_intr_def fold_upd_task_table)

lemma rs_write_table [simp]: "tty_table (rs_write inb n s) = tty_table s"
  by (simp add: rs_write_def Let_def outb_def)

declare tty_driver_write.simps [simp del]

lemma quiet_write:
  assumes "quiet (tty s n)" "L_FLAG (tty s n) ECHO" "tt_write (tty s' n) = tt_write (tty s n)"
  shows "\<exists>s''. tty_driver_write (Suc k) E n s' = Inr ((), s'') \<and> tty_table s'' = tty_table s'"
  using assms by (simp add: quiet_def tty_driver_write.simps)

lemma write_q_self: "\<exists>q. t = t\<lparr>tt_write_q := q\<rparr>"
  by (rule exI [of _ "tt_write_q t"]) simp

lemma cook_echo_table:
  "n < length (tty_table s) \<Longrightarrow>
   length (tty_table (cook_echo n c s)) = length (tty_table s) \<and>
   (\<exists>q. tty (cook_echo n c s) n = (tty s n)\<lparr>tt_write_q := q\<rparr>)"
  using write_q_self [of "tty s n"] by (auto simp: cook_echo_def upd_write_q_def upd_tty_def)

lemma cook_erase_step:
  assumes "tty_ok n s" "quiet (tty s n)"
    and "xs = q_chars (tt_secondary (tty s n))"
  shows "\<exists>s'. cook_erase (tty_driver_write (Suc k) E n) n s = Inr ((), s') \<and> same_input n s s' \<and> tty_ok n s' \<and>
    q_chars (tt_secondary (tty s' n)) =
      (if xs = [] \<or> last xs = 10 \<or> ceq (last xs) (tty_cc (tty s n) VEOF) then xs else butlast xs)"
proof -
  let ?q = "tt_secondary (tty s n)"
  have wf: "q_wf ?q" and n: "n < length (tty_table s)" using assms(1) by (simp_all add: tty_ok_def)
  show ?thesis
  proof (cases "EMPTY ?q")
    case True
    then have "xs = []" using wf assms(3) ttyq.empty_iff by blast
    then show ?thesis using True assms(1,3) by (auto simp: cook_erase_def Let_def same_input_def)
  next
    case False
    note u = unput_put [OF wf False]
    have xs: "xs \<noteq> []" "last xs = LAST ?q" "butlast xs = q_chars (unput ?q)" using u(2) assms(3) by auto
    show ?thesis
    proof (cases "LAST ?q = 10 \<or> ceq (LAST ?q) (tty_cc (tty s n) VEOF)")
      case True
      then show ?thesis using assms(1,3) xs by (auto simp: cook_erase_def Let_def same_input_def)
    next
      case stay: False
      define s1 where "s1 = upd_write_q n (PUTCH 127) (if sint (LAST ?q) < 32 then upd_write_q n (PUTCH 127) s else s)"
      have s1: "length (tty_table s1) = length (tty_table s)" "\<exists>q. tty s1 n = (tty s n)\<lparr>tt_write_q := q\<rparr>"
        using n by (auto simp: s1_def upd_write_q_def upd_tty_def)
      obtain s2 where s2: "(if L_FLAG (tty s n) ECHO then tty_driver_write (Suc k) E n s1 else Inr ((), s)) = Inr ((), s2)"
        "length (tty_table s2) = length (tty_table s)" "\<exists>q. tty s2 n = (tty s n)\<lparr>tt_write_q := q\<rparr>"
      proof (cases "L_FLAG (tty s n) ECHO")
        case True
        have "tt_write (tty s1 n) = tt_write (tty s n)" using s1(2) by auto
        from quiet_write [OF assms(2) True this, of k E]
        obtain s2 where "tty_driver_write (Suc k) E n s1 = Inr ((), s2)" "tty_table s2 = tty_table s1" by blast
        then show ?thesis using that s1 True by simp
      next
        case False
        then show ?thesis using that [OF _ _ write_q_self] by simp
      qed
      have "cook_erase (tty_driver_write (Suc k) E n) n s = Inr ((), upd_secondary n unput s2)"
        using False stay unfolding cook_erase_def Let_def s1_def [symmetric] by (simp add: s2(1))
      moreover have "tty_ok n (upd_secondary n unput s2)" "same_input n s (upd_secondary n unput s2)"
        "tt_secondary (tty (upd_secondary n unput s2) n) = unput ?q"
        using s2(2,3) n u(1) assms(1) by (auto simp: tty_ok_def same_input_def upd_secondary_def)
      ultimately show ?thesis using xs stay by auto
    qed
  qed
qed

text \<open>A character that is not special: counted if it ends a line, echoed, and put into the line.\<close>

lemma cook_plain_step:
  assumes "tty_ok n s" "quiet (tty s n)" "length (q_chars (tt_secondary (tty s n))) < 1023"
    and "\<not> (L_FLAG (tty s n) ICANON \<and>
      (ceq c (tty_cc (tty s n) VERASE) \<or> ceq c (tty_cc (tty s n) VSTOP) \<or> ceq c (tty_cc (tty s n) VSTART)))"
    and "\<not> (\<not> L_FLAG (tty s n) ISIG \<and> ceq c (tty_cc (tty s n) VINTR))"
  shows "\<exists>s'. cook_char (tty_driver_write (Suc k) E n) n c s = Inr ((), s') \<and> same_input n s s' \<and> tty_ok n s' \<and>
    q_chars (tt_secondary (tty s' n)) = q_chars (tt_secondary (tty s n)) @ [c]"
proof -
  let ?t = "tty s n" and ?xs = "q_chars (tt_secondary (tty s n))"
  have n: "n < length (tty_table s)" and wf: "q_wf (tt_secondary ?t)" using assms(1) by (simp_all add: tty_ok_def)
  define s1 where "s1 = (if c = 10 \<or> ceq c (tty_cc ?t VEOF) then upd_secondary n (\<lambda>q. q\<lparr>q_data := q_data q + 1\<rparr>) s else s)"
  have s1: "length (tty_table s1) = length (tty_table s)" "tt_termios (tty s1 n) = tt_termios ?t"
    "tt_write (tty s1 n) = tt_write ?t" "tt_read_q (tty s1 n) = tt_read_q ?t"
    "q_wf (tt_secondary (tty s1 n))" "q_chars (tt_secondary (tty s1 n)) = ?xs"
    using n wf by (simp_all add: s1_def upd_secondary_def q_wf_def q_chars_def)
  have n1: "n < length (tty_table s1)" using n s1(1) by simp
  obtain s2 where s2: "(if L_FLAG ?t ECHO then tty_driver_write (Suc k) E n (cook_echo n c s1) else Inr ((), s1)) = Inr ((), s2)"
    "length (tty_table s2) = length (tty_table s1)" "\<exists>q. tty s2 n = (tty s1 n)\<lparr>tt_write_q := q\<rparr>"
  proof (cases "L_FLAG ?t ECHO")
    case True
    note e = cook_echo_table [OF n1, of c]
    have "tt_write (tty (cook_echo n c s1) n) = tt_write ?t" using e s1(3) by auto
    from quiet_write [OF assms(2) True this, of k E]
    obtain s2 where "tty_driver_write (Suc k) E n (cook_echo n c s1) = Inr ((), s2)"
      "tty_table s2 = tty_table (cook_echo n c s1)" by blast
    then show ?thesis using that e True by simp
  next
    case False
    then show ?thesis using that [OF _ _ write_q_self] by simp
  qed
  have "cook_char (tty_driver_write (Suc k) E n) n c s = Inr ((), upd_secondary n (PUTCH c) s2)"
    using assms(4,5) unfolding cook_char_def Let_def s1_def [symmetric] by (auto simp: s2(1))
  moreover have sec: "tt_secondary (tty s2 n) = tt_secondary (tty s1 n)" using s2(3) by auto
  have "\<not> FULL (tt_secondary (tty s1 n))" using s1(5,6) assms(3) ttyq.full_iff by force
  from ttyq.put_law [OF s1(5) this, of c]
  have "q_wf (PUTCH c (tt_secondary (tty s2 n)))" "q_chars (PUTCH c (tt_secondary (tty s2 n))) = ?xs @ [c]"
    using s1(6) sec by simp_all
  ultimately show ?thesis
    using n s1 s2(2,3) assms(1) by (auto simp: same_input_def tty_ok_def upd_secondary_def)
qed

lemma cook_char_step:
  assumes "tty_ok n s" "quiet (tty s n)" "xs = q_chars (tt_secondary (tty s n))" "length xs < 1023"
    and "map_input (tty s n) c0 = Some c"
  shows "\<exists>s'. cook_char (tty_driver_write (Suc k) E n) n c s = Inr ((), s') \<and> same_input n s s' \<and> tty_ok n s' \<and>
    q_chars (tt_secondary (tty s' n)) = edit (tty s n) c0 xs"
proof -
  let ?t = "tty s n"
  have n: "n < length (tty_table s)" and wf: "q_wf (tt_secondary ?t)" using assms(1) by (simp_all add: tty_ok_def)
  consider (erase) "L_FLAG ?t ICANON" "ceq c (tty_cc ?t VERASE)"
    | (flow) "L_FLAG ?t ICANON" "\<not> ceq c (tty_cc ?t VERASE)" "ceq c (tty_cc ?t VSTOP) \<or> ceq c (tty_cc ?t VSTART)"
    | (intr) "\<not> (L_FLAG ?t ICANON \<and> (ceq c (tty_cc ?t VERASE) \<or> ceq c (tty_cc ?t VSTOP) \<or> ceq c (tty_cc ?t VSTART)))"
        "\<not> L_FLAG ?t ISIG" "ceq c (tty_cc ?t VINTR)"
    | (plain) "\<not> (L_FLAG ?t ICANON \<and> (ceq c (tty_cc ?t VERASE) \<or> ceq c (tty_cc ?t VSTOP) \<or> ceq c (tty_cc ?t VSTART)))"
        "\<not> (\<not> L_FLAG ?t ISIG \<and> ceq c (tty_cc ?t VINTR))"
    by blast
  then show ?thesis
  proof cases
    case erase
    then have "cook_char (tty_driver_write (Suc k) E n) n c s = cook_erase (tty_driver_write (Suc k) E n) n s"
      by (simp add: cook_char_def)
    moreover have "edit ?t c0 xs = (if xs = [] \<or> last xs = 10 \<or> ceq (last xs) (tty_cc ?t VEOF) then xs else butlast xs)"
      using erase assms(5) by (simp add: edit_def)
    ultimately show ?thesis using cook_erase_step [OF assms(1-3), of k E] by simp
  next
    case flow
    define v :: int where "v = (if ceq c (tty_cc ?t VSTOP) then 1 else 0)"
    have "cook_char (tty_driver_write (Suc k) E n) n c s = Inr ((), upd_tty n (\<lambda>t. t\<lparr>tt_stopped := v\<rparr>) s)"
      using flow by (auto simp: cook_char_def v_def Let_def)
    moreover have "edit ?t c0 xs = xs" using flow assms(5) by (simp add: edit_def)
    ultimately show ?thesis using n assms(1,3) by (simp add: same_input_def tty_ok_def)
  next
    case intr
    then have "cook_char (tty_driver_write (Suc k) E n) n c s = Inr ((), tty_intr n SIGINT s)"
      by (auto simp: cook_char_def Let_def)
    moreover have "edit ?t c0 xs = xs" using intr assms(5) by (auto simp: edit_def)
    ultimately show ?thesis using assms(1,3) by (simp add: same_input_def tty_ok_def)
  next
    case plain
    then have "edit ?t c0 xs = xs @ [c]" using assms(5) by (auto simp: edit_def)
    then show ?thesis using cook_plain_step [OF assms(1,2) _ plain, of k E] assms(3,4) by simp
  qed
qed

lemma cook_one_step:
  assumes "tty_ok n s" "quiet (tty s n)" "\<not> I_FLAG (tty s n) IUCLC"
    and "q_chars (tt_read_q (tty s n)) = c0 # cs" "xs = q_chars (tt_secondary (tty s n))" "length xs < 1023"
  shows "\<exists>s'. cook_one (tty_driver_write (Suc k) E n) n s = Inr ((), s') \<and> tty_ok n s' \<and>
    tt_termios (tty s' n) = tt_termios (tty s n) \<and> tt_write (tty s' n) = tt_write (tty s n) \<and>
    q_chars (tt_read_q (tty s' n)) = cs \<and> q_chars (tt_secondary (tty s' n)) = edit (tty s n) c0 xs"
proof -
  let ?t = "tty s n"
  have n: "n < length (tty_table s)" and wf: "q_wf (tt_read_q ?t)" using assms(1) by (simp_all add: tty_ok_def)
  have "\<not> EMPTY (tt_read_q ?t)" using wf assms(4) ttyq.empty_iff by fastforce
  from ttyq.get_law [OF wf this] assms(4)
  obtain q where g: "GETCH (tt_read_q ?t) = (c0, q)" "q_wf q" "q_chars q = cs" by (cases "GETCH (tt_read_q ?t)") auto
  define s1 where "s1 = upd_read_q n (\<lambda>_. q) s"
  have t1: "tty s1 n = ?t\<lparr>tt_read_q := q\<rparr>" "length (tty_table s1) = length (tty_table s)"
    using n by (simp_all add: s1_def upd_read_q_def)
  have ok1: "tty_ok n s1" using assms(1) t1 g(2) by (simp add: tty_ok_def)
  have term1: "tt_termios (tty s1 n) = tt_termios ?t" and w1: "tt_write (tty s1 n) = tt_write ?t"
    "tt_read_q (tty s1 n) = q" "tt_secondary (tty s1 n) = tt_secondary ?t" by (simp_all add: t1)
  have one: "cook_one (tty_driver_write (Suc k) E n) n s =
      (case map_input ?t c0 of None \<Rightarrow> Inr ((), s1) | Some c \<Rightarrow> cook_char (tty_driver_write (Suc k) E n) n c s1)"
    using assms(3) by (simp add: cook_one_def g(1) s1_def [symmetric] Let_def flags_cong [OF term1] split: option.split)
  show ?thesis
  proof (cases "map_input ?t c0")
    case None
    then show ?thesis using one ok1 term1 w1 g(3) assms(5) by (simp add: edit_def)
  next
    case (Some c)
    have "quiet (tty s1 n)" using assms(2) by (simp add: quiet_def w1 flags_cong [OF term1])
    moreover have "map_input (tty s1 n) c0 = Some c" using Some by (simp add: flags_cong [OF term1])
    ultimately obtain s2 where "cook_char (tty_driver_write (Suc k) E n) n c s1 = Inr ((), s2)"
      "same_input n s1 s2" "tty_ok n s2" "q_chars (tt_secondary (tty s2 n)) = edit (tty s1 n) c0 xs"
      using cook_char_step [OF ok1, of xs c0 c k E] assms(5,6) w1 by auto
    then show ?thesis
      using one Some g(3) term1 w1 by (simp add: same_input_def flags_cong [OF term1])
  qed
qed

lemma cook_loop_edit:
  assumes "tty_ok n s" "quiet (tty s n)" "\<not> I_FLAG (tty s n) IUCLC"
    and "q_chars (tt_read_q (tty s n)) = cs" "xs = q_chars (tt_secondary (tty s n))"
    and "length xs + length cs \<le> 1022" "length cs < fuel"
  shows "\<exists>s'. cook_loop fuel (tty_driver_write (Suc k) E n) n s = Inr ((), s') \<and> tty_ok n s' \<and>
    EMPTY (tt_read_q (tty s' n)) \<and> q_chars (tt_secondary (tty s' n)) = fold (edit (tty s n)) cs xs"
  using assms
proof (induction cs arbitrary: s xs fuel)
  case Nil
  then obtain f where f: "fuel = Suc f" by (cases fuel) auto
  have "EMPTY (tt_read_q (tty s n))" using Nil.prems(1,4) by (simp add: tty_ok_def ttyq.empty_iff)
  then show ?case using Nil.prems f by simp
next
  case (Cons c cs)
  then obtain f where f: "fuel = Suc f" "length cs < f" by (cases fuel) auto
  let ?t = "tty s n"
  obtain s1 where s1: "cook_one (tty_driver_write (Suc k) E n) n s = Inr ((), s1)" "tty_ok n s1"
    "tt_termios (tty s1 n) = tt_termios ?t" "tt_write (tty s1 n) = tt_write ?t"
    "q_chars (tt_read_q (tty s1 n)) = cs" "q_chars (tt_secondary (tty s1 n)) = edit ?t c xs"
    using cook_one_step [OF Cons.prems(1-4) Cons.prems(5), of k E] Cons.prems(6) by auto
  have "quiet (tty s1 n)" "\<not> I_FLAG (tty s1 n) IUCLC"
    using Cons.prems(2,3) s1(4) by (simp_all add: quiet_def flags_cong [OF s1(3)])
  moreover have "length (edit ?t c xs) + length cs \<le> 1022" using Cons.prems(6) edit_length [of ?t c xs] by simp
  ultimately obtain s' where "cook_loop f (tty_driver_write (Suc k) E n) n s1 = Inr ((), s')" "tty_ok n s'"
    "EMPTY (tt_read_q (tty s' n))" "q_chars (tt_secondary (tty s' n)) = fold (edit (tty s1 n)) cs (edit ?t c xs)"
    using Cons.IH [OF s1(2) _ _ s1(5) s1(6) [symmetric] _ f(2)] by blast
  moreover have "edit (tty s1 n) = edit ?t" using flags_cong(6) [OF s1(3)] by (intro ext) simp
  moreover have "\<not> EMPTY (tt_read_q ?t)" "\<not> FULL (tt_secondary ?t)"
    using Cons.prems by (auto simp: tty_ok_def ttyq.empty_iff ttyq.full_iff)
  ultimately show ?case using f(1) s1(1) by simp
qed

lemma wake_up_secondary:
  assumes "n < length (tty_table s)"
  shows "q_chars (tt_secondary (tty (wake_up (sec_wait n) s) n)) = q_chars (tt_secondary (tty s n))"
    "tt_read_q (tty (wake_up (sec_wait n) s) n) = tt_read_q (tty s n)"
  using assms
  by (simp_all add: wake_up_def sec_wait_def upd_secondary_def set_state_def upd_tty_def upd_task_def q_chars_def)

lemma copy_to_cooked_line:
  assumes "tty_ok n s" "quiet (tty s n)" "\<not> I_FLAG (tty s n) IUCLC"
    and "length (q_chars (tt_secondary (tty s n))) + length (q_chars (tt_read_q (tty s n))) \<le> 1022"
    and "length (q_chars (tt_read_q (tty s n))) < e_fuel E"
  shows "\<exists>s'. copy_to_cooked E n s = Inr ((), s') \<and> EMPTY (tt_read_q (tty s' n)) \<and>
    q_chars (tt_secondary (tty s' n)) =
      fold (edit (tty s n)) (q_chars (tt_read_q (tty s n))) (q_chars (tt_secondary (tty s n)))"
proof -
  obtain k where k: "e_fuel E = Suc k" using assms(5) by (cases "e_fuel E") auto
  obtain s1 where s1: "cook_loop (e_fuel E) (tty_driver_write (Suc k) E n) n s = Inr ((), s1)" "tty_ok n s1"
    "EMPTY (tt_read_q (tty s1 n))"
    "q_chars (tt_secondary (tty s1 n)) = fold (edit (tty s n)) (q_chars (tt_read_q (tty s n))) (q_chars (tt_secondary (tty s n)))"
    using cook_loop_edit [OF assms(1-3) refl refl assms(4,5), of k E] by blast
  have "copy_to_cooked E n s = Inr ((), wake_up (sec_wait n) s1)"
    using s1(1) by (simp add: copy_to_cooked_def copy_to_cooked_with_def k)
  then show ?thesis using s1 wake_up_secondary [of n s1] by (simp add: tty_ok_def)
qed


text \<open>A machine after start-up, with \<open>cs\<close> received on the second serial line in canonical mode.\<close>

definition start_ttys :: "(u64 \<Rightarrow> u8) \<Rightarrow> tty_struct list \<Rightarrow> ttys" where
  "start_ttys um tab =
     \<lparr>qmem = (\<lambda>_. 0), mem_map = replicate PAGING_PAGES 0, tlb_loads = 0, klog = [],
      task_at = (\<lambda>_. INIT_TASK), task = 0x10000 # 0x7FF000 # replicate 62 0, current = 0x7FF000,
      last_task_used_math = 0, jiffies = 0, startup_time = 0, last_pid = 1, rsp0 = 0,
      gdt = [], idt = [], outs = [], init_task = 0x10000, fpu = [], umem = um,
      tty_table = tab, cr_flag = False, console = con_init_cursor 0 0 (con_start (\<lambda>_. 0))\<rparr>"

definition serial_input :: "u8 list \<Rightarrow> ttys" where
  "serial_input cs =
     start_ttys (\<lambda>_. 0)
       (tty_table_init[2 := (tty_table_init ! 2)\<lparr>
          tt_termios := (tt_termios (tty_table_init ! 2))\<lparr>c_lflag := ICANON\<rparr>,
          tt_read_q := fold PUTCH cs (empty_q 0x2f8)\<rparr>])"

lemma serial_input_tty:
  "tty (serial_input cs) 2 = (tty_table_init ! 2)\<lparr>
     tt_termios := (tt_termios (tty_table_init ! 2))\<lparr>c_lflag := ICANON\<rparr>, tt_read_q := fold PUTCH cs (empty_q 0x2f8)\<rparr>"
  "length (tty_table (serial_input cs)) = 3"
  by (simp_all add: serial_input_def start_ttys_def tty_table_init_def)

lemma serial_input_chars:
  assumes "length cs \<le> 1023"
  shows "q_wf (fold PUTCH cs (empty_q p)) \<and> q_chars (fold PUTCH cs (empty_q p)) = cs"
  using ttyq.put_all [OF empty_q_wf(1) [of p], of cs] assms by (simp add: empty_q_wf(3))



section \<open>Output to the console\<close>

text \<open>What the flags of \<open>c_oflag\<close> make of a text.\<close>

fun post_out :: "tty_struct \<Rightarrow> bool \<Rightarrow> u8 list \<Rightarrow> u8 list" where
  "post_out t cr [] = []"
| "post_out t cr (c # cs) =
     (let c = map_output t c in
      (if c = 10 \<and> \<not> cr \<and> O_FLAG t ONLCR then [13, c] else [c]) @ post_out t False cs)"

lemma post_out_length: "length (post_out t cr cs) \<le> 2 * length cs"
  by (induction cs arbitrary: cr) (auto simp: Let_def intro: le_SucI)

definition text_at :: "(u64 \<Rightarrow> u8) \<Rightarrow> u64 \<Rightarrow> nat \<Rightarrow> u8 list" where
  "text_at m b nr = map (\<lambda>i. m (b + of_nat i)) [0..<nr]"

lemma text_at_Suc: "text_at m b (Suc nr) = m b # text_at m (b + 1) nr"
  by (simp add: text_at_def upt_conv_Cons map_Suc_upt [symmetric] o_def add.assoc del: upt_Suc)

lemma length_text_at [simp]: "length (text_at m b nr) = nr"
  by (simp add: text_at_def)

text \<open>The state after queueing: only the write queue and \<open>cr_flag\<close> change.\<close>

definition queued :: "nat \<Rightarrow> tty_queue \<Rightarrow> bool \<Rightarrow> 'a ttys_scheme \<Rightarrow> 'a ttys_scheme" where
  "queued n q cr s = upd_write_q n (\<lambda>_. q) (s\<lparr>cr_flag := cr\<rparr>)"

lemma queued_simps:
  assumes "n < length (tty_table s)"
  shows "tty (queued n q cr s) n = (tty s n)\<lparr>tt_write_q := q\<rparr>" "cr_flag (queued n q cr s) = cr"
    "length (tty_table (queued n q cr s)) = length (tty_table s)" "umem (queued n q cr s) = umem s"
    "queued n q' cr' (queued n q cr s) = queued n q' cr' s"
    "upd_write_q n (PUTCH c) (s\<lparr>cr_flag := cr\<rparr>) = queued n (PUTCH c (tt_write_q (tty s n))) cr s"
    "queued n (tt_write_q (tty s n)) (cr_flag s) s = s"
  using assms by (simp_all add: queued_def upd_write_q_def upd_tty_def)

lemma write_q_flags [simp]:
  "L_FLAG (t\<lparr>tt_write_q := q\<rparr>) f = L_FLAG t f" "O_FLAG (t\<lparr>tt_write_q := q\<rparr>) f = O_FLAG t f"
  "map_output (t\<lparr>tt_write_q := q\<rparr>) c = map_output t c" "tty_cc (t\<lparr>tt_write_q := q\<rparr>) i = tty_cc t i"
  by (simp_all add: L_FLAG_def O_FLAG_def map_output_def tty_cc_def)

lemma post_out_write_q [simp]: "post_out (t\<lparr>tt_write_q := q\<rparr>) cr cs = post_out t cr cs"
  by (induction cs arbitrary: cr) simp_all

lemma write_chars_text:
  assumes "n < length (tty_table s)" "q_wf (tt_write_q (tty s n))" "O_FLAG (tty s n) OPOST" "\<not> O_FLAG (tty s n) OLCUC"
    and "length (q_chars (tt_write_q (tty s n))) + 2 * nr \<le> 1022"
  shows "\<exists>q cr. write_chars n b nr s = Inr ((b + of_nat nr, 0), queued n q cr s) \<and> q_wf q \<and>
    q_chars q = q_chars (tt_write_q (tty s n)) @ post_out (tty s n) (cr_flag s) (text_at (umem s) b nr)"
  using assms
proof (induction nr arbitrary: b s)
  case 0
  then have "write_chars n b 0 s = Inr ((b, 0), queued n (tt_write_q (tty s n)) (cr_flag s) s)"
    by (simp add: write_chars.simps queued_simps)
  then show ?case using 0 by (auto simp: text_at_def)
next
  case (Suc nr)
  let ?t = "tty s n" and ?q = "tt_write_q (tty s n)"
  define c where "c = map_output ?t (umem s b)"
  have nf: "\<not> FULL ?q" using Suc.prems(2,5) by (simp add: ttyq.full_iff)
  note put1 = ttyq.put_law [OF Suc.prems(2) nf]
  have rest: "\<exists>q cr. write_chars n (b + 1) nr (queued n q1 False s) = Inr ((b + of_nat (Suc nr), 0), queued n q cr s) \<and>
      q_wf q \<and> q_chars q = q_chars q1 @ post_out ?t False (text_at (umem s) (b + 1) nr)"
    if "q_wf q1" "length (q_chars q1) + 2 * nr \<le> 1022" for q1
    using Suc.IH [of "queued n q1 False s" "b + 1"] Suc.prems that
    by (simp add: queued_simps add.assoc)
  show ?case
  proof (cases "c = 10 \<and> \<not> cr_flag s \<and> O_FLAG ?t ONLCR")
    case True
    have nf2: "\<not> FULL (PUTCH 13 ?q)" using put1 [of 13] Suc.prems(5) by (simp add: ttyq.full_iff)
    note put2 = ttyq.put_law [OF conjunct1 [OF put1 [of 13]] nf2, of c]
    have "write_chars n b (Suc nr) s = write_chars n b (Suc nr) (queued n (PUTCH 13 ?q) True s)"
      using True nf Suc.prems
      by (subst write_chars.simps) (simp add: Let_def get_fs_byte_def c_def queued_simps)
    also have "\<dots> = write_chars n (b + 1) nr (queued n (PUTCH c (PUTCH 13 ?q)) False s)"
      using nf2 Suc.prems
      by (subst write_chars.simps) (simp add: Let_def get_fs_byte_def c_def queued_simps)
    finally show ?thesis
      using rest [of "PUTCH c (PUTCH 13 ?q)"] put1 [of 13] put2 True Suc.prems(5)
      by (simp add: text_at_Suc c_def [symmetric] Let_def)
  next
    case False
    have "write_chars n b (Suc nr) s = write_chars n (b + 1) nr (queued n (PUTCH c ?q) False s)"
      using False nf Suc.prems
      by (subst write_chars.simps) (auto simp: Let_def get_fs_byte_def c_def queued_simps)
    then show ?thesis
      using rest [of "PUTCH c ?q"] put1 [of c] False Suc.prems(5)
      by (auto simp: text_at_Suc c_def [symmetric] Let_def)
  qed
qed


lemma con_lf_state [simp]: "con_state (con_lf c) = con_state c"
  by (simp add: con_lf_def scrup_def Let_def set_origin_def con_outb_def memsetw_def memcpyw_def)

lemma con_text_state: "sint b \<noteq> 27 \<Longrightarrow> con_state (con_text erase b c) = con_state c"
  by (simp add: con_text_def Let_def con_wrap_def put_cell_def con_cr_def con_del_def)

lemma con_putc_text:
  assumes "con_state c = 0" "b \<noteq> 27"
  shows "con_putc erase b c = (fst (con_putc erase b c), False)" "con_state (fst (con_putc erase b c)) = 0"
proof -
  have "sint b \<noteq> 27"
  proof
    assume "sint b = 27"
    then have "word_of_int (sint b) = (27 :: u8)" by simp
    then show False using assms(2) by simp
  qed
  then show "con_putc erase b c = (fst (con_putc erase b c), False)" "con_state (fst (con_putc erase b c)) = 0"
    using assms(1) by (simp_all add: con_putc_def con_text_state)
qed


lemma con_loop_text:
  assumes "n < length (tty_table s)" "q_wf (tt_write_q (tty s n))" "q_chars (tt_write_q (tty s n)) = cs"
    and "con_state (console s) = 0" "27 \<notin> set cs"
  shows "\<exists>q. con_loop (length cs) cook n s =
      Inr ((), (upd_write_q n (\<lambda>_. q) s)\<lparr>console := con_puts (tty_cc (tty s n) VERASE) cs (console s)\<rparr>) \<and>
    q_wf q \<and> q_chars q = []"
  using assms
proof (induction cs arbitrary: s)
  case Nil
  have "upd_write_q n (\<lambda>_. tt_write_q (tty s n)) s = s" by (simp add: upd_write_q_def upd_tty_def)
  then show ?case using Nil by (intro exI [of _ "tt_write_q (tty s n)"]) (simp add: con_puts_def)
next
  case (Cons c cs)
  let ?t = "tty s n" and ?e = "tty_cc (tty s n) VERASE"
  have "\<not> EMPTY (tt_write_q ?t)" using Cons.prems(2,3) by (simp add: ttyq.empty_iff)
  from ttyq.get_law [OF Cons.prems(2) this] Cons.prems(3)
  obtain q where g: "GETCH (tt_write_q ?t) = (c, q)" "q_wf q" "q_chars q = cs" by (cases "GETCH (tt_write_q ?t)") auto
  define con1 where "con1 = fst (con_putc ?e c (console s))"
  have p: "con_putc ?e c (console s) = (con1, False)" "con_state con1 = 0"
    using con_putc_text [of "console s" c ?e] Cons.prems(4,5) by (auto simp: con1_def)
  define s1 where "s1 = (upd_write_q n (\<lambda>_. q) s)\<lparr>console := con1\<rparr>"
  have t1: "tty s1 n = ?t\<lparr>tt_write_q := q\<rparr>" "length (tty_table s1) = length (tty_table s)" "console s1 = con1"
    using Cons.prems(1) by (simp_all add: s1_def upd_write_q_def)
  have t2: "tty (upd_write_q n (\<lambda>_. q) s) n = ?t\<lparr>tt_write_q := q\<rparr>" using Cons.prems(1) by (simp add: upd_write_q_def)
  have c2: "console (upd_write_q n (\<lambda>_. q) s) = console s" by (simp add: upd_write_q_def)
  have "con_loop (length (c # cs)) cook n s = con_loop (length cs) cook n s1"
    by (simp add: g(1) Let_def t2 c2 p(1) s1_def)
  moreover obtain q' where "con_loop (length cs) cook n s1 =
      Inr ((), (upd_write_q n (\<lambda>_. q') s1)\<lparr>console := con_puts ?e cs con1\<rparr>)" "q_wf q'" "q_chars q' = []"
    using Cons.IH [of s1] Cons.prems(1,5) t1 g(2,3) p(2) by auto
  moreover have "(upd_write_q n (\<lambda>_. q') s1)\<lparr>console := con_puts ?e cs con1\<rparr> =
      (upd_write_q n (\<lambda>_. q') s)\<lparr>console := con_puts ?e (c # cs) (console s)\<rparr>"
    using Cons.prems(1) by (simp add: s1_def upd_write_q_def upd_tty_def con_puts_def con1_def)
  ultimately show ?case by auto
qed

lemma post_out_plain: "27 \<notin> set cs \<Longrightarrow> 27 \<notin> set (post_out t cr cs)"
  by (induction cs arbitrary: cr) (auto simp: Let_def map_output_def split: if_splits)

lemma tty_write_text:
  assumes "tty_table s \<noteq> []" "tt_write (tty s 0) = Con_write"
    and "q_wf (tt_write_q (tty s 0))" "EMPTY (tt_write_q (tty s 0))"
    and "O_FLAG (tty s 0) OPOST" "\<not> O_FLAG (tty s 0) OLCUC"
    and "t_signal (cur s) = 0" "con_state (console s) = 0" "27 \<notin> set (text_at (umem s) buf nr)"
    and "0 < nr" "nr \<le> 511" "2 \<le> e_fuel E"
  shows "\<exists>s'. tty_write E 0 buf (int nr) s = Inr (int nr, s') \<and> EMPTY (tt_write_q (tty s' 0)) \<and>
    console s' = set_cursor (con_puts (tty_cc (tty s 0) VERASE)
      (post_out (tty s 0) (cr_flag s) (text_at (umem s) buf nr)) (console s))"
proof -
  define cs where "cs = post_out (tty s 0) (cr_flag s) (text_at (umem s) buf nr)"
  have n: "0 < length (tty_table s)" using assms(1) by simp
  have e: "q_chars (tt_write_q (tty s 0)) = []" using assms(3,4) ttyq.empty_iff by blast
  obtain q cr where w: "write_chars 0 buf nr s = Inr ((buf + of_nat nr, 0), queued 0 q cr s)" "q_wf q" "q_chars q = cs"
    using write_chars_text [OF n assms(3,5,6), of nr buf] assms(11) e by (auto simp: cs_def)
  define s1 where "s1 = queued 0 q cr s"
  have t1: "tty s1 0 = (tty s 0)\<lparr>tt_write_q := q\<rparr>" "length (tty_table s1) = length (tty_table s)"
    using n by (simp_all add: s1_def queued_simps)
  have con1: "console s1 = console s" by (simp add: s1_def queued_def upd_write_q_def)
  have "27 \<notin> set cs" unfolding cs_def by (rule post_out_plain [OF assms(9)])
  obtain f where f: "e_fuel E = Suc (Suc f)" using assms(12) by (metis add_2_eq_Suc le_Suc_ex)
  define cook where "cook = copy_to_cooked_with (tty_driver_write (Suc f) E 0) E 0"
  obtain q' where l: "con_loop (length cs) cook 0 s1 =
      Inr ((), (upd_write_q 0 (\<lambda>_. q') s1)\<lparr>console := con_puts (tty_cc (tty s 0) VERASE) cs (console s)\<rparr>)"
    "q_wf q'" "q_chars q' = []"
    using con_loop_text [of 0 s1 cs cook] \<open>27 \<notin> set cs\<close> n t1 w(2,3) con1 assms(8) by auto
  define s2 where "s2 = (upd_write_q 0 (\<lambda>_. q') s1)\<lparr>console := set_cursor (con_puts (tty_cc (tty s 0) VERASE) cs (console s))\<rparr>"
  have nat_chars: "nat (CHARS (tt_write_q (tty s1 0))) = length cs"
    using q_chars_length [of q] w(3) t1(1) by simp
  have drv: "tty_driver_write (e_fuel E) E 0 s1 = Inr ((), s2)"
    using l(1) nat_chars assms(2) t1(1)
    by (simp add: f tty_driver_write.simps con_write_def cook_def [symmetric] s2_def)
  have "\<not> FULL (tt_write_q (tty s 0))" using assms(3) e by (simp add: ttyq.full_iff)
  then have "write_loop (e_fuel E) E 0 buf nr s = write_loop (Suc f) E 0 (buf + of_nat nr) 0 s2"
    using assms(7,10) w(1) drv by (simp add: f sleep_if_full_def s1_def)
  also have "\<dots> = Inr (buf + of_nat nr, s2)" by simp
  finally have wl: "write_loop (e_fuel E) E 0 buf nr s = Inr (buf + of_nat nr, s2)" .
  have "sint (of_nat nr :: u64) = int nr"
    using assms(11) by (simp add: signed_of_nat signed_take_bit_int_eq_self)
  then have "tty_write E 0 buf (int nr) s = Inr (int nr, s2)" using wl by (simp add: tty_write_def)
  moreover have "EMPTY (tt_write_q (tty s2 0))"
    using l(2,3) n t1(2) by (simp add: s2_def upd_write_q_def ttyq.empty_iff)
  moreover have "console s2 = set_cursor (con_puts (tty_cc (tty s 0) VERASE) cs (console s))" by (simp add: s2_def)
  ultimately show ?thesis unfolding cs_def by blast
qed


definition hi_tty :: ttys where
  "hi_tty = start_ttys (\<lambda>a. if a = 0 then 72 else 105) tty_table_init"


end
