(* ===== verification/Layout.thy ===== *)
theory Layout
  imports Prelude
begin

text \<open>
  The memory layout the x86-64 ABI gives the structures whose size or field offsets the kernel
  relies on. A field is its size, its alignment and its number of elements; \<open>place\<close> puts fields one
  after the other, each at the next multiple of its alignment.
\<close>

record field =
  fd_size :: nat
  fd_align :: nat
  fd_elems :: nat

definition fld :: "nat \<Rightarrow> field" where "fld n = \<lparr>fd_size = n, fd_align = n, fd_elems = 1\<rparr>"

definition arr :: "nat \<Rightarrow> nat \<Rightarrow> field" where "arr k n = \<lparr>fd_size = n, fd_align = n, fd_elems = k\<rparr>"

definition sub :: "nat \<Rightarrow> nat \<Rightarrow> nat \<Rightarrow> field" where "sub k n a = \<lparr>fd_size = n, fd_align = a, fd_elems = k\<rparr>"

definition align_up :: "nat \<Rightarrow> nat \<Rightarrow> nat" where "align_up a x = (x + a - 1) div a * a"

definition after :: "nat \<Rightarrow> field \<Rightarrow> nat" where
  "after off f = align_up (fd_align f) off + fd_elems f * fd_size f"

fun place :: "nat \<Rightarrow> field list \<Rightarrow> nat list" where
  "place off [] = []"
| "place off (f # fs) = align_up (fd_align f) off # place (after off f) fs"

fun extent :: "nat \<Rightarrow> field list \<Rightarrow> nat" where
  "extent off [] = off"
| "extent off (f # fs) = extent (after off f) fs"

definition struct_align :: "field list \<Rightarrow> nat" where
  "struct_align fs = foldr (\<lambda>f. max (fd_align f)) fs 1"

definition sizeof :: "field list \<Rightarrow> nat" where
  "sizeof fs = align_up (struct_align fs) (extent 0 fs)"

definition offsetof :: "field list \<Rightarrow> nat \<Rightarrow> nat" where
  "offsetof fs k = place 0 fs ! k"

lemmas layout_simps = sizeof_def offsetof_def struct_align_def align_up_def after_def fld_def arr_def sub_def

section \<open>Structures of the kernel\<close>

definition d_inode_fields :: "field list" where
  "d_inode_fields = [fld 2, fld 2, fld 8, fld 8, fld 1, fld 1, arr 9 2]"

definition super_block_fields :: "field list" where
  "super_block_fields =
     [fld 2, fld 2, fld 2, fld 2, fld 2, fld 2, fld 8, fld 2, arr 8 8, arr 8 8, fld 2, fld 8, fld 8, fld 8, fld 1, fld 1]"

definition buffer_head_fields :: "field list" where
  "buffer_head_fields = [fld 8, fld 2, fld 2, fld 1, fld 1, fld 1, fld 1, fld 8, fld 8, fld 8, fld 8, fld 8]"

definition i387_fields :: "field list" where
  "i387_fields = [fld 2, fld 2, fld 2, fld 2, fld 8, fld 8, fld 4, fld 4, arr 32 4, arr 64 4, arr 24 4]"

definition thread_fields :: "field list" where
  "thread_fields = replicate 10 (fld 8)"

text \<open>\<open>struct i387_struct\<close> is declared with an alignment of 16.\<close>

definition task_fields :: "field list" where
  "task_fields =
     replicate 5 (fld 8) @ [arr 32 8, fld 4] @ replicate 4 (fld 8) @ replicate 5 (fld 8) @ replicate 6 (fld 2) @
     [fld 8] @ replicate 5 (fld 8) @ [fld 2, fld 4, fld 2, fld 8, fld 8, fld 8, arr 20 8,
      sub 3 8 4, sub 1 (sizeof thread_fields) 8, sub 1 512 16, arr 1024 8]"

text \<open>Indexes in \<open>task_fields\<close> of \<open>ldt\<close>, \<open>thread\<close>, \<open>i387\<close> and \<open>kernel_stack\<close>.\<close>

abbreviation F_LDT :: nat where "F_LDT \<equiv> 35"
abbreviation F_THREAD :: nat where "F_THREAD \<equiv> 36"
abbreviation F_I387 :: nat where "F_I387 \<equiv> 37"
abbreviation F_STACK :: nat where "F_STACK \<equiv> 38"

text \<open>The offset \<open>switch.nasm\<close> uses for \<open>thread\<close>.\<close>

definition TASK_THREAD :: nat where "TASK_THREAD = 784"

lemma d_inode_size: "sizeof d_inode_fields = 48" "place 0 d_inode_fields = [0, 2, 8, 16, 24, 25, 26]"
  by (simp_all add: layout_simps d_inode_fields_def)

lemma buffer_head_size: "sizeof buffer_head_fields = 56" "offsetof buffer_head_fields 8 = 24"
  by (simp_all add: layout_simps buffer_head_fields_def)

lemma super_block_place:
  "place 0 super_block_fields = [0, 2, 4, 6, 8, 10, 16, 24, 32, 96, 160, 168, 176, 184, 192, 193]"
  by (simp add: layout_simps super_block_fields_def)

lemma replicate_numeral: "replicate (numeral n) x = x # replicate (pred_numeral n) x"
  by (simp add: numeral_eq_Suc)

lemma thread_size: "sizeof thread_fields = 80"
  by (simp add: layout_simps thread_fields_def replicate_numeral)

lemma i387_size: "sizeof i387_fields = 512"
  by (simp add: layout_simps i387_fields_def)


end
