(* ===== verification/Sys_Calls.thy ===== *)
theory Sys_Calls
  imports Tty_Io
begin

text \<open>
  Words of user memory (\<open>src/include/asm/segment.h\<close>), \<open>verify_area\<close> of \<open>src/kernel/fork.c\<close> and
  the calls of \<open>src/kernel/sys.c\<close>. A call returns its \<open>int\<close> result.
\<close>

section \<open>Error numbers\<close>

abbreviation ERROR :: int where "ERROR \<equiv> 99"
abbreviation EPERM :: int where "EPERM \<equiv> 1"
abbreviation ENOENT :: int where "ENOENT \<equiv> 2"
abbreviation ESRCH :: int where "ESRCH \<equiv> 3"
abbreviation EIO :: int where "EIO \<equiv> 5"
abbreviation ENOEXEC :: int where "ENOEXEC \<equiv> 8"
abbreviation EBADF :: int where "EBADF \<equiv> 9"
abbreviation ECHILD :: int where "ECHILD \<equiv> 10"
abbreviation EAGAIN :: int where "EAGAIN \<equiv> 11"
abbreviation ENOMEM :: int where "ENOMEM \<equiv> 12"
abbreviation EACCES :: int where "EACCES \<equiv> 13"
abbreviation EEXIST :: int where "EEXIST \<equiv> 17"
abbreviation EXDEV :: int where "EXDEV \<equiv> 18"
abbreviation ENOTDIR :: int where "ENOTDIR \<equiv> 20"
abbreviation EISDIR :: int where "EISDIR \<equiv> 21"
abbreviation EINVAL :: int where "EINVAL \<equiv> 22"
abbreviation EMFILE :: int where "EMFILE \<equiv> 24"
abbreviation ENOTTY :: int where "ENOTTY \<equiv> 25"
abbreviation ENOSPC :: int where "ENOSPC \<equiv> 28"
abbreviation ESPIPE :: int where "ESPIPE \<equiv> 29"
abbreviation ENOSYS :: int where "ENOSYS \<equiv> 38"
abbreviation ENOTEMPTY :: int where "ENOTEMPTY \<equiv> 39"

section \<open>Words of user memory\<close>

text \<open>Little-endian bytes of a word, and the word that bytes spell.\<close>

definition bytes_of :: "nat \<Rightarrow> u64 \<Rightarrow> u8 list" where
  "bytes_of n v = map (\<lambda>i. ucast (drop_bit (8 * i) v)) [0..<n]"

definition word_of :: "u8 list \<Rightarrow> u64" where
  "word_of bs = foldr (\<lambda>b w. ucast b OR push_bit 8 w) bs 0"

definition put_fs_bytes :: "u8 list \<Rightarrow> u64 \<Rightarrow> 'a sched_scheme \<Rightarrow> 'a sched_scheme" where
  "put_fs_bytes bs a s = fold (\<lambda>(i, b). put_fs_byte b (a + of_nat i)) (List.enumerate 0 bs) s"

definition get_fs_bytes :: "nat \<Rightarrow> u64 \<Rightarrow> 'a sched_scheme \<Rightarrow> u8 list" where
  "get_fs_bytes n a s = map (\<lambda>i. get_fs_byte (a + of_nat i) s) [0..<n]"

definition get_fs_word :: "u64 \<Rightarrow> 'a sched_scheme \<Rightarrow> u16" where
  "get_fs_word a s = ucast (word_of (get_fs_bytes 2 a s))"

definition get_fs_long :: "u64 \<Rightarrow> 'a sched_scheme \<Rightarrow> u64" where
  "get_fs_long a s = word_of (get_fs_bytes 8 a s)"

definition put_fs_word :: "u16 \<Rightarrow> u64 \<Rightarrow> 'a sched_scheme \<Rightarrow> 'a sched_scheme" where
  "put_fs_word v a = put_fs_bytes (bytes_of 2 (ucast v)) a"

definition put_fs_long :: "u64 \<Rightarrow> u64 \<Rightarrow> 'a sched_scheme \<Rightarrow> 'a sched_scheme" where
  "put_fs_long v a = put_fs_bytes (bytes_of 8 v) a"

section \<open>Write access to user memory\<close>

function verify_loop :: "int \<Rightarrow> u64 \<Rightarrow> 'a sched_scheme \<Rightarrow> ('a sched_scheme, unit) res" where
  "verify_loop sz start s =
     (if sz > 0
      then bindE (write_verify start s) (\<lambda>(_, s). verify_loop (sz - 4096) (start + 4096) s)
      else Inr ((), s))"
  by pat_completeness auto
termination by (relation "measure (\<lambda>(sz, _). nat sz)") auto

declare verify_loop.simps [simp del]

definition verify_area :: "u64 \<Rightarrow> int \<Rightarrow> 'a sched_scheme \<Rightarrow> ('a sched_scheme, unit) res" where
  "verify_area addr sz s =
     bindE (c_int (sz + uint (addr AND 0xFFF))) (\<lambda>sz.
     verify_loop sz ((addr AND 0xFFFFF000) + get_base (t_ldt (cur s) ! 2)) s)"

section \<open>The calls of sys.c\<close>

definition sys_ftime :: int where "sys_ftime = - ENOSYS"
definition sys_mknod :: int where "sys_mknod = - ENOSYS"
definition sys_break :: int where "sys_break = - ENOSYS"
definition sys_mount :: int where "sys_mount = - ENOSYS"
definition sys_umount :: int where "sys_umount = - ENOSYS"
definition sys_ustat :: "int \<Rightarrow> u64 \<Rightarrow> int" where "sys_ustat dev ubuf = -1"
definition sys_ptrace :: int where "sys_ptrace = - ENOSYS"
definition sys_stty :: int where "sys_stty = - ENOSYS"
definition sys_gtty :: int where "sys_gtty = - ENOSYS"
definition sys_rename :: int where "sys_rename = - ENOSYS"
definition sys_prof :: int where "sys_prof = - ENOSYS"
definition sys_acct :: int where "sys_acct = - ENOSYS"
definition sys_phys :: int where "sys_phys = - ENOSYS"
definition sys_lock :: int where "sys_lock = - ENOSYS"
definition sys_mpx :: int where "sys_mpx = - ENOSYS"
definition sys_ulimit :: int where "sys_ulimit = - ENOSYS"

definition sys_setgid :: "int \<Rightarrow> 'a sched_scheme \<Rightarrow> int \<times> 'a sched_scheme" where
  "sys_setgid gid s =
     (let t = cur s in
      if t_euid t \<noteq> 0 \<and> t_uid t \<noteq> 0
      then if uint (t_gid t) = gid \<or> uint (t_sgid t) = gid
           then (0, upd_cur (\<lambda>t. t\<lparr>t_egid := of_int gid\<rparr>) s)
           else (- EPERM, s)
      else (0, upd_cur (\<lambda>t. t\<lparr>t_gid := of_int gid, t_egid := of_int gid\<rparr>) s))"

definition sys_setuid :: "int \<Rightarrow> 'a sched_scheme \<Rightarrow> int \<times> 'a sched_scheme" where
  "sys_setuid uid s =
     (let t = cur s in
      if t_euid t \<noteq> 0 \<and> t_uid t \<noteq> 0
      then if uid = uint (t_uid t) \<or> t_suid t = t_uid t
           then (0, upd_cur (\<lambda>t. t\<lparr>t_euid := of_int uid\<rparr>) s)
           else (- EPERM, s)
      else (0, upd_cur (\<lambda>t. t\<lparr>t_uid := of_int uid, t_euid := of_int uid\<rparr>) s))"

definition sys_time :: "u64 \<Rightarrow> 'a sched_scheme \<Rightarrow> ('a sched_scheme, int) res" where
  "sys_time tloc s =
     (let i = int32 (CURRENT_TIME s) in
      if tloc \<noteq> 0
      then bindE (verify_area tloc 4 s) (\<lambda>(_, s). Inr (i, put_fs_long (of_int i) tloc s))
      else Inr (i, s))"

definition sys_stime :: "u64 \<Rightarrow> 'a sched_scheme \<Rightarrow> int \<times> 'a sched_scheme" where
  "sys_stime tptr s =
     (if t_euid (cur s) \<noteq> 0 \<and> t_uid (cur s) \<noteq> 0 then (-1, s)
      else (0, s\<lparr>startup_time := sint (get_fs_long tptr s - of_int (c_div (jiffies s) HZ))\<rparr>))"

definition sys_times :: "u64 \<Rightarrow> 'a sched_scheme \<Rightarrow> ('a sched_scheme, int) res" where
  "sys_times tbuf s =
     (if tbuf = 0 then Inr (int32 (jiffies s), s)
      else bindE (verify_area tbuf 32 s) (\<lambda>(_, s).
        let s = put_fs_long (of_int (t_utime (cur s))) tbuf s;
            s = put_fs_long (of_int (t_stime (cur s))) (tbuf + 8) s;
            s = put_fs_long (of_int (t_cutime (cur s))) (tbuf + 16) s;
            s = put_fs_long (of_int (t_cstime (cur s))) (tbuf + 24) s in
        Inr (int32 (jiffies s), s)))"

definition sys_brk :: "u64 \<Rightarrow> 'a sched_scheme \<Rightarrow> int \<times> 'a sched_scheme" where
  "sys_brk end_data_seg s =
     (let s = (if t_end_code (cur s) \<le> end_data_seg \<and> end_data_seg < t_start_stack (cur s) - 16384
               then upd_cur (\<lambda>t. t\<lparr>t_brk := end_data_seg\<rparr>) s else s) in
      (int32 (uint (t_brk (cur s))), s))"

definition sys_setpgid :: "int \<Rightarrow> int \<Rightarrow> 'a sched_scheme \<Rightarrow> int \<times> 'a sched_scheme" where
  "sys_setpgid pid pgid s =
     (let pid = (if pid = 0 then int32 (t_pid (cur s)) else pid);
          pgid = (if pgid = 0 then pid else pgid);
          i = first_index (\<lambda>p. p \<noteq> 0 \<and> t_pid (task_at s p) = pid) (take NR_TASKS (task s)) in
      if i < NR_TASKS then
        let p = task s ! i in
        if t_leader (task_at s p) \<noteq> 0 then (- EPERM, s)
        else if t_session (task_at s p) \<noteq> t_session (cur s) then (- EPERM, s)
        else (0, upd_task p (\<lambda>t. t\<lparr>t_pgrp := pgid\<rparr>) s)
      else (- ESRCH, s))"

definition sys_getpgrp :: "'a sched_scheme \<Rightarrow> int" where
  "sys_getpgrp s = int32 (t_pgrp (cur s))"

definition sys_setsid :: "'a sched_scheme \<Rightarrow> int \<times> 'a sched_scheme" where
  "sys_setsid s =
     (if t_uid (cur s) \<noteq> 0 \<and> t_euid (cur s) \<noteq> 0 then (- EPERM, s)
      else if t_leader (cur s) \<noteq> 0 then (- EPERM, s)
      else let s = upd_cur (\<lambda>t. t\<lparr>t_leader := 1, t_session := t_pid t, t_pgrp := t_pid t, t_tty := -1\<rparr>) s in
        (int32 (t_pgrp (cur s)), s))"

definition thisname :: "u8 list" where
  "thisname = concat (map (\<lambda>f. map of_char f @ [0])
     [''linux .0'', ''nodename'', ''release '', ''version '', ''machine ''])"

definition sys_uname :: "u64 \<Rightarrow> 'a sched_scheme \<Rightarrow> ('a sched_scheme, int) res" where
  "sys_uname name s =
     (if name = 0 then Inr (-1, s)
      else bindE (verify_area name 45 s) (\<lambda>(_, s). Inr (0, put_fs_bytes thisname name s)))"

definition sys_umask :: "int \<Rightarrow> 'a sched_scheme \<Rightarrow> int \<times> 'a sched_scheme" where
  "sys_umask msk s = (uint (t_umask (cur s)), upd_cur (\<lambda>t. t\<lparr>t_umask := of_int msk AND 0x1FF\<rparr>) s)"

end
