(* ===== verification/Fs_State.thy ===== *)
theory Fs_State
  imports Sys_Calls
begin

text \<open>
  The tables of the file system: \<open>src/include/linux/fs.h\<close>, and the variables of
  \<open>src/fs/buffer.c\<close>, \<open>inode.c\<close>, \<open>super.c\<close>, \<open>file_table.c\<close> and \<open>src/kernel/hd.c\<close>. A pointer to a
  buffer head, an i-node, a file, a super block or a disk request is its index in the table plus
  one, \<open>NULL\<close> is 0. The 1024 bytes of a block are a function of the offset.
\<close>

section \<open>Blocks\<close>

type_synonym block = "nat \<Rightarrow> u8"

abbreviation BLOCK_SIZE :: nat where "BLOCK_SIZE \<equiv> 1024"

definition get16 :: "block \<Rightarrow> nat \<Rightarrow> u16" where
  "get16 d a = ucast (d a) OR push_bit 8 (ucast (d (a + 1)))"

definition put16 :: "u16 \<Rightarrow> nat \<Rightarrow> block \<Rightarrow> block" where
  "put16 v a d = d(a := ucast v, a + 1 := ucast (drop_bit 8 v))"

definition get64 :: "block \<Rightarrow> nat \<Rightarrow> u64" where
  "get64 d a = word_of (map (\<lambda>i. d (a + i)) [0..<8])"

definition put_bytes :: "u8 list \<Rightarrow> nat \<Rightarrow> block \<Rightarrow> block" where
  "put_bytes bs a d = (\<lambda>i. if a \<le> i \<and> i < a + length bs then bs ! (i - a) else d i)"

section \<open>Structures\<close>

record buffer_head =
  b_data :: block
  b_dev :: u16
  b_blocknr :: u16
  b_uptodate :: bool
  b_dirt :: bool
  b_count :: u8
  b_lock :: bool
  b_wait :: u64
  b_prev :: nat
  b_next :: nat
  b_prev_free :: nat
  b_next_free :: nat

record d_inode =
  d_mode :: u16
  d_uid :: u16
  d_size :: u64
  d_time :: u64
  d_gid :: u8
  d_nlinks :: u8
  d_zone :: "u16 list"

record m_inode =
  i_mode :: u16
  i_uid :: u16
  i_size :: u64
  i_mtime :: u64
  i_gid :: u8
  i_nlinks :: u8
  i_zone :: "u16 list"
  i_wait :: u64
  i_atime :: u64
  i_ctime :: u64
  i_dev :: u16
  i_num :: u16
  i_count :: u16
  i_lock :: bool
  i_dirt :: bool
  i_pipe :: bool
  i_mount :: u8
  i_seek :: u8
  i_update :: u8

definition zero_inode :: m_inode where
  "zero_inode =
     \<lparr>i_mode = 0, i_uid = 0, i_size = 0, i_mtime = 0, i_gid = 0, i_nlinks = 0, i_zone = replicate 9 0,
      i_wait = 0, i_atime = 0, i_ctime = 0, i_dev = 0, i_num = 0, i_count = 0, i_lock = False,
      i_dirt = False, i_pipe = False, i_mount = 0, i_seek = 0, i_update = 0\<rparr>"

record kfile =
  f_mode :: u16
  f_flags :: u16
  f_count :: u16
  f_inode :: nat
  f_pos :: int

record super_block =
  s_ninodes :: u16
  s_nzones :: u16
  s_imap_blocks :: u16
  s_zmap_blocks :: u16
  s_firstdatazone :: u16
  s_log_zone_size :: u16
  s_max_size :: u64
  s_magic :: u16
  s_imap :: "nat list"
  s_zmap :: "nat list"
  s_dev :: u16
  s_isup :: nat
  s_imount :: nat
  s_time :: u64
  s_rd_only :: u8
  s_dirt :: u8

record hd_request =
  r_hd :: int
  r_nsector :: int
  r_sector :: int
  r_head :: int
  r_cyl :: int
  r_cmd :: int
  r_errors :: int
  r_bh :: nat
  r_next :: nat

datatype hd_fn = Read_intr | Write_intr | Do_request

abbreviation NR_INODE :: nat where "NR_INODE \<equiv> 32"
abbreviation NR_FILE :: nat where "NR_FILE \<equiv> 64"
abbreviation NR_SUPER :: nat where "NR_SUPER \<equiv> 8"
abbreviation NR_HASH :: nat where "NR_HASH \<equiv> 307"
abbreviation NAME_LEN :: nat where "NAME_LEN \<equiv> 14"

record fs = ttys +
  buffers :: "buffer_head list"
  start_buffer :: u64 \<comment> \<open>the address \<open>&end\<close>, fixed by the linker\<close>
  hash_table :: "nat list"
  free_list :: nat
  buffer_wait :: u64
  inode_table :: "m_inode list"
  last_allocated_inode :: nat
  file_table :: "kfile list"
  super_blocks :: "super_block list"
  hd_parts :: "(int \<times> int) list" \<comment> \<open>\<open>hd[]\<close>: start and size in sectors\<close>
  request :: "hd_request list"
  this_request :: nat
  sorting :: bool
  do_hd :: "hd_fn option"
  wait_for_request :: u64
  setup_callable :: bool

section \<open>Environment\<close>

text \<open>
  What the disk controller does: the value a port returns and how reading changes the controller,
  and how the controller reacts to a byte or word written to a port.
\<close>

record 's dev_env = "'s env" +
  e_in :: "u16 \<Rightarrow> 's \<Rightarrow> u8 \<times> 's"
  e_inw :: "u16 \<Rightarrow> 's \<Rightarrow> u16 \<times> 's"
  e_out :: "u8 \<Rightarrow> u16 \<Rightarrow> 's \<Rightarrow> 's"
  e_outw :: "u16 \<Rightarrow> u16 \<Rightarrow> 's \<Rightarrow> 's"

section \<open>Access\<close>

abbreviation buf :: "'a fs_scheme \<Rightarrow> nat \<Rightarrow> buffer_head" where "buf s p \<equiv> buffers s ! (p - 1)"
abbreviation ino :: "'a fs_scheme \<Rightarrow> nat \<Rightarrow> m_inode" where "ino s p \<equiv> inode_table s ! (p - 1)"
abbreviation filp :: "'a fs_scheme \<Rightarrow> nat \<Rightarrow> kfile" where "filp s p \<equiv> file_table s ! (p - 1)"
abbreviation sblk :: "'a fs_scheme \<Rightarrow> nat \<Rightarrow> super_block" where "sblk s p \<equiv> super_blocks s ! (p - 1)"

abbreviation rd_buf :: "nat \<Rightarrow> (buffer_head \<Rightarrow> 'b) \<Rightarrow> ('a fs_scheme, 'b) act" where "rd_buf \<equiv> tab_rd buffers"
abbreviation upd_buf :: "nat \<Rightarrow> (buffer_head \<Rightarrow> buffer_head) \<Rightarrow> ('a fs_scheme, unit) act" where
  "upd_buf \<equiv> tab_upd buffers buffers_update"
abbreviation rd_ino :: "nat \<Rightarrow> (m_inode \<Rightarrow> 'b) \<Rightarrow> ('a fs_scheme, 'b) act" where "rd_ino \<equiv> tab_rd inode_table"
abbreviation upd_ino :: "nat \<Rightarrow> (m_inode \<Rightarrow> m_inode) \<Rightarrow> ('a fs_scheme, unit) act" where
  "upd_ino \<equiv> tab_upd inode_table inode_table_update"
abbreviation rd_file :: "nat \<Rightarrow> (kfile \<Rightarrow> 'b) \<Rightarrow> ('a fs_scheme, 'b) act" where "rd_file \<equiv> tab_rd file_table"
abbreviation upd_file :: "nat \<Rightarrow> (kfile \<Rightarrow> kfile) \<Rightarrow> ('a fs_scheme, unit) act" where
  "upd_file \<equiv> tab_upd file_table file_table_update"
abbreviation rd_sb :: "nat \<Rightarrow> (super_block \<Rightarrow> 'b) \<Rightarrow> ('a fs_scheme, 'b) act" where "rd_sb \<equiv> tab_rd super_blocks"
abbreviation upd_sb :: "nat \<Rightarrow> (super_block \<Rightarrow> super_block) \<Rightarrow> ('a fs_scheme, unit) act" where
  "upd_sb \<equiv> tab_upd super_blocks super_blocks_update"
abbreviation rd_req :: "nat \<Rightarrow> (hd_request \<Rightarrow> 'b) \<Rightarrow> ('a fs_scheme, 'b) act" where "rd_req \<equiv> tab_rd request"
abbreviation upd_req :: "nat \<Rightarrow> (hd_request \<Rightarrow> hd_request) \<Rightarrow> ('a fs_scheme, unit) act" where
  "upd_req \<equiv> tab_upd request request_update"

abbreviation panic :: "string \<Rightarrow> ('s, 'a) act" where "panic msg \<equiv> stop (Panic msg)"

definition MAJOR :: "int \<Rightarrow> nat" where "MAJOR a = unat (drop_bit 8 (of_int a :: u32))"
definition MINOR :: "int \<Rightarrow> nat" where "MINOR a = nat (a mod 256)"

definition S_ISREG :: "u16 \<Rightarrow> bool" where "S_ISREG m \<longleftrightarrow> m AND 0xF000 = 0x8000"
definition S_ISDIR :: "u16 \<Rightarrow> bool" where "S_ISDIR m \<longleftrightarrow> m AND 0xF000 = 0x4000"
definition S_ISCHR :: "u16 \<Rightarrow> bool" where "S_ISCHR m \<longleftrightarrow> m AND 0xF000 = 0x2000"
definition S_ISBLK :: "u16 \<Rightarrow> bool" where "S_ISBLK m \<longleftrightarrow> m AND 0xF000 = 0x6000"

definition get_super :: "int \<Rightarrow> 'a fs_scheme \<Rightarrow> nat" where
  "get_super dev s =
     (let i = first_index (\<lambda>sb. uint (s_dev sb) = dev) (super_blocks s) in
      if i < length (super_blocks s) then i + 1 else 0)"

section \<open>Wait queues\<close>

definition buf_wait :: "nat \<Rightarrow> 'a fs_scheme cell" where
  "buf_wait p = (\<lambda>s. b_wait (buf s p), \<lambda>v s. s\<lparr>buffers := (buffers s)[p - 1 := (buf s p)\<lparr>b_wait := v\<rparr>]\<rparr>)"

definition ino_wait :: "nat \<Rightarrow> 'a fs_scheme cell" where
  "ino_wait p = (\<lambda>s. i_wait (ino s p), \<lambda>v s. s\<lparr>inode_table := (inode_table s)[p - 1 := (ino s p)\<lparr>i_wait := v\<rparr>]\<rparr>)"

definition buffer_wait_cell :: "'a fs_scheme cell" where
  "buffer_wait_cell = (buffer_wait, \<lambda>v s. s\<lparr>buffer_wait := v\<rparr>)"

definition request_wait :: "'a fs_scheme cell" where
  "request_wait = (wait_for_request, \<lambda>v s. s\<lparr>wait_for_request := v\<rparr>)"

interpretation bufw: wait_cell "\<lambda>s :: 'a fs_scheme. in_tab p (buffers s)" "fst (buf_wait p)" "snd (buf_wait p)" for p
  by unfold_locales (auto simp: buf_wait_def in_tab_def)

interpretation inow: wait_cell "\<lambda>s :: 'a fs_scheme. in_tab p (inode_table s)" "fst (ino_wait p)" "snd (ino_wait p)" for p
  by unfold_locales (auto simp: ino_wait_def in_tab_def)

interpretation bwc: wait_cell "\<lambda>_ :: 'a fs_scheme. True" "fst buffer_wait_cell" "snd buffer_wait_cell"
  by unfold_locales (auto simp: buffer_wait_cell_def)

interpretation reqw: wait_cell "\<lambda>_ :: 'a fs_scheme. True" "fst request_wait" "snd request_wait"
  by unfold_locales (auto simp: request_wait_def)

text \<open>\<open>while (b) sleep_on(p);\<close>\<close>

fun wait_while :: "nat \<Rightarrow> ('a fs_scheme, 'e) env_scheme \<Rightarrow> ('a fs_scheme \<Rightarrow> bool) \<Rightarrow> 'a fs_scheme cell \<Rightarrow>
    ('a fs_scheme, unit) act" where
  "wait_while 0 E b p s = Inl Diverge"
| "wait_while (Suc fuel) E b p s =
     (if b s then thn (sleep_on (e_run E) p) (wait_while fuel E b p) s else Inr ((), s))"

end
