(* ===== verification/Hd.thy ===== *)
theory Hd
  imports Fs_State
begin

text \<open>
  The hard-disk driver: \<open>src/kernel/hd.c\<close>, and \<open>ll_rw_block\<close> of \<open>src/fs/block_dev.c\<close>. The
  interrupt handler the driver has installed is the state component \<open>do_hd\<close>; an interrupt is a
  call of \<open>hd_interrupt\<close>, which the environment may make while a task sleeps.
\<close>

abbreviation HD_DATA :: u16 where "HD_DATA \<equiv> 0x1f0"
abbreviation HD_ERROR :: u16 where "HD_ERROR \<equiv> 0x1f1"
abbreviation HD_STATUS :: u16 where "HD_STATUS \<equiv> 0x1f7"
abbreviation HD_CMD :: u16 where "HD_CMD \<equiv> 0x3f6"
abbreviation READY_STAT :: u8 where "READY_STAT \<equiv> 0x40"
abbreviation SEEK_STAT :: u8 where "SEEK_STAT \<equiv> 0x10"
abbreviation WIN_READ :: int where "WIN_READ \<equiv> 0x20"
abbreviation WIN_WRITE :: int where "WIN_WRITE \<equiv> 0x30"
abbreviation WIN_SPECIFY :: int where "WIN_SPECIFY \<equiv> 0x91"
abbreviation NR_HD :: nat where "NR_HD \<equiv> 2"
abbreviation NR_REQUEST :: nat where "NR_REQUEST \<equiv> 32"
abbreviation MAX_ERRORS :: int where "MAX_ERRORS \<equiv> 5"

record hd_i_struct =
  hi_head :: int
  hi_sect :: int
  hi_cyl :: int
  hi_wpcom :: int
  hi_lzone :: int
  hi_ctl :: int

definition hd_info :: "hd_i_struct list" where
  "hd_info = replicate 2 \<lparr>hi_head = 5, hi_sect = 17, hi_cyl = 980, hi_wpcom = 300, hi_lzone = 980, hi_ctl = 0\<rparr>"

section \<open>Ports and buffers\<close>

definition hd_inb :: "'a fs_scheme dev_env \<Rightarrow> u16 \<Rightarrow> ('a fs_scheme, u8) act" where
  "hd_inb E port s = Inr (e_in E port s)"

definition hd_outb :: "'a fs_scheme dev_env \<Rightarrow> u8 \<Rightarrow> u16 \<Rightarrow> ('a fs_scheme, unit) act" where
  "hd_outb E v port = upd (\<lambda>s. e_out E v port (outb v port s))"

fun port_read :: "'a fs_scheme dev_env \<Rightarrow> u16 \<Rightarrow> nat \<Rightarrow> nat \<Rightarrow> nat \<Rightarrow> ('a fs_scheme, unit) act" where
  "port_read E port p off 0 = ret ()"
| "port_read E port p off (Suc n) =
     bnd (\<lambda>s. Inr (e_inw E port s)) (\<lambda>w.
     thn (upd_buf p (\<lambda>b. b\<lparr>b_data := put16 w off (b_data b)\<rparr>)) (port_read E port p (off + 2) n))"

fun port_write :: "'a fs_scheme dev_env \<Rightarrow> u16 \<Rightarrow> nat \<Rightarrow> nat \<Rightarrow> nat \<Rightarrow> ('a fs_scheme, unit) act" where
  "port_write E port p off 0 = ret ()"
| "port_write E port p off (Suc n) =
     bnd (rd_buf p (\<lambda>b. get16 (b_data b) off)) (\<lambda>w.
     thn (upd (e_outw E w port)) (port_write E port p (off + 2) n))"

definition lock_buffer :: "nat \<Rightarrow> ('a fs_scheme, unit) act" where
  "lock_buffer p =
     bnd (rd_buf p b_lock) (\<lambda>l.
     acts [onlyif l (upd (printk (''hd.c: buffer multiply locked'' @ [CHR 0x0A]) [])),
           upd_buf p (\<lambda>b. b\<lparr>b_lock := True\<rparr>)])"

definition unlock_buffer :: "nat \<Rightarrow> ('a fs_scheme, unit) act" where
  "unlock_buffer p =
     bnd (rd_buf p b_lock) (\<lambda>l.
     acts [onlyif (\<not> l) (upd (printk (''hd.c: free buffer being unlocked'' @ [CHR 0x0A]) [])),
           upd_buf p (\<lambda>b. b\<lparr>b_lock := False\<rparr>),
           upd (wake_up (buf_wait p))])"

definition wait_on_buffer :: "'a fs_scheme dev_env \<Rightarrow> nat \<Rightarrow> ('a fs_scheme, unit) act" where
  "wait_on_buffer E p =
     bnd (rd_buf p b_lock) (\<lambda>_. wait_while (e_fuel E) E (\<lambda>s. b_lock (buf s p)) (buf_wait p))"

section \<open>The controller\<close>

fun ready_loop :: "'a fs_scheme dev_env \<Rightarrow> nat \<Rightarrow> ('a fs_scheme, nat) act" where
  "ready_loop E 0 = ret 0"
| "ready_loop E (Suc n) =
     (if n = 0 then ret 0
      else bnd (hd_inb E HD_STATUS) (\<lambda>v. if v AND 0xC0 \<noteq> 0x40 then ready_loop E n else ret n))"

definition controller_ready :: "'a fs_scheme dev_env \<Rightarrow> ('a fs_scheme, nat) act" where
  "controller_ready E = ready_loop E 1000"

definition win_result :: "'a fs_scheme dev_env \<Rightarrow> ('a fs_scheme, bool) act" where
  "win_result E =
     bnd (hd_inb E HD_STATUS) (\<lambda>i.
     if i AND 0xF1 = READY_STAT OR SEEK_STAT then ret False
     else if i AND 1 \<noteq> 0 then bnd (hd_inb E HD_ERROR) (\<lambda>_. ret True)
     else ret True)"

definition hd_out :: "'a fs_scheme dev_env \<Rightarrow> int \<Rightarrow> int \<Rightarrow> int \<Rightarrow> int \<Rightarrow> int \<Rightarrow> int \<Rightarrow> hd_fn \<Rightarrow>
    ('a fs_scheme, unit) act" where
  "hd_out E drive nsect sect head cyl cmd intr_addr =
     (if (of_int drive :: u32) > 1 \<or> (of_int head :: u32) > 15 then panic ''Trying to write bad sector''
      else bnd (controller_ready E) (\<lambda>r.
        if r = 0 then panic ''HD controller not ready''
        else acts
          [upd (\<lambda>s. s\<lparr>do_hd := Some intr_addr\<rparr>),
           hd_outb E 0 HD_CMD,
           hd_outb E 75 0x1f1,
           hd_outb E (of_int nsect) 0x1f2,
           hd_outb E (of_int sect) 0x1f3,
           hd_outb E (of_int cyl) 0x1f4,
           hd_outb E (ucast (drop_bit 8 (of_int cyl :: u32))) 0x1f5,
           hd_outb E (0xA0 OR push_bit 4 (of_int drive) OR of_int head) 0x1f6,
           hd_outb E (of_int cmd) 0x1f7]))"

fun busy_loop :: "'a fs_scheme dev_env \<Rightarrow> nat \<Rightarrow> ('a fs_scheme, unit) act" where
  "busy_loop E 0 = ret ()"
| "busy_loop E (Suc n) =
     bnd (hd_inb E HD_STATUS) (\<lambda>v. if v AND 0xC0 = READY_STAT then ret () else busy_loop E n)"

text \<open>\<open>i == READY_STAT | SEEK_STAT\<close> is \<open>(i == READY_STAT) | SEEK_STAT\<close>.\<close>

definition drive_busy :: "'a fs_scheme dev_env \<Rightarrow> ('a fs_scheme, bool) act" where
  "drive_busy E =
     thn (busy_loop E 100000)
     (bnd (hd_inb E HD_STATUS) (\<lambda>i.
      if of_bool (i AND 0xD0 = READY_STAT) OR SEEK_STAT \<noteq> 0 then ret False
      else thn (upd (printk (''HD controller times out'' @ [CHR 0x0A, CHR 0x0D]) [])) (ret True)))"

fun reset_loop :: "'a fs_scheme dev_env \<Rightarrow> nat \<Rightarrow> ('a fs_scheme, unit) act" where
  "reset_loop E 0 = ret ()"
| "reset_loop E (Suc n) = bnd (drive_busy E) (\<lambda>b. if b then reset_loop E n else ret ())"

definition reset_controller :: "'a fs_scheme dev_env \<Rightarrow> ('a fs_scheme, unit) act" where
  "reset_controller E =
     acts [hd_outb E 4 HD_CMD,
           hd_outb E 0 HD_CMD,
           reset_loop E 10000,
           bnd (drive_busy E) (\<lambda>b. onlyif b (upd (printk (''HD-controller still busy'' @ [CHR 0x0A, CHR 0x0D]) []))),
           bnd (hd_inb E 1) (\<lambda>i. onlyif (i \<noteq> 1)
             (upd (printk (''HD-controller reset failed: %02x'' @ [CHR 0x0A, CHR 0x0D]) [AInt (ucast i)])))]"

definition reset_hd :: "'a fs_scheme dev_env \<Rightarrow> int \<Rightarrow> ('a fs_scheme, unit) act" where
  "reset_hd E nr = thn (reset_controller E) (hd_out E nr 17 17 4 977 WIN_SPECIFY Do_request)"

section \<open>Interrupts\<close>

definition unexpected_hd_interrupt :: "('a fs_scheme, unit) act" where
  "unexpected_hd_interrupt = panic (''Unexpected HD interrupt'' @ [CHR 0x0A, CHR 0x0D])"

definition next_request :: "('a fs_scheme, unit) act" where
  "next_request =
     bnd (rd this_request) (\<lambda>r.
     thn (upd_req r (\<lambda>q. q\<lparr>r_hd := -1\<rparr>))
     (bnd (rd_req r r_next) (\<lambda>n. upd (\<lambda>s. s\<lparr>this_request := n\<rparr>))))"

definition bad_rw_intr :: "'a fs_scheme dev_env \<Rightarrow> ('a fs_scheme, unit) act" where
  "bad_rw_intr E =
     bnd (rd this_request) (\<lambda>r.
     bnd (rd_req r (\<lambda>q. (r_hd q, r_errors q, r_bh q))) (\<lambda>(i, errors, p).
     acts [upd_req r (\<lambda>q. q\<lparr>r_errors := errors + 1\<rparr>),
           onlyif (errors \<ge> MAX_ERRORS)
             (acts [upd_buf p (\<lambda>b. b\<lparr>b_uptodate := False\<rparr>),
                    unlock_buffer p,
                    upd (wake_up request_wait),
                    next_request]),
           reset_hd E i]))"

fun drq_loop :: "'a fs_scheme dev_env \<Rightarrow> nat \<Rightarrow> ('a fs_scheme, bool) act" where
  "drq_loop E 0 = ret False"
| "drq_loop E (Suc n) = bnd (hd_inb E HD_STATUS) (\<lambda>v. if v AND 8 \<noteq> 0 then ret True else drq_loop E n)"

definition half :: "int \<Rightarrow> nat" where "half nsector = 512 * nat (nsector mod 2)"

definition do_request :: "'a fs_scheme dev_env \<Rightarrow> ('a fs_scheme, unit) act" where
  "do_request E =
     bnd (rd (\<lambda>s. (sorting s, this_request s))) (\<lambda>(srt, r).
     if srt then ret ()
     else if r = 0 then upd (\<lambda>s. s\<lparr>do_hd := None\<rparr>)
     else bnd (rd_req r id) (\<lambda>q.
       if r_cmd q = WIN_WRITE then
         thn (hd_out E (r_hd q) (r_nsector q) (r_sector q) (r_head q) (r_cyl q) (r_cmd q) Write_intr)
         (bnd (drq_loop E 3000) (\<lambda>ok.
          if \<not> ok then reset_hd E (r_hd q)
          else port_write E HD_DATA (r_bh q) (half (r_nsector q)) 256))
       else if r_cmd q = WIN_READ then
         hd_out E (r_hd q) (r_nsector q) (r_sector q) (r_head q) (r_cyl q) (r_cmd q) Read_intr
       else panic ''unknown hd-command''))"

definition end_request :: "'a fs_scheme dev_env \<Rightarrow> nat \<Rightarrow> ('a fs_scheme, unit) act" where
  "end_request E p =
     acts [upd_buf p (\<lambda>b. b\<lparr>b_uptodate := True\<rparr>),
           upd_buf p (\<lambda>b. b\<lparr>b_dirt := False\<rparr>),
           upd (wake_up request_wait),
           unlock_buffer p,
           next_request,
           do_request E]"

definition read_intr :: "'a fs_scheme dev_env \<Rightarrow> ('a fs_scheme, unit) act" where
  "read_intr E =
     bnd (win_result E) (\<lambda>bad.
     if bad then bad_rw_intr E
     else bnd (rd this_request) (\<lambda>r.
       bnd (rd_req r (\<lambda>q. (r_nsector q, r_bh q))) (\<lambda>(n, p).
       acts [port_read E HD_DATA p (half n) 256,
             upd_req r (\<lambda>q. q\<lparr>r_errors := 0\<rparr>),
             upd_req r (\<lambda>q. q\<lparr>r_nsector := n - 1\<rparr>),
             onlyif (n - 1 = 0) (end_request E p)])))"

definition write_intr :: "'a fs_scheme dev_env \<Rightarrow> ('a fs_scheme, unit) act" where
  "write_intr E =
     bnd (win_result E) (\<lambda>bad.
     if bad then bad_rw_intr E
     else bnd (rd this_request) (\<lambda>r.
       bnd (rd_req r (\<lambda>q. (r_nsector q, r_bh q))) (\<lambda>(n, p).
       thn (upd_req r (\<lambda>q. q\<lparr>r_nsector := n - 1\<rparr>))
       (if n - 1 \<noteq> 0 then port_write E HD_DATA p 512 256 else end_request E p))))"

definition hd_interrupt :: "'a fs_scheme dev_env \<Rightarrow> ('a fs_scheme, unit) act" where
  "hd_interrupt E =
     acts [upd (outb 0x20 0xA0), upd (outb 0x20 0x20),
           bnd (rd do_hd) (\<lambda>f. case f of
               None \<Rightarrow> unexpected_hd_interrupt
             | Some Read_intr \<Rightarrow> read_intr E
             | Some Write_intr \<Rightarrow> write_intr E
             | Some Do_request \<Rightarrow> do_request E)]"

section \<open>Requests\<close>

definition IN_ORDER :: "hd_request \<Rightarrow> hd_request \<Rightarrow> bool" where
  "IN_ORDER s1 s2 \<longleftrightarrow>
     r_hd s1 < r_hd s2 \<or> r_hd s1 = r_hd s2 \<and>
     (r_cyl s1 < r_cyl s2 \<or> r_cyl s1 = r_cyl s2 \<and>
      (r_head s1 < r_head s2 \<or> r_head s1 = r_head s2 \<and>
       (r_sector s1 < r_sector s2)))"

text \<open>The search for the place in the queue; a queue that does not end uses up the fuel.\<close>

fun find_place :: "nat \<Rightarrow> nat \<Rightarrow> nat \<Rightarrow> ('a fs_scheme, nat) act" where
  "find_place 0 tmp req = stop Diverge"
| "find_place (Suc n) tmp req =
     bnd (rd_req tmp id) (\<lambda>t.
     if r_next t = 0 then ret tmp
     else bnd (rd_req req id) (\<lambda>r.
       bnd (rd_req (r_next t) id) (\<lambda>nx.
       if (IN_ORDER t r \<or> \<not> IN_ORDER t nx) \<and> IN_ORDER r nx then ret tmp
       else find_place n (r_next t) req)))"

definition add_request :: "'a fs_scheme dev_env \<Rightarrow> nat \<Rightarrow> ('a fs_scheme, unit) act" where
  "add_request E req =
     bnd (rd_req req r_nsector) (\<lambda>n.
     if n \<noteq> 2 then panic ''nsector!=2 not implemented''
     else acts
       [upd (\<lambda>s. s\<lparr>sorting := True\<rparr>),
        bnd (rd this_request) (\<lambda>tmp.
          if tmp = 0 then upd (\<lambda>s. s\<lparr>this_request := req\<rparr>)
          else bnd (rd_req tmp r_next) (\<lambda>nx.
            if nx = 0 then upd_req tmp (\<lambda>q. q\<lparr>r_next := req\<rparr>)
            else bnd (find_place NR_REQUEST nx req) (\<lambda>tmp.
              bnd (rd_req tmp r_next) (\<lambda>nx.
              acts [upd_req req (\<lambda>q. q\<lparr>r_next := nx\<rparr>),
                    upd_req tmp (\<lambda>q. q\<lparr>r_next := req\<rparr>)])))),
        upd (\<lambda>s. s\<lparr>sorting := False\<rparr>),
        bnd (rd do_hd) (\<lambda>f. onlyif (f = None) (do_request E))])"

fun get_request :: "nat \<Rightarrow> 'a fs_scheme dev_env \<Rightarrow> ('a fs_scheme, nat) act" where
  "get_request 0 E = stop Diverge"
| "get_request (Suc n) E =
     bnd (rd (\<lambda>s. (first_index (\<lambda>q. r_hd q < 0) (request s), length (request s)))) (\<lambda>(i, len).
     if i = len then thn (sleep_on (e_run E) request_wait) (get_request n E) else ret (i + 1))"

definition rw_abs_hd :: "'a fs_scheme dev_env \<Rightarrow> bool \<Rightarrow> int \<Rightarrow> int \<Rightarrow> int \<Rightarrow> int \<Rightarrow> nat \<Rightarrow> ('a fs_scheme, unit) act" where
  "rw_abs_hd E wr nr sec head cyl bh =
     thn (lock_buffer bh)
     (bnd (get_request (e_fuel E) E) (\<lambda>req.
      acts [upd_req req (\<lambda>_. \<lparr>r_hd = nr, r_nsector = 2, r_sector = sec, r_head = head, r_cyl = cyl,
                r_cmd = (if wr then WIN_WRITE else WIN_READ), r_errors = 0, r_bh = bh, r_next = 0\<rparr>),
            add_request E req,
            wait_on_buffer E bh]))"

definition rw_hd :: "'a fs_scheme dev_env \<Rightarrow> bool \<Rightarrow> nat \<Rightarrow> ('a fs_scheme, unit) act" where
  "rw_hd E wr bh =
     bnd (rd_buf bh (\<lambda>b. (push_bit 1 (ucast (b_blocknr b)) :: u32, MINOR (uint (b_dev b))))) (\<lambda>(block, dev).
     if dev \<ge> 5 * NR_HD then ret ()
     else bnd (rd (\<lambda>s. hd_parts s ! dev)) (\<lambda>(start, nr).
       if uint (block + 2) > nr then ret ()
       else let block = block + of_int start; d = dev div 5;
                sect = of_int (hi_sect (hd_info ! d)); heads = of_int (hi_head (hd_info ! d));
                sec = block mod sect; block = block div sect;
                head = block mod heads; cyl = block div heads in
         rw_abs_hd E wr (int d) (uint (sec + 1)) (uint head) (uint cyl) bh))"

definition ll_rw_block :: "'a fs_scheme dev_env \<Rightarrow> bool \<Rightarrow> nat \<Rightarrow> ('a fs_scheme, unit) act" where
  "ll_rw_block E wr bh =
     bnd (rd_buf bh (\<lambda>b. MAJOR (uint (b_dev b)))) (\<lambda>major.
     if major \<ge> 7 \<or> major \<noteq> 3 then panic ''Trying to read nonexistent block-device''
     else rw_hd E wr bh)"

definition hd_init :: "(u16 \<Rightarrow> u8) \<Rightarrow> u64 \<Rightarrow> 'a fs_scheme \<Rightarrow> 'a fs_scheme" where
  "hd_init inb_p intr s =
     (let s = s\<lparr>request := map (\<lambda>q. q\<lparr>r_hd := -1, r_next := 0\<rparr>) (request s)\<rparr>;
          s = fold (\<lambda>i s. s\<lparr>hd_parts := (hd_parts s)[i * 5 := (0, hi_head (hd_info ! i) * hi_sect (hd_info ! i) * hi_cyl (hd_info ! i))]\<rparr>)
                [0..<NR_HD] s;
          s = set_trap_gate 0x2E intr s;
          s = outb (inb_p 0x21 AND 0xFB) 0x21 s in
      outb (inb_p 0xA1 AND 0xBF) 0xA1 s)"

end
