(* ===== verification/Buffer.thy ===== *)
theory Buffer
  imports Hd
begin

text \<open>
  The buffer cache: \<open>src/fs/buffer.c\<close> (\<open>sys_sync\<close> is with the i-nodes). The loops that can repeat
  because another task interfered while this one slept take \<open>e_fuel\<close> rounds; so do the walks along
  the hash chain and the free list, which are as long as there are buffers when the lists are
  well formed.
\<close>

definition with_buf :: "nat \<Rightarrow> (buffer_head \<Rightarrow> ('a fs_scheme, 'b) act) \<Rightarrow> ('a fs_scheme, 'b) act" where
  "with_buf p f = bnd (rd_buf p id) f"

definition sync_buffer :: "'a fs_scheme dev_env \<Rightarrow> nat \<Rightarrow> ('a fs_scheme, unit) act" where
  "sync_buffer E p =
     thn (wait_on_buffer E p) (with_buf p (\<lambda>b. onlyif (b_dirt b) (ll_rw_block E True p)))"

definition sync_dev :: "'a fs_scheme dev_env \<Rightarrow> int \<Rightarrow> ('a fs_scheme, unit) act" where
  "sync_dev E dev =
     bnd (rd (\<lambda>s. length (buffers s))) (\<lambda>n.
     acts (map (\<lambda>p. with_buf p (\<lambda>b. onlyif (uint (b_dev b) = dev) (sync_buffer E p))) [1..<Suc n]))"

definition hashfn :: "int \<Rightarrow> int \<Rightarrow> nat" where
  "hashfn dev block = unat ((of_int dev XOR of_int block :: u32) mod 307)"

definition bh_hash :: "buffer_head \<Rightarrow> nat" where
  "bh_hash b = hashfn (uint (b_dev b)) (uint (b_blocknr b))"

text \<open>The address of a buffer head; \<open>sizeof (struct buffer_head)\<close> is 56.\<close>

definition bh_addr :: "'a fs_scheme \<Rightarrow> nat \<Rightarrow> u64" where
  "bh_addr s p = start_buffer s + 56 * of_nat (p - 1)"

definition remove_from_hash :: "nat \<Rightarrow> ('a fs_scheme, unit) act" where
  "remove_from_hash bh =
     acts [with_buf bh (\<lambda>b. onlyif (b_next b \<noteq> 0) (upd_buf (b_next b) (\<lambda>n. n\<lparr>b_prev := b_prev b\<rparr>))),
           with_buf bh (\<lambda>b. onlyif (b_prev b \<noteq> 0) (upd_buf (b_prev b) (\<lambda>n. n\<lparr>b_next := b_next b\<rparr>))),
           with_buf bh (\<lambda>b. upd (\<lambda>s. if hash_table s ! bh_hash b = bh
             then s\<lparr>hash_table := (hash_table s)[bh_hash b := b_next b]\<rparr> else s))]"

definition remove_from_free :: "nat \<Rightarrow> ('a fs_scheme, unit) act" where
  "remove_from_free bh =
     acts [with_buf bh (\<lambda>b. if b_prev_free b = 0 \<or> b_next_free b = 0 then panic ''Free block list corrupted'' else ret ()),
           with_buf bh (\<lambda>b. upd_buf (b_prev_free b) (\<lambda>n. n\<lparr>b_next_free := b_next_free b\<rparr>)),
           with_buf bh (\<lambda>b. upd_buf (b_next_free b) (\<lambda>n. n\<lparr>b_prev_free := b_prev_free b\<rparr>)),
           with_buf bh (\<lambda>b. upd (\<lambda>s. if free_list s = bh then s\<lparr>free_list := b_next_free b\<rparr> else s))]"

definition remove_from_queues :: "nat \<Rightarrow> ('a fs_scheme, unit) act" where
  "remove_from_queues bh = thn (remove_from_hash bh) (remove_from_free bh)"

definition insert_into_free :: "nat \<Rightarrow> ('a fs_scheme, unit) act" where
  "insert_into_free bh =
     acts [bnd (rd free_list) (\<lambda>fl. upd_buf bh (\<lambda>b. b\<lparr>b_next_free := fl\<rparr>)),
           bnd (rd free_list) (\<lambda>fl. with_buf fl (\<lambda>f. upd_buf bh (\<lambda>b. b\<lparr>b_prev_free := b_prev_free f\<rparr>))),
           bnd (rd free_list) (\<lambda>fl. with_buf fl (\<lambda>f. upd_buf (b_prev_free f) (\<lambda>b. b\<lparr>b_next_free := bh\<rparr>))),
           bnd (rd free_list) (\<lambda>fl. upd_buf fl (\<lambda>b. b\<lparr>b_prev_free := bh\<rparr>))]"

text \<open>
  The last statement, \<open>bh->b_next->b_prev = bh\<close>, is executed also when \<open>b_next\<close> is \<open>NULL\<close>: it then
  writes to address 24, the offset of \<open>b_prev\<close>.
\<close>

definition insert_into_hash :: "nat \<Rightarrow> ('a fs_scheme, unit) act" where
  "insert_into_hash bh =
     acts [upd_buf bh (\<lambda>b. b\<lparr>b_prev := 0, b_next := 0\<rparr>),
           with_buf bh (\<lambda>b. if b_dev b = 0 then ret () else
             acts [bnd (rd (\<lambda>s. hash_table s ! bh_hash b)) (\<lambda>n. upd_buf bh (\<lambda>b. b\<lparr>b_next := n\<rparr>)),
                   upd (\<lambda>s. s\<lparr>hash_table := (hash_table s)[bh_hash b := bh]\<rparr>),
                   with_buf bh (\<lambda>b. if b_next b = 0 then upd (\<lambda>s. write_q 24 (bh_addr s bh) s)
                     else upd_buf (b_next b) (\<lambda>n. n\<lparr>b_prev := bh\<rparr>))])]"

definition insert_into_queues :: "nat \<Rightarrow> ('a fs_scheme, unit) act" where
  "insert_into_queues bh = thn (insert_into_free bh) (insert_into_hash bh)"

fun chain_find :: "nat \<Rightarrow> int \<Rightarrow> int \<Rightarrow> nat \<Rightarrow> ('a fs_scheme, nat) act" where
  "chain_find 0 dev block tmp = stop Diverge"
| "chain_find (Suc n) dev block tmp =
     (if tmp = 0 then ret 0
      else with_buf tmp (\<lambda>b.
        if uint (b_dev b) = dev \<and> uint (b_blocknr b) = block then ret tmp
        else chain_find n dev block (b_next b)))"

definition find_buffer :: "int \<Rightarrow> int \<Rightarrow> ('a fs_scheme, nat) act" where
  "find_buffer dev block =
     bnd (rd (\<lambda>s. (hash_table s ! hashfn dev block, length (buffers s)))) (\<lambda>(tmp, n).
     chain_find (n + 1) dev block tmp)"

definition brelse :: "'a fs_scheme dev_env \<Rightarrow> nat \<Rightarrow> ('a fs_scheme, unit) act" where
  "brelse E p =
     (if p = 0 then ret ()
      else thn (wait_on_buffer E p)
        (with_buf p (\<lambda>b.
         thn (upd_buf p (\<lambda>b. b\<lparr>b_count := b_count b - 1\<rparr>))
         (if b_count b = 0 then panic ''Trying to free free buffer''
          else upd (wake_up buffer_wait_cell)))))"

fun hash_loop :: "nat \<Rightarrow> 'a fs_scheme dev_env \<Rightarrow> int \<Rightarrow> int \<Rightarrow> ('a fs_scheme, nat) act" where
  "hash_loop 0 E dev block = stop Diverge"
| "hash_loop (Suc n) E dev block =
     bnd (find_buffer dev block) (\<lambda>bh.
     if bh = 0 then ret 0
     else thn (upd_buf bh (\<lambda>b. b\<lparr>b_count := b_count b + 1\<rparr>))
       (thn (wait_on_buffer E bh)
        (with_buf bh (\<lambda>b.
         if uint (b_dev b) \<noteq> dev \<or> uint (b_blocknr b) \<noteq> block
         then thn (brelse E bh) (hash_loop n E dev block)
         else ret bh))))"

definition get_hash_table :: "'a fs_scheme dev_env \<Rightarrow> int \<Rightarrow> int \<Rightarrow> ('a fs_scheme, nat) act" where
  "get_hash_table E dev block = hash_loop (e_fuel E) E dev block"

fun free_scan :: "nat \<Rightarrow> 'a fs_scheme dev_env \<Rightarrow> nat \<Rightarrow> ('a fs_scheme, nat) act" where
  "free_scan 0 E tmp = stop Diverge"
| "free_scan (Suc n) E tmp =
     with_buf tmp (\<lambda>b.
     bnd (if b_count b = 0 then thn (wait_on_buffer E tmp) (rd_buf tmp (\<lambda>b. b_count b = 0)) else ret False) (\<lambda>found.
     if found then ret tmp
     else with_buf tmp (\<lambda>b.
       bnd (rd free_list) (\<lambda>fl.
       if b_next_free b \<noteq> fl then free_scan n E (b_next_free b) else ret 0))))"

fun getblk_loop :: "nat \<Rightarrow> 'a fs_scheme dev_env \<Rightarrow> int \<Rightarrow> int \<Rightarrow> ('a fs_scheme, nat) act" where
  "getblk_loop 0 E dev block = stop Diverge"
| "getblk_loop (Suc n) E dev block =
     bnd (get_hash_table E dev block) (\<lambda>tmp.
     if tmp \<noteq> 0 then ret tmp
     else bnd (rd free_list) (\<lambda>fl.
       bnd (free_scan (e_fuel E) E fl) (\<lambda>tmp.
       if tmp = 0
       then thn (acts [upd (printk ''Sleeping on free buffer ..'' []),
                       sleep_on (e_run E) buffer_wait_cell,
                       upd (printk (''ok'' @ [CHR 0x0A]) [])])
              (getblk_loop n E dev block)
       else thn (acts [upd_buf tmp (\<lambda>b. b\<lparr>b_count := b_count b + 1\<rparr>),
                       remove_from_queues tmp,
                       with_buf tmp (\<lambda>b. onlyif (b_dirt b) (sync_dev E (uint (b_dev b)))),
                       upd_buf tmp (\<lambda>b. b\<lparr>b_dev := of_int dev, b_blocknr := of_int block,
                                          b_dirt := False, b_uptodate := False\<rparr>)])
              (bnd (find_buffer dev block) (\<lambda>other.
               if other \<noteq> 0
               then thn (acts [upd_buf tmp (\<lambda>b. b\<lparr>b_dev := 0, b_blocknr := 0, b_count := 0\<rparr>),
                               insert_into_queues tmp])
                      (getblk_loop n E dev block)
               else thn (insert_into_queues tmp) (ret tmp))))))"

definition getblk :: "'a fs_scheme dev_env \<Rightarrow> int \<Rightarrow> int \<Rightarrow> ('a fs_scheme, nat) act" where
  "getblk E dev block = getblk_loop (e_fuel E) E dev block"

definition bread :: "'a fs_scheme dev_env \<Rightarrow> int \<Rightarrow> int \<Rightarrow> ('a fs_scheme, nat) act" where
  "bread E dev block =
     bnd (getblk E dev block) (\<lambda>bh.
     if bh = 0 then panic (''bread: getblk returned NULL'' @ [CHR 0x0A])
     else with_buf bh (\<lambda>b.
       if b_uptodate b then ret bh
       else thn (ll_rw_block E False bh)
         (with_buf bh (\<lambda>b. if b_uptodate b then ret bh else thn (brelse E bh) (ret 0)))))"

section \<open>Set-up\<close>

text \<open>
  How many heads fit between \<open>start_buffer\<close>, growing upwards, and the blocks, growing downwards
  from \<open>BUFFER_END\<close> with a gap for video memory and the BIOS. \<open>junk\<close> is what memory held before.
\<close>

function init_count :: "nat \<Rightarrow> nat \<Rightarrow> nat" where
  "init_count h b =
     (if b < 1024 \<or> b - 1024 < h + 56 then 0
      else Suc (init_count (h + 56) (if b - 1024 = 0x100000 then 0xA0000 else b - 1024)))"
  by pat_completeness auto
termination by (relation "measure snd") auto

declare init_count.simps [simp del]

definition buffer_init :: "(nat \<Rightarrow> buffer_head) \<Rightarrow> ('a fs_scheme, unit) act" where
  "buffer_init junk =
     bnd (rd (\<lambda>s. init_count (unat (start_buffer s)) (unat BUFFER_END))) (\<lambda>n.
     if n = 0 then stop Fault
     else upd (\<lambda>s. s\<lparr>
       buffers := map (\<lambda>k. (junk k)\<lparr>b_dev := 0, b_dirt := False, b_count := 0, b_lock := False,
                      b_uptodate := False, b_wait := 0, b_next := 0, b_prev := 0,
                      b_prev_free := (if k = 0 then n else k),
                      b_next_free := (if k = n - 1 then 1 else k + 2)\<rparr>) [0..<n],
       free_list := 1,
       hash_table := replicate NR_HASH 0\<rparr>))"

end
