(* ===== verification/Bitmap.thy ===== *)
theory Bitmap
  imports Buffer
begin

text \<open>
  The zone bitmaps: the bit operations, \<open>free_block\<close> and \<open>new_block\<close> of \<open>src/fs/bitmap.c\<close>. A bitmap
  block is read and written as 32-bit words, as the code does.
\<close>

section \<open>Bit operations\<close>

definition get32 :: "block \<Rightarrow> nat \<Rightarrow> u32" where
  "get32 d a = ucast (get16 d a) OR push_bit 16 (ucast (get16 d (a + 2)))"

definition put32 :: "u32 \<Rightarrow> nat \<Rightarrow> block \<Rightarrow> block" where
  "put32 v a d = put16 (ucast (drop_bit 16 v)) (a + 2) (put16 (ucast v) a d)"

definition clear_block :: block where "clear_block = (\<lambda>_. 0)"

definition set_bit :: "nat \<Rightarrow> block \<Rightarrow> bool \<times> block" where
  "set_bit nr d =
     (let a = 4 * (nr div 32); mask = push_bit (nr mod 32) 1; w = get32 d a in
      (w AND mask \<noteq> 0, put32 (w OR mask) a d))"

definition clear_bit :: "nat \<Rightarrow> block \<Rightarrow> bool \<times> block" where
  "clear_bit nr d =
     (let a = 4 * (nr div 32); mask = push_bit (nr mod 32) 1; w = get32 d a in
      (w AND mask = 0, put32 (w AND NOT mask) a d))"

definition find_first_zero :: "block \<Rightarrow> nat" where
  "find_first_zero d =
     (let i = first_index (\<lambda>i. get32 d (4 * i) \<noteq> 0xFFFFFFFF) [0..<256] in
      if i < 256
      then let val = NOT (get32 d (4 * i)) in
        i * 32 + first_index (\<lambda>j. val AND push_bit j 1 \<noteq> 0) [0..<32]
      else 8192)"

section \<open>Zones\<close>

definition free_block :: "'a fs_scheme dev_env \<Rightarrow> int \<Rightarrow> int \<Rightarrow> ('a fs_scheme, unit) act" where
  "free_block E dev block =
     bnd (rd (get_super dev)) (\<lambda>sb.
     if sb = 0 then panic ''trying to free block on nonexistent device''
     else bnd (rd_sb sb id) (\<lambda>p.
       if block < uint (s_firstdatazone p) \<or> block \<ge> uint (s_nzones p)
       then panic ''trying to free block not in datazone''
       else bnd (get_hash_table E dev block) (\<lambda>bh.
         bnd (if bh = 0 then ret False
              else with_buf bh (\<lambda>b.
                if b_count b \<noteq> 1
                then thn (upd (printk (''trying to free block (%04x:%d), count=%d'' @ [CHR 0x0A])
                       [AInt (of_int dev), AInt (of_int block), AInt (ucast (b_count b))])) (ret True)
                else thn (acts [upd_buf bh (\<lambda>b. b\<lparr>b_dirt := False\<rparr>),
                                upd_buf bh (\<lambda>b. b\<lparr>b_uptodate := False\<rparr>),
                                brelse E bh]) (ret False))) (\<lambda>busy.
         if busy then ret ()
         else bnd (rd_sb sb id) (\<lambda>p.
           let bit = nat (block - (uint (s_firstdatazone p) - 1)); zm = s_zmap p ! (bit div 8192) in
           with_buf zm (\<lambda>z.
           let (clear, d) = clear_bit (bit mod 8192) (b_data z) in
           thn (upd_buf zm (\<lambda>z. z\<lparr>b_data := d\<rparr>))
           (if clear
            then thn (upd (printk ''block (%04x:%d) '' [AInt (of_int dev), AInt (of_int block)]))
                   (panic ''free_block: bit already cleared'')
            else upd_buf zm (\<lambda>z. z\<lparr>b_dirt := True\<rparr>))))))))"

text \<open>
  The loop over the eight blocks of a bitmap, with the values of \<open>i\<close>, \<open>bh\<close> and \<open>j\<close> it leaves.
\<close>

fun find_map :: "nat \<Rightarrow> nat \<Rightarrow> nat \<Rightarrow> nat list \<Rightarrow> ('a fs_scheme, nat \<times> nat \<times> nat) act" where
  "find_map i bh j [] = ret (i, bh, j)"
| "find_map i bh j (p # ps) =
     (if p = 0 then find_map (Suc i) p j ps
      else with_buf p (\<lambda>b.
        let k = find_first_zero (b_data b) in
        if k < 8192 then ret (i, p, k) else find_map (Suc i) p k ps))"

definition new_block :: "'a fs_scheme dev_env \<Rightarrow> int \<Rightarrow> ('a fs_scheme, int) act" where
  "new_block E dev =
     bnd (rd (get_super dev)) (\<lambda>sb.
     if sb = 0 then panic ''trying to get new block from nonexistant device''
     else bnd (rd_sb sb id) (\<lambda>p.
       bnd (find_map 0 0 8192 (s_zmap p)) (\<lambda>(i, bh, j).
       if i \<ge> 8 \<or> bh = 0 \<or> j \<ge> 8192 then ret 0
       else with_buf bh (\<lambda>b.
         let (set, d) = set_bit j (b_data b) in
         thn (upd_buf bh (\<lambda>b. b\<lparr>b_data := d\<rparr>))
         (if set then panic ''new_block: bit already set''
          else thn (upd_buf bh (\<lambda>b. b\<lparr>b_dirt := True\<rparr>))
            (let z = int (j + i * 8192) + uint (s_firstdatazone p) - 1 in
             if z \<ge> uint (s_nzones p) then ret 0
             else bnd (getblk E dev z) (\<lambda>bh.
               if bh = 0 then panic ''new_block: cannot get block''
               else with_buf bh (\<lambda>b.
                 if b_count b \<noteq> 1 then panic ''new block: count is != 1''
                 else thn (acts [upd_buf bh (\<lambda>b. b\<lparr>b_data := clear_block\<rparr>),
                                 upd_buf bh (\<lambda>b. b\<lparr>b_uptodate := True\<rparr>),
                                 upd_buf bh (\<lambda>b. b\<lparr>b_dirt := True\<rparr>),
                                 brelse E bh]) (ret z)))))))))"

end
