(* ===== verification/Inode.thy ===== *)
theory Inode
  imports Bitmap
begin

text \<open>
  I-nodes: \<open>src/fs/inode.c\<close>, \<open>src/fs/truncate.c\<close>, the i-node half of \<open>src/fs/bitmap.c\<close> and
  \<open>sys_sync\<close> of \<open>src/fs/buffer.c\<close>. On this machine \<open>struct d_inode\<close> has 48 bytes: mode 0, uid 2,
  size 8, time 16, gid 24, links 25, zones 26 to 43, the rest padding.
\<close>

abbreviation INODES_PER_BLOCK :: nat where "INODES_PER_BLOCK \<equiv> 21"

definition with_ino :: "nat \<Rightarrow> (m_inode \<Rightarrow> ('a fs_scheme, 'b) act) \<Rightarrow> ('a fs_scheme, 'b) act" where
  "with_ino p f = bnd (rd_ino p id) f"

definition now :: "'a fs_scheme \<Rightarrow> u64" where "now s = of_int (CURRENT_TIME s)"

section \<open>Locks\<close>

definition wait_on_inode :: "'a fs_scheme dev_env \<Rightarrow> nat \<Rightarrow> ('a fs_scheme, unit) act" where
  "wait_on_inode E p =
     with_ino p (\<lambda>_. wait_while (e_fuel E) E (\<lambda>s. i_lock (ino s p)) (ino_wait p))"

definition lock_inode :: "'a fs_scheme dev_env \<Rightarrow> nat \<Rightarrow> ('a fs_scheme, unit) act" where
  "lock_inode E p = thn (wait_on_inode E p) (upd_ino p (\<lambda>i. i\<lparr>i_lock := True\<rparr>))"

definition unlock_inode :: "nat \<Rightarrow> ('a fs_scheme, unit) act" where
  "unlock_inode p = thn (upd_ino p (\<lambda>i. i\<lparr>i_lock := False\<rparr>)) (upd (wake_up (ino_wait p)))"

section \<open>Reading and writing\<close>

definition decode_inode :: "block \<Rightarrow> nat \<Rightarrow> d_inode" where
  "decode_inode d a =
     \<lparr>d_mode = get16 d a, d_uid = get16 d (a + 2), d_size = get64 d (a + 8), d_time = get64 d (a + 16),
      d_gid = d (a + 24), d_nlinks = d (a + 25), d_zone = map (\<lambda>k. get16 d (a + 26 + 2 * k)) [0..<9]\<rparr>"

definition encode_inode :: "d_inode \<Rightarrow> nat \<Rightarrow> block \<Rightarrow> block" where
  "encode_inode i a d =
     put_bytes (bytes_of 2 (ucast (d_mode i)) @ bytes_of 2 (ucast (d_uid i))) a
     (put_bytes (bytes_of 8 (d_size i) @ bytes_of 8 (d_time i) @ [d_gid i, d_nlinks i] @
        concat (map (\<lambda>z. bytes_of 2 (ucast z)) (d_zone i))) (a + 8) d)"

definition set_d_inode :: "d_inode \<Rightarrow> m_inode \<Rightarrow> m_inode" where
  "set_d_inode d i = i\<lparr>i_mode := d_mode d, i_uid := d_uid d, i_size := d_size d, i_mtime := d_time d,
     i_gid := d_gid d, i_nlinks := d_nlinks d, i_zone := d_zone d\<rparr>"

definition get_d_inode :: "m_inode \<Rightarrow> d_inode" where
  "get_d_inode i = \<lparr>d_mode = i_mode i, d_uid = i_uid i, d_size = i_size i, d_time = i_mtime i,
     d_gid = i_gid i, d_nlinks = i_nlinks i, d_zone = i_zone i\<rparr>"

definition inode_block :: "super_block \<Rightarrow> u16 \<Rightarrow> int" where
  "inode_block sb num =
     int32 (uint (2 + ucast (s_imap_blocks sb) + ucast (s_zmap_blocks sb) + (of_int (uint num - 1) :: u64) div 21))"

definition inode_offset :: "u16 \<Rightarrow> nat" where
  "inode_offset num = 48 * unat ((of_int (uint num - 1) :: u64) mod 21)"

definition read_inode :: "'a fs_scheme dev_env \<Rightarrow> nat \<Rightarrow> ('a fs_scheme, unit) act" where
  "read_inode E p =
     thn (lock_inode E p)
     (with_ino p (\<lambda>i.
      bnd (rd (get_super (uint (i_dev i)))) (\<lambda>sb.
      bnd (rd_sb sb (\<lambda>sb. inode_block sb (i_num i))) (\<lambda>block.
      bnd (bread E (uint (i_dev i)) block) (\<lambda>bh.
      if bh = 0 then panic ''unable to read i-node block''
      else with_buf bh (\<lambda>b.
        with_ino p (\<lambda>i.
        acts [upd_ino p (set_d_inode (decode_inode (b_data b) (inode_offset (i_num i)))),
              brelse E bh,
              unlock_inode p])))))))"

definition write_inode :: "'a fs_scheme dev_env \<Rightarrow> nat \<Rightarrow> ('a fs_scheme, unit) act" where
  "write_inode E p =
     thn (lock_inode E p)
     (with_ino p (\<lambda>i.
      bnd (rd (get_super (uint (i_dev i)))) (\<lambda>sb.
      bnd (rd_sb sb (\<lambda>sb. inode_block sb (i_num i))) (\<lambda>block.
      bnd (bread E (uint (i_dev i)) block) (\<lambda>bh.
      if bh = 0 then panic ''unable to read i-node block''
      else with_ino p (\<lambda>i.
        acts [upd_buf bh (\<lambda>b. b\<lparr>b_data := encode_inode (get_d_inode i) (inode_offset (i_num i)) (b_data b)\<rparr>),
              upd_buf bh (\<lambda>b. b\<lparr>b_dirt := True\<rparr>),
              upd_ino p (\<lambda>i. i\<lparr>i_dirt := False\<rparr>),
              brelse E bh,
              unlock_inode p]))))))"

definition sync_inodes :: "'a fs_scheme dev_env \<Rightarrow> ('a fs_scheme, unit) act" where
  "sync_inodes E =
     acts (map (\<lambda>p. thn (wait_on_inode E p)
       (with_ino p (\<lambda>i. onlyif (i_dirt i \<and> \<not> i_pipe i) (write_inode E p)))) [1..<Suc NR_INODE])"

definition sys_sync :: "'a fs_scheme dev_env \<Rightarrow> ('a fs_scheme, int) act" where
  "sys_sync E =
     thn (sync_inodes E)
     (bnd (rd (\<lambda>s. length (buffers s))) (\<lambda>n.
      thn (acts (map (sync_buffer E) [1..<Suc n])) (ret 0)))"

section \<open>Blocks of a file\<close>

text \<open>\<open>i_zone[k]\<close>, allocated first if it is missing and \<open>create\<close> is set.\<close>

definition inode_zone :: "'a fs_scheme dev_env \<Rightarrow> nat \<Rightarrow> nat \<Rightarrow> bool \<Rightarrow> ('a fs_scheme, u16) act" where
  "inode_zone E p k create =
     with_ino p (\<lambda>i.
     thn (onlyif (create \<and> i_zone i ! k = 0)
       (bnd (new_block E (uint (i_dev i))) (\<lambda>n.
        thn (upd_ino p (\<lambda>i. i\<lparr>i_zone := (i_zone i)[k := of_int n]\<rparr>))
        (onlyif ((of_int n :: u16) \<noteq> 0)
          (bnd (rd now) (\<lambda>t. upd_ino p (\<lambda>i. i\<lparr>i_ctime := t, i_dirt := True\<rparr>)))))))
     (rd_ino p (\<lambda>i. i_zone i ! k)))"

text \<open>Entry \<open>k\<close> of an indirect block, allocated likewise.\<close>

definition ind_entry :: "'a fs_scheme dev_env \<Rightarrow> nat \<Rightarrow> nat \<Rightarrow> nat \<Rightarrow> bool \<Rightarrow> ('a fs_scheme, int) act" where
  "ind_entry E p bh k create =
     with_buf bh (\<lambda>b.
     let i = uint (get16 (b_data b) (2 * k)) in
     bnd (if create \<and> i = 0
          then with_ino p (\<lambda>n. bnd (new_block E (uint (i_dev n))) (\<lambda>i.
            thn (onlyif (i \<noteq> 0) (upd_buf bh (\<lambda>b. b\<lparr>b_data := put16 (of_int i) (2 * k) (b_data b), b_dirt := True\<rparr>)))
            (ret i)))
          else ret i) (\<lambda>i.
     thn (brelse E bh) (ret i)))"

definition bmap_create :: "'a fs_scheme dev_env \<Rightarrow> nat \<Rightarrow> int \<Rightarrow> bool \<Rightarrow> ('a fs_scheme, int) act" where
  "bmap_create E p block create =
     (if block < 0 then panic ''_bmap: block<0''
      else if block \<ge> 7 + 512 + 512 * 512 then panic ''_bmap: block>big''
      else if block < 7 then bnd (inode_zone E p (nat block) create) (\<lambda>z. ret (uint z))
      else let block = block - 7 in
        if block < 512 then
          bnd (inode_zone E p 7 create) (\<lambda>z.
          if z = 0 then ret 0
          else bnd (rd_ino p i_dev) (\<lambda>dev.
            bnd (bread E (uint dev) (uint z)) (\<lambda>bh.
            if bh = 0 then ret 0 else ind_entry E p bh (nat block) create)))
        else let block = block - 512 in
          bnd (inode_zone E p 8 create) (\<lambda>z.
          if z = 0 then ret 0
          else bnd (rd_ino p i_dev) (\<lambda>dev.
            bnd (bread E (uint dev) (uint z)) (\<lambda>bh.
            if bh = 0 then ret 0
            else bnd (ind_entry E p bh (nat (block div 512)) create) (\<lambda>i.
              if i = 0 then ret 0
              else bnd (rd_ino p i_dev) (\<lambda>dev.
                bnd (bread E (uint dev) i) (\<lambda>bh.
                if bh = 0 then ret 0 else ind_entry E p bh (nat (block mod 512)) create)))))))"

definition bmap :: "'a fs_scheme dev_env \<Rightarrow> nat \<Rightarrow> int \<Rightarrow> ('a fs_scheme, int) act" where
  "bmap E p block = bmap_create E p block False"

definition create_block :: "'a fs_scheme dev_env \<Rightarrow> nat \<Rightarrow> int \<Rightarrow> ('a fs_scheme, int) act" where
  "create_block E p block = bmap_create E p block True"

section \<open>Truncation\<close>

definition free_ind :: "'a fs_scheme dev_env \<Rightarrow> int \<Rightarrow> int \<Rightarrow> ('a fs_scheme, unit) act" where
  "free_ind E dev block =
     (if block = 0 then ret ()
      else bnd (bread E dev block) (\<lambda>bh.
        thn (onlyif (bh \<noteq> 0)
          (thn (acts (map (\<lambda>k. with_buf bh (\<lambda>b. let z = get16 (b_data b) (2 * k) in
              onlyif (z \<noteq> 0) (free_block E dev (uint z)))) [0..<512]))
          (brelse E bh)))
        (free_block E dev block)))"

definition free_dind :: "'a fs_scheme dev_env \<Rightarrow> int \<Rightarrow> int \<Rightarrow> ('a fs_scheme, unit) act" where
  "free_dind E dev block =
     (if block = 0 then ret ()
      else bnd (bread E dev block) (\<lambda>bh.
        thn (onlyif (bh \<noteq> 0)
          (thn (acts (map (\<lambda>k. with_buf bh (\<lambda>b. let z = get16 (b_data b) (2 * k) in
              onlyif (z \<noteq> 0) (free_ind E dev (uint z)))) [0..<512]))
          (brelse E bh)))
        (free_block E dev block)))"

definition truncate_inode :: "'a fs_scheme dev_env \<Rightarrow> nat \<Rightarrow> ('a fs_scheme, unit) act" where
  "truncate_inode E p =
     with_ino p (\<lambda>i.
     if \<not> (S_ISREG (i_mode i) \<or> S_ISDIR (i_mode i)) then ret ()
     else acts
       [acts (map (\<lambda>k. with_ino p (\<lambda>i. onlyif (i_zone i ! k \<noteq> 0)
          (thn (free_block E (uint (i_dev i)) (uint (i_zone i ! k)))
               (upd_ino p (\<lambda>i. i\<lparr>i_zone := (i_zone i)[k := 0]\<rparr>))))) [0..<7]),
        with_ino p (\<lambda>i. free_ind E (uint (i_dev i)) (uint (i_zone i ! 7))),
        with_ino p (\<lambda>i. free_dind E (uint (i_dev i)) (uint (i_zone i ! 8))),
        upd_ino p (\<lambda>i. i\<lparr>i_zone := (i_zone i)[8 := 0, 7 := 0]\<rparr>),
        upd_ino p (\<lambda>i. i\<lparr>i_size := 0\<rparr>),
        upd_ino p (\<lambda>i. i\<lparr>i_dirt := True\<rparr>),
        bnd (rd now) (\<lambda>t. upd_ino p (\<lambda>i. i\<lparr>i_ctime := t, i_mtime := t\<rparr>))])"

section \<open>References to i-nodes\<close>

definition free_inode :: "nat \<Rightarrow> ('a fs_scheme, unit) act" where
  "free_inode p =
     (if p = 0 then ret ()
      else with_ino p (\<lambda>i.
        if i_dev i = 0 then upd_ino p (\<lambda>_. zero_inode)
        else if i_count i > 1
        then thn (upd (printk (''trying to free inode with count=%d'' @ [CHR 0x0A]) [AInt (ucast (i_count i))]))
               (panic ''free_inode'')
        else if i_nlinks i \<noteq> 0 then panic ''trying to free inode with links''
        else bnd (rd (get_super (uint (i_dev i)))) (\<lambda>sb.
          if sb = 0 then panic ''trying to free inode on nonexistent device''
          else bnd (rd_sb sb id) (\<lambda>sp.
            if i_num i < 1 \<or> i_num i > s_ninodes sp then panic ''trying to free inode 0 or nonexistant inode''
            else let bh = s_imap sp ! unat (drop_bit 13 (i_num i)) in
              if bh = 0 then panic ''nonexistent imap in superblock''
              else with_buf bh (\<lambda>b.
                let (clear, d) = clear_bit (unat (i_num i AND 8191)) (b_data b) in
                thn (upd_buf bh (\<lambda>b. b\<lparr>b_data := d\<rparr>))
                (if clear then panic ''free_inode: bit already cleared''
                 else acts [upd_buf bh (\<lambda>b. b\<lparr>b_dirt := True\<rparr>), upd_ino p (\<lambda>_. zero_inode)]))))))"

fun iput_loop :: "nat \<Rightarrow> 'a fs_scheme dev_env \<Rightarrow> nat \<Rightarrow> ('a fs_scheme, unit) act" where
  "iput_loop 0 E p = stop Diverge"
| "iput_loop (Suc n) E p =
     with_ino p (\<lambda>i.
     if i_nlinks i = 0 then acts [truncate_inode E p, free_inode p]
     else if i_dirt i then acts [write_inode E p, wait_on_inode E p, iput_loop n E p]
     else upd_ino p (\<lambda>i. i\<lparr>i_count := i_count i - 1\<rparr>))"

definition iput_pipe :: "nat \<Rightarrow> ('a fs_scheme, unit) act" where
  "iput_pipe p =
     thn (upd (wake_up (ino_wait p)))
     (thn (upd_ino p (\<lambda>i. i\<lparr>i_count := i_count i - 1\<rparr>))
      (with_ino p (\<lambda>i.
       if i_count i \<noteq> 0 then ret ()
       else thn (free_page (i_size i))
         (upd_ino p (\<lambda>i. i\<lparr>i_count := 0, i_dirt := False, i_pipe := False\<rparr>)))))"

definition iput :: "'a fs_scheme dev_env \<Rightarrow> nat \<Rightarrow> ('a fs_scheme, unit) act" where
  "iput E p =
     (if p = 0 then ret ()
      else thn (wait_on_inode E p)
        (with_ino p (\<lambda>i.
         if i_count i = 0 then panic ''iput: trying to free free inode''
         else if i_pipe i then iput_pipe p
         else if i_dev i = 0 \<or> i_count i > 1 then upd_ino p (\<lambda>i. i\<lparr>i_count := i_count i - 1\<rparr>)
         else iput_loop (e_fuel E) E p)))"

text \<open>The index of a free i-node, searched from \<open>last_allocated_inode\<close> on and around.\<close>

definition free_slot :: "'a fs_scheme \<Rightarrow> nat option" where
  "free_slot s =
     (let l = last_allocated_inode s in
      List.find (\<lambda>k. i_count (inode_table s ! k) = 0) ([l..<length (inode_table s)] @ [0..<l]))"

fun clean_inode :: "nat \<Rightarrow> 'a fs_scheme dev_env \<Rightarrow> nat \<Rightarrow> ('a fs_scheme, unit) act" where
  "clean_inode 0 E p = stop Diverge"
| "clean_inode (Suc n) E p =
     with_ino p (\<lambda>i.
     if i_dirt i then acts [write_inode E p, wait_on_inode E p, clean_inode n E p] else ret ())"

fun empty_loop :: "nat \<Rightarrow> 'a fs_scheme dev_env \<Rightarrow> ('a fs_scheme, nat) act" where
  "empty_loop 0 E = stop Diverge"
| "empty_loop (Suc n) E =
     bnd (rd free_slot) (\<lambda>k. case k of
         None \<Rightarrow> thn (upd (\<lambda>s. fold (\<lambda>i. printk (''%04x: %6d'' @ [CHR 0x09]) [AInt (ucast (i_dev i)), AInt (ucast (i_num i))])
                             (inode_table s) s))
                   (panic ''No free inodes in mem'')
       | Some k \<Rightarrow>
           thn (acts [upd (\<lambda>s. s\<lparr>last_allocated_inode := k\<rparr>),
                      wait_on_inode E (k + 1),
                      clean_inode (e_fuel E) E (k + 1)])
           (with_ino (k + 1) (\<lambda>i. if i_count i = 0 then ret (k + 1) else empty_loop n E)))"

definition get_empty_inode :: "'a fs_scheme dev_env \<Rightarrow> ('a fs_scheme, nat) act" where
  "get_empty_inode E =
     bnd (empty_loop (e_fuel E) E) (\<lambda>p.
     thn (upd_ino p (\<lambda>_. zero_inode\<lparr>i_count := 1\<rparr>)) (ret p))"

definition set_zones :: "nat \<Rightarrow> u64 \<Rightarrow> u16 list \<Rightarrow> u16 list" where
  "set_zones k v zs = take k zs @ map (\<lambda>j. ucast (drop_bit (16 * j) v)) [0..<4] @ drop (k + 4) zs"

definition get_zones :: "nat \<Rightarrow> u16 list \<Rightarrow> u64" where
  "get_zones k zs = foldr (\<lambda>z w. ucast z OR push_bit 16 w) (take 4 (drop k zs)) 0"

text \<open>A pipe keeps its two positions in the zone array, as two \<open>long\<close>s.\<close>

definition PIPE_HEAD :: "m_inode \<Rightarrow> u64" where "PIPE_HEAD i = get_zones 0 (i_zone i)"
definition PIPE_TAIL :: "m_inode \<Rightarrow> u64" where "PIPE_TAIL i = get_zones 4 (i_zone i)"

definition get_pipe_inode :: "'a fs_scheme dev_env \<Rightarrow> ('a fs_scheme, nat) act" where
  "get_pipe_inode E =
     bnd (get_empty_inode E) (\<lambda>p.
     if p = 0 then ret 0
     else bnd (\<lambda>s. Inr (get_free_page s)) (\<lambda>page.
       thn (upd_ino p (\<lambda>i. i\<lparr>i_size := page\<rparr>))
       (if page = 0 then thn (upd_ino p (\<lambda>i. i\<lparr>i_count := 0\<rparr>)) (ret 0)
        else thn (upd_ino p (\<lambda>i. i\<lparr>i_count := 2, i_zone := set_zones 0 0 (set_zones 4 0 (i_zone i)), i_pipe := True\<rparr>))
               (ret p))))"

fun iget_scan :: "nat \<Rightarrow> 'a fs_scheme dev_env \<Rightarrow> int \<Rightarrow> int \<Rightarrow> ('a fs_scheme, nat) act" where
  "iget_scan 0 E dev nr = stop Diverge"
| "iget_scan (Suc n) E dev nr =
     bnd (rd (\<lambda>s. (first_index (\<lambda>i. uint (i_dev i) = dev \<and> uint (i_num i) = nr) (inode_table s),
                   length (inode_table s)))) (\<lambda>(k, len).
     if k = len then ret 0
     else thn (wait_on_inode E (k + 1))
       (with_ino (k + 1) (\<lambda>i.
        if uint (i_dev i) \<noteq> dev \<or> uint (i_num i) \<noteq> nr then iget_scan n E dev nr else ret (k + 1))))"

definition iget :: "'a fs_scheme dev_env \<Rightarrow> int \<Rightarrow> int \<Rightarrow> ('a fs_scheme, nat) act" where
  "iget E dev nr =
     (if dev = 0 then panic ''iget with dev==0''
      else bnd (get_empty_inode E) (\<lambda>empty.
        bnd (iget_scan (e_fuel E) E dev nr) (\<lambda>p.
        if p \<noteq> 0
        then thn (acts [upd_ino p (\<lambda>i. i\<lparr>i_count := i_count i + 1\<rparr>), onlyif (empty \<noteq> 0) (iput E empty)]) (ret p)
        else if empty = 0 then ret 0
        else thn (acts [upd_ino empty (\<lambda>i. i\<lparr>i_dev := of_int dev, i_num := of_int nr\<rparr>), read_inode E empty])
               (ret empty))))"

definition new_inode :: "'a fs_scheme dev_env \<Rightarrow> int \<Rightarrow> ('a fs_scheme, nat) act" where
  "new_inode E dev =
     bnd (get_empty_inode E) (\<lambda>p.
     if p = 0 then ret 0
     else bnd (rd (get_super dev)) (\<lambda>sb.
       if sb = 0 then panic ''new_inode with unknown device''
       else bnd (rd_sb sb id) (\<lambda>sp.
         bnd (find_map 0 0 8192 (s_imap sp)) (\<lambda>(i, bh, j).
         if bh = 0 \<or> j \<ge> 8192 \<or> j + i * 8192 > unat (s_ninodes sp)
         then thn (iput E p) (ret 0)
         else with_buf bh (\<lambda>b.
           let (set, d) = set_bit j (b_data b) in
           thn (upd_buf bh (\<lambda>b. b\<lparr>b_data := d\<rparr>))
           (if set then panic ''new_inode: bit already set''
            else thn (acts [upd_buf bh (\<lambda>b. b\<lparr>b_dirt := True\<rparr>),
                            bnd (rd now) (\<lambda>t. upd_ino p (\<lambda>n. n\<lparr>i_count := 1, i_nlinks := 1, i_dev := of_int dev,
                              i_dirt := True, i_num := of_nat (j + i * 8192),
                              i_ctime := t, i_atime := t, i_mtime := t\<rparr>))])
                   (ret p)))))))"

end
