(* ===== verification/Super.thy ===== *)
theory Super
  imports Inode Layout
begin

text \<open>
  Mounting: \<open>src/fs/super.c\<close>, and \<open>sys_setup\<close> of \<open>src/kernel/hd.c\<close>. A super block on disk is read
  with the layout of the structure in memory.
\<close>

abbreviation SUPER_MAGIC :: u16 where "SUPER_MAGIC \<equiv> 0x137F"
abbreviation ROOT_DEV :: int where "ROOT_DEV \<equiv> 0x306"

text \<open>An address found in a block, as a pointer to a buffer head.\<close>

definition bh_of_addr :: "'a fs_scheme \<Rightarrow> u64 \<Rightarrow> nat" where
  "bh_of_addr s a =
     (let k = unat (a - start_buffer s) in
      if a = 0 then 0
      else if k mod 56 = 0 \<and> k div 56 < length (buffers s) then k div 56 + 1
      else length (buffers s) + 1)"

definition decode_super :: "'a fs_scheme \<Rightarrow> block \<Rightarrow> super_block" where
  "decode_super s d =
     \<lparr>s_ninodes = get16 d 0, s_nzones = get16 d 2, s_imap_blocks = get16 d 4, s_zmap_blocks = get16 d 6,
      s_firstdatazone = get16 d 8, s_log_zone_size = get16 d 10, s_max_size = get64 d 16, s_magic = get16 d 24,
      s_imap = map (\<lambda>k. bh_of_addr s (get64 d (32 + 8 * k))) [0..<8],
      s_zmap = map (\<lambda>k. bh_of_addr s (get64 d (96 + 8 * k))) [0..<8],
      s_dev = get16 d 160, s_isup = unat (get64 d 168), s_imount = unat (get64 d 176), s_time = get64 d 184,
      s_rd_only = d 192, s_dirt = d 193\<rparr>"

text \<open>
  Reading the blocks of one bitmap, \<open>upds\<close> storing into \<open>s_imap\<close> or \<open>s_zmap\<close>: the block number
  after the last block read.
\<close>

fun load_map :: "'a fs_scheme dev_env \<Rightarrow> int \<Rightarrow> ((nat list \<Rightarrow> nat list) \<Rightarrow> super_block \<Rightarrow> super_block) \<Rightarrow>
    nat \<Rightarrow> nat \<Rightarrow> nat \<Rightarrow> int \<Rightarrow> ('a fs_scheme, int) act" where
  "load_map E dev upds p i 0 block = ret block"
| "load_map E dev upds p i (Suc n) block =
     bnd (bread E dev block) (\<lambda>bh.
     if i \<ge> 8 then stop Fault
     else thn (upd_sb p (upds (\<lambda>m. m[i := bh])))
       (if bh \<noteq> 0 then load_map E dev upds p (Suc i) n (block + 1) else ret block))"

definition do_mount :: "'a fs_scheme dev_env \<Rightarrow> int \<Rightarrow> ('a fs_scheme, nat) act" where
  "do_mount E dev =
     bnd (rd (\<lambda>s. first_index (\<lambda>p. s_dev p = 0) (super_blocks s) + 1)) (\<lambda>p.
     thn (upd_sb p (\<lambda>b. b\<lparr>s_dev := -1\<rparr>))
     (bnd (bread E dev 1) (\<lambda>bh.
      if bh = 0 then ret 0
      else with_buf bh (\<lambda>b.
        thn (\<lambda>s. upd_sb p (\<lambda>_. decode_super s (b_data b)) s)
        (thn (brelse E bh)
         (bnd (rd_sb p id) (\<lambda>sb.
          if s_magic sb \<noteq> SUPER_MAGIC then thn (upd_sb p (\<lambda>b. b\<lparr>s_dev := 0\<rparr>)) (ret 0)
          else thn (upd_sb p (\<lambda>b. b\<lparr>s_imap := replicate 8 0, s_zmap := replicate 8 0\<rparr>))
            (bnd (load_map E dev s_imap_update p 0 (unat (s_imap_blocks sb)) 2) (\<lambda>block.
             bnd (load_map E dev s_zmap_update p 0 (unat (s_zmap_blocks sb)) block) (\<lambda>block.
             bnd (rd_sb p id) (\<lambda>sb.
             if block \<noteq> 2 + uint (s_imap_blocks sb) + uint (s_zmap_blocks sb)
             then thn (acts (map (brelse E) (s_imap sb) @ map (brelse E) (s_zmap sb)))
                    (thn (upd_sb p (\<lambda>b. b\<lparr>s_dev := 0\<rparr>)) (ret 0))
             else thn (acts
               [upd_buf (s_imap sb ! 0) (\<lambda>b. b\<lparr>b_data := (b_data b)(0 := b_data b 0 OR 1)\<rparr>),
                upd_buf (s_zmap sb ! 0) (\<lambda>b. b\<lparr>b_data := (b_data b)(0 := b_data b 0 OR 1)\<rparr>),
                upd_sb p (\<lambda>b. b\<lparr>s_dev := of_int dev, s_isup := 0, s_imount := 0, s_time := 0,
                               s_rd_only := 0, s_dirt := 0\<rparr>)])
               (ret p))))))))))))"

text \<open>How many of the bits \<open>n\<close> - 1 to 0 of a bitmap are clear.\<close>

fun count_free :: "nat list \<Rightarrow> nat \<Rightarrow> int \<Rightarrow> ('a fs_scheme, int) act" where
  "count_free m 0 free = ret free"
| "count_free m (Suc i) free =
     with_buf (m ! (i div 8192)) (\<lambda>b.
     count_free m i (if get32 (b_data b) (4 * (i mod 8192 div 32)) AND push_bit (i mod 32) 1 = 0
                     then free + 1 else free))"

definition mount_root :: "'a fs_scheme dev_env \<Rightarrow> ('a fs_scheme, unit) act" where
  "mount_root E =
     (if 32 \<noteq> sizeof d_inode_fields then panic ''bad i-node size''
      else thn (upd (\<lambda>s. s\<lparr>file_table := map (\<lambda>f. f\<lparr>f_count := 0\<rparr>) (file_table s),
                           super_blocks := map (\<lambda>p. p\<lparr>s_dev := 0\<rparr>) (super_blocks s)\<rparr>))
        (bnd (do_mount E ROOT_DEV) (\<lambda>p.
         if p = 0 then panic ''Unable to mount root''
         else bnd (iget E ROOT_DEV 1) (\<lambda>mi.
           if mi = 0 then panic ''Unable to read root i-node''
           else thn (acts [upd_ino mi (\<lambda>i. i\<lparr>i_count := i_count i + 3\<rparr>),
                           upd_sb p (\<lambda>b. b\<lparr>s_imount := mi, s_isup := mi\<rparr>),
                           upd (upd_cur (\<lambda>t. t\<lparr>t_pwd := mi, t_root := mi\<rparr>))])
             (bnd (rd_sb p id) (\<lambda>sb.
              bnd (count_free (s_zmap sb) (unat (s_nzones sb)) 0) (\<lambda>free.
              thn (upd (printk (''%d/%d free blocks'' @ [CHR 0x0A, CHR 0x0D]) [AInt (of_int free), AInt (ucast (s_nzones sb))]))
              (bnd (count_free (s_imap sb) (unat (s_ninodes sb) + 1) 0) (\<lambda>free.
               upd (printk (''%d/%d free inodes'' @ [CHR 0x0A, CHR 0x0D]) [AInt (of_int free), AInt (ucast (s_ninodes sb))]))))))))))"

section \<open>Partition tables\<close>

definition partition_entry :: "block \<Rightarrow> nat \<Rightarrow> int \<times> int" where
  "partition_entry d i =
     (let a = 0x1BE + 16 * (i - 1) in (uint (get32 d (a + 8)), uint (get32 d (a + 12))))"

definition setup_drive :: "'a fs_scheme dev_env \<Rightarrow> nat \<Rightarrow> ('a fs_scheme, unit) act" where
  "setup_drive E drive =
     thn (rw_abs_hd E False (int drive) 1 0 0 1)
     (with_buf 1 (\<lambda>b.
      if \<not> b_uptodate b
      then thn (upd (printk (''Unable to read partition table of drive %d'' @ [CHR 0x0A, CHR 0x0D]) [AInt (of_nat drive)]))
             (panic '''')
      else if b_data b 510 \<noteq> 0x55 \<or> b_data b 511 \<noteq> 0xAA
      then thn (upd (printk (''Bad partition table on drive %d'' @ [CHR 0x0A, CHR 0x0D]) [AInt (of_nat drive)]))
             (panic '''')
      else upd (\<lambda>s. fold (\<lambda>i s. s\<lparr>hd_parts := (hd_parts s)[i + 5 * drive := partition_entry (b_data b) i]\<rparr>) [1..<5] s)))"

definition sys_setup :: "'a fs_scheme dev_env \<Rightarrow> ('a fs_scheme, int) act" where
  "sys_setup E =
     bnd (rd setup_callable) (\<lambda>c.
     if \<not> c then ret (-1)
     else thn (acts [upd (\<lambda>s. s\<lparr>setup_callable := False\<rparr>),
                     acts (map (setup_drive E) [0..<NR_HD]),
                     upd (printk (''Partition table%s ok.'' @ [CHR 0x0A, CHR 0x0D]) [AStr ''s'']),
                     mount_root E])
            (ret 0))"

end
