(* ===== verification/Namei.thy ===== *)
theory Namei
  imports Super
begin

text \<open>
  Path names and directories: \<open>src/fs/namei.c\<close>. A \<open>struct dir_entry *\<close> is the offset of the entry in
  the block of its buffer; a path name is its address in user memory. The loops over a path name
  and the insertion into a directory take fuel.
\<close>

definition quit :: "('s, unit) act list \<Rightarrow> 'b \<Rightarrow> ('s, 'b) act" where
  "quit fs r = thn (acts fs) (ret r)"

abbreviation O_ACCMODE :: u32 where "O_ACCMODE \<equiv> 3"
abbreviation O_WRONLY :: u32 where "O_WRONLY \<equiv> 1"
abbreviation O_CREAT :: u32 where "O_CREAT \<equiv> 0x40"
abbreviation O_EXCL :: u32 where "O_EXCL \<equiv> 0x80"
abbreviation O_TRUNC :: u32 where "O_TRUNC \<equiv> 0x200"
abbreviation O_APPEND :: u32 where "O_APPEND \<equiv> 0x400"
abbreviation O_NONBLOCK :: u32 where "O_NONBLOCK \<equiv> 0x800"
abbreviation I_REGULAR :: u16 where "I_REGULAR \<equiv> 0x8000"
abbreviation I_DIRECTORY :: u16 where "I_DIRECTORY \<equiv> 0x4000"
abbreviation MAY_EXEC :: int where "MAY_EXEC \<equiv> 1"
abbreviation MAY_WRITE :: int where "MAY_WRITE \<equiv> 2"
abbreviation SLASH :: u8 where "SLASH \<equiv> 47"

definition ACC_MODE :: "u32 \<Rightarrow> int" where
  "ACC_MODE x = [4, 2, 6, -1] ! unat (x AND O_ACCMODE)"

definition permission :: "nat \<Rightarrow> int \<Rightarrow> ('a fs_scheme, int) act" where
  "permission p msk =
     with_ino p (\<lambda>i. rd (\<lambda>s.
     if i_dev i \<noteq> 0 \<and> i_nlinks i = 0 then 0
     else let t = cur s;
              mode = (if \<not> (t_uid t \<noteq> 0 \<and> t_euid t \<noteq> 0) then 0x1FF
                      else if t_uid t = i_uid i \<or> t_euid t = i_uid i then drop_bit 6 (i_mode i)
                      else if uint (t_gid t) = uint (i_gid i) \<or> uint (t_egid t) = uint (i_gid i) then drop_bit 3 (i_mode i)
                      else i_mode i) in
       uint (ucast mode AND of_int msk AND 7 :: u32)))"

section \<open>Directory entries\<close>

definition de_inode :: "block \<Rightarrow> nat \<Rightarrow> u16" where "de_inode d a = get16 d a"

text \<open>A byte of user memory is compared unsigned with a signed \<open>char\<close> of the entry.\<close>

definition match :: "nat \<Rightarrow> u64 \<Rightarrow> block \<Rightarrow> nat \<Rightarrow> 'a fs_scheme \<Rightarrow> bool" where
  "match len name d a s \<longleftrightarrow>
     \<not> (de_inode d a = 0 \<or> len > NAME_LEN) \<and> \<not> (len < NAME_LEN \<and> d (a + 2 + len) \<noteq> 0) \<and>
     list_all (\<lambda>i. uint (get_fs_byte (name + of_nat i) s) = sint (d (a + 2 + i))) [0..<len]"

text \<open>
  \<open>find_loop\<close> has \<open>n\<close> entries to look at still. When the next block is missing, \<open>bh\<close> is \<open>NULL\<close> and
  the scan goes on 64 entries later.
\<close>

fun find_loop :: "nat \<Rightarrow> 'a fs_scheme dev_env \<Rightarrow> nat \<Rightarrow> u64 \<Rightarrow> nat \<Rightarrow> nat \<Rightarrow> nat \<Rightarrow> nat \<Rightarrow> ('a fs_scheme, nat \<times> nat) act" where
  "find_loop 0 E dir name len entries bh de = quit [brelse E bh] (0, 0)"
| "find_loop (Suc n) E dir name len entries bh de =
     with_buf bh (\<lambda>_.
     bnd (if de \<ge> BLOCK_SIZE
          then thn (brelse E bh)
            (bnd (bmap E dir (int ((entries - Suc n) div 64))) (\<lambda>block.
             if block = 0 then ret (0, de)
             else bnd (rd_ino dir i_dev) (\<lambda>dev.
               bnd (bread E (uint dev) block) (\<lambda>bh. ret (bh, if bh = 0 then de else 0)))))
          else ret (bh, de)) (\<lambda>(bh, de).
     if bh = 0 then find_loop (Suc n - 64) E dir name len entries 0 de
     else with_buf bh (\<lambda>b.
       bnd (rd (match len name (b_data b) de)) (\<lambda>found.
       if found then ret (bh, de) else find_loop n E dir name len entries bh (de + 16)))))"

definition find_entry :: "'a fs_scheme dev_env \<Rightarrow> nat \<Rightarrow> u64 \<Rightarrow> nat \<Rightarrow> ('a fs_scheme, nat \<times> nat) act" where
  "find_entry E dir name namelen =
     (let len = min namelen NAME_LEN in
      with_ino dir (\<lambda>d.
      let entries = nat (int32 (uint (i_size d div 16))) in
      if len = 0 then ret (0, 0)
      else if i_zone d ! 0 = 0 then ret (0, 0)
      else bnd (bread E (uint (i_dev d)) (uint (i_zone d ! 0))) (\<lambda>bh.
        if bh = 0 then ret (0, 0) else find_loop entries E dir name len entries bh 0)))"

definition name_bytes :: "u64 \<Rightarrow> nat \<Rightarrow> 'a fs_scheme \<Rightarrow> u8 list" where
  "name_bytes name len s = map (\<lambda>i. if i < len then get_fs_byte (name + of_nat i) s else 0) [0..<NAME_LEN]"

fun add_loop :: "nat \<Rightarrow> 'a fs_scheme dev_env \<Rightarrow> nat \<Rightarrow> u64 \<Rightarrow> nat \<Rightarrow> nat \<Rightarrow> nat \<Rightarrow> nat \<Rightarrow> ('a fs_scheme, nat \<times> nat) act" where
  "add_loop 0 E dir name len i bh de = stop Diverge"
| "add_loop (Suc n) E dir name len i bh de =
     with_buf bh (\<lambda>_.
     bnd (if de \<ge> BLOCK_SIZE
          then thn (brelse E bh)
            (bnd (create_block E dir (int (i div 64))) (\<lambda>block.
             if block = 0 then ret None
             else bnd (rd_ino dir i_dev) (\<lambda>dev.
               bnd (bread E (uint dev) block) (\<lambda>bh. ret (Some (bh, if bh = 0 then de else 0))))))
          else ret (Some (bh, de))) (\<lambda>r. case r of
         None \<Rightarrow> ret (0, 0)
       | Some (bh, de) \<Rightarrow>
           if bh = 0 then add_loop n E dir name len (i + 64) 0 de
           else thn (with_ino dir (\<lambda>d. onlyif (i_size d \<le> of_nat (i * 16))
                  (acts [upd_buf bh (\<lambda>b. b\<lparr>b_data := put16 0 de (b_data b)\<rparr>),
                         bnd (rd now) (\<lambda>t. upd_ino dir (\<lambda>d. d\<lparr>i_size := of_nat ((i + 1) * 16), i_dirt := True, i_ctime := t\<rparr>))])))
             (with_buf bh (\<lambda>b.
              if de_inode (b_data b) de = 0
              then thn (bnd (rd now) (\<lambda>t. upd_ino dir (\<lambda>d. d\<lparr>i_mtime := t\<rparr>)))
                (bnd (rd (name_bytes name len)) (\<lambda>bs.
                 quit [upd_buf bh (\<lambda>b. b\<lparr>b_data := put_bytes bs (de + 2) (b_data b)\<rparr>),
                       upd_buf bh (\<lambda>b. b\<lparr>b_dirt := True\<rparr>)] (bh, de)))
              else add_loop n E dir name len (i + 1) bh (de + 16)))))"

definition add_entry :: "'a fs_scheme dev_env \<Rightarrow> nat \<Rightarrow> u64 \<Rightarrow> nat \<Rightarrow> ('a fs_scheme, nat \<times> nat) act" where
  "add_entry E dir name namelen =
     (let len = min namelen NAME_LEN in
      with_ino dir (\<lambda>d.
      if len = 0 then ret (0, 0)
      else if i_zone d ! 0 = 0 then ret (0, 0)
      else bnd (bread E (uint (i_dev d)) (uint (i_zone d ! 0))) (\<lambda>bh.
        if bh = 0 then ret (0, 0) else add_loop (e_fuel E + unat (i_size d div 16)) E dir name len 0 bh 0)))"

section \<open>Path names\<close>

text \<open>The length of the component at \<open>a\<close> and the character that ends it.\<close>

fun scan_name :: "nat \<Rightarrow> u64 \<Rightarrow> nat \<Rightarrow> ('a fs_scheme, nat \<times> u8) act" where
  "scan_name 0 a len = stop Diverge"
| "scan_name (Suc n) a len =
     bnd (rd (get_fs_byte a)) (\<lambda>c. if c = 0 \<or> c = SLASH then ret (len, c) else scan_name n (a + 1) (len + 1))"

fun walk :: "nat \<Rightarrow> 'a fs_scheme dev_env \<Rightarrow> nat \<Rightarrow> u64 \<Rightarrow> ('a fs_scheme, nat) act" where
  "walk 0 E p pathname = stop Diverge"
| "walk (Suc n) E p pathname =
     with_ino p (\<lambda>i.
     bnd (if S_ISDIR (i_mode i) then permission p MAY_EXEC else ret 0) (\<lambda>ok.
     if ok = 0 then quit [iput E p] 0
     else bnd (scan_name (e_fuel E) pathname 0) (\<lambda>(namelen, c).
       if c = 0 then ret p
       else bnd (find_entry E p pathname namelen) (\<lambda>(bh, de).
         if bh = 0 then quit [iput E p] 0
         else with_buf bh (\<lambda>b.
           with_ino p (\<lambda>i.
           thn (acts [brelse E bh, iput E p])
           (bnd (iget E (uint (i_dev i)) (uint (de_inode (b_data b) de))) (\<lambda>p.
            if p = 0 then ret 0 else walk n E p (pathname + of_nat namelen + 1))))))))) "

definition get_dir :: "'a fs_scheme dev_env \<Rightarrow> u64 \<Rightarrow> ('a fs_scheme, nat) act" where
  "get_dir E pathname =
     bnd (rd (\<lambda>s. (t_root (cur s), t_pwd (cur s), get_fs_byte pathname s))) (\<lambda>(root, pwd, c).
     bnd (if root = 0 then ret True else rd_ino root (\<lambda>i. i_count i = 0)) (\<lambda>none.
     if none then panic ''No root inode''
     else bnd (if pwd = 0 then ret True else rd_ino pwd (\<lambda>i. i_count i = 0)) (\<lambda>none.
       if none then panic ''No cwd inode''
       else if c = 0 then ret 0
       else let p = (if c = SLASH then root else pwd) in
         thn (upd_ino p (\<lambda>i. i\<lparr>i_count := i_count i + 1\<rparr>))
         (walk (e_fuel E) E p (if c = SLASH then pathname + 1 else pathname)))))"

fun scan_base :: "nat \<Rightarrow> u64 \<Rightarrow> u64 \<Rightarrow> ('a fs_scheme, nat \<times> u64) act" where
  "scan_base 0 a base = stop Diverge"
| "scan_base (Suc n) a base =
     bnd (rd (get_fs_byte a)) (\<lambda>c.
     if c = 0 then ret (unat (a - base), base)
     else scan_base n (a + 1) (if c = SLASH then a + 1 else base))"

definition dir_namei :: "'a fs_scheme dev_env \<Rightarrow> u64 \<Rightarrow> ('a fs_scheme, nat \<times> nat \<times> u64) act" where
  "dir_namei E pathname =
     bnd (get_dir E pathname) (\<lambda>dir.
     if dir = 0 then ret (0, 0, 0)
     else bnd (scan_base (e_fuel E) pathname pathname) (\<lambda>(namelen, base). ret (dir, namelen, base)))"

definition namei :: "'a fs_scheme dev_env \<Rightarrow> u64 \<Rightarrow> ('a fs_scheme, nat) act" where
  "namei E pathname =
     bnd (dir_namei E pathname) (\<lambda>(dir, namelen, basename).
     if dir = 0 then ret 0
     else if namelen = 0 then ret dir
     else bnd (find_entry E dir basename namelen) (\<lambda>(bh, de).
       if bh = 0 then quit [iput E dir] 0
       else with_buf bh (\<lambda>b.
         with_ino dir (\<lambda>d.
         thn (acts [brelse E bh, iput E dir])
         (bnd (iget E (uint (i_dev d)) (uint (de_inode (b_data b) de))) (\<lambda>p.
          thn (onlyif (p \<noteq> 0) (bnd (rd now) (\<lambda>t. upd_ino p (\<lambda>i. i\<lparr>i_atime := t, i_dirt := True\<rparr>))))
          (ret p)))))))"

text \<open>\<open>de->inode = num\<close> and \<open>bh->b_dirt = 1\<close>.\<close>

definition set_de :: "nat \<Rightarrow> nat \<Rightarrow> u16 \<Rightarrow> ('a fs_scheme, unit) act" where
  "set_de bh de num =
     acts [upd_buf bh (\<lambda>b. b\<lparr>b_data := put16 num de (b_data b)\<rparr>), upd_buf bh (\<lambda>b. b\<lparr>b_dirt := True\<rparr>)]"

definition open_create :: "'a fs_scheme dev_env \<Rightarrow> nat \<Rightarrow> u64 \<Rightarrow> nat \<Rightarrow> u16 \<Rightarrow> ('a fs_scheme, int \<times> nat) act" where
  "open_create E dir basename namelen mode =
     bnd (permission dir MAY_WRITE) (\<lambda>ok.
     if ok = 0 then quit [iput E dir] (- EACCES, 0)
     else bnd (rd_ino dir i_dev) (\<lambda>dev.
       bnd (new_inode E (uint dev)) (\<lambda>p.
       if p = 0 then quit [iput E dir] (- ENOSPC, 0)
       else thn (upd_ino p (\<lambda>i. i\<lparr>i_mode := mode, i_dirt := True\<rparr>))
         (bnd (add_entry E dir basename namelen) (\<lambda>(bh, de).
          if bh = 0
          then quit [upd_ino p (\<lambda>i. i\<lparr>i_nlinks := i_nlinks i - 1\<rparr>), iput E p, iput E dir] (- ENOSPC, 0)
          else with_ino p (\<lambda>i. quit [set_de bh de (i_num i), brelse E bh, iput E dir] (0, p)))))))"

definition open_namei :: "'a fs_scheme dev_env \<Rightarrow> u64 \<Rightarrow> u32 \<Rightarrow> u16 \<Rightarrow> ('a fs_scheme, int \<times> nat) act" where
  "open_namei E pathname flag mode =
     (let flag = (if has_bits flag O_TRUNC \<and> \<not> has_bits flag O_ACCMODE then flag OR O_WRONLY else flag) in
      bnd (rd (\<lambda>s. mode AND (0x1FF AND NOT (t_umask (cur s))) OR I_REGULAR)) (\<lambda>mode.
      bnd (dir_namei E pathname) (\<lambda>(dir, namelen, basename).
      if dir = 0 then ret (- ENOENT, 0)
      else if namelen = 0
      then if \<not> has_bits flag (O_ACCMODE OR O_CREAT OR O_TRUNC) then ret (0, dir)
           else quit [iput E dir] (- EISDIR, 0)
      else bnd (find_entry E dir basename namelen) (\<lambda>(bh, de).
        if bh = 0
        then if \<not> has_bits flag O_CREAT then quit [iput E dir] (- ENOENT, 0)
             else open_create E dir basename namelen mode
        else with_buf bh (\<lambda>b.
          with_ino dir (\<lambda>d.
          thn (acts [brelse E bh, iput E dir])
          (if has_bits flag O_EXCL then ret (- EEXIST, 0)
           else bnd (iget E (uint (i_dev d)) (uint (de_inode (b_data b) de))) (\<lambda>p.
             if p = 0 then ret (- EACCES, 0)
             else bnd (permission p (ACC_MODE flag)) (\<lambda>perm.
               with_ino p (\<lambda>i.
               if (S_ISDIR (i_mode i) \<and> has_bits flag O_ACCMODE) \<or> perm \<noteq> ACC_MODE flag
               then quit [iput E p] (- EPERM, 0)
               else quit [bnd (rd now) (\<lambda>t. upd_ino p (\<lambda>i. i\<lparr>i_atime := t\<rparr>)),
                          onlyif (has_bits flag O_TRUNC) (truncate_inode E p)] (0, p)))))))))))"

section \<open>Directories\<close>

text \<open>The first two entries of a new directory; \<open>strcpy\<close> leaves the rest of the name as it is.\<close>

definition dot_entries :: "u16 \<Rightarrow> u16 \<Rightarrow> block \<Rightarrow> block" where
  "dot_entries self parent d =
     put_bytes [46, 46, 0] 18 (put16 parent 16 (put_bytes [46, 0] 2 (put16 self 0 d)))"

definition privileged :: "'a fs_scheme \<Rightarrow> bool" where
  "privileged s \<longleftrightarrow> \<not> (t_euid (cur s) \<noteq> 0 \<and> t_uid (cur s) \<noteq> 0)"

definition mkdir_inode :: "'a fs_scheme dev_env \<Rightarrow> nat \<Rightarrow> nat \<Rightarrow> u64 \<Rightarrow> nat \<Rightarrow> u16 \<Rightarrow> ('a fs_scheme, int) act" where
  "mkdir_inode E dir p basename namelen mode =
     thn (bnd (rd now) (\<lambda>t. upd_ino p (\<lambda>i. i\<lparr>i_size := 32, i_dirt := True, i_atime := t, i_mtime := t\<rparr>)))
     (with_ino p (\<lambda>i.
      bnd (new_block E (uint (i_dev i))) (\<lambda>z.
      thn (upd_ino p (\<lambda>i. i\<lparr>i_zone := (i_zone i)[0 := of_int z]\<rparr>))
      (if (of_int z :: u16) = 0
       then quit [iput E dir, upd_ino p (\<lambda>i. i\<lparr>i_nlinks := i_nlinks i - 1\<rparr>), iput E p] (- ENOSPC)
       else thn (upd_ino p (\<lambda>i. i\<lparr>i_dirt := True\<rparr>))
         (with_ino p (\<lambda>i.
          bnd (bread E (uint (i_dev i)) (uint (i_zone i ! 0))) (\<lambda>db.
          if db = 0
          then quit [iput E dir,
                     with_ino p (\<lambda>i. free_block E (uint (i_dev i)) (uint (i_zone i ! 0))),
                     upd_ino p (\<lambda>i. i\<lparr>i_nlinks := i_nlinks i - 1\<rparr>), iput E p] (- ERROR)
          else with_ino p (\<lambda>i. with_ino dir (\<lambda>d.
            thn (acts [upd_buf db (\<lambda>b. b\<lparr>b_data := dot_entries (i_num i) (i_num d) (b_data b)\<rparr>),
                       upd_ino p (\<lambda>i. i\<lparr>i_nlinks := 2\<rparr>),
                       upd_buf db (\<lambda>b. b\<lparr>b_dirt := True\<rparr>),
                       brelse E db,
                       (\<lambda>s. upd_ino p (\<lambda>i. i\<lparr>i_mode := I_DIRECTORY OR (mode AND 0x1FF AND NOT (t_umask (cur s))), i_dirt := True\<rparr>) s)])
            (bnd (add_entry E dir basename namelen) (\<lambda>(bh, de).
             if bh = 0
             then quit [iput E dir,
                        with_ino p (\<lambda>i. free_block E (uint (i_dev i)) (uint (i_zone i ! 0))),
                        upd_ino p (\<lambda>i. i\<lparr>i_nlinks := 0\<rparr>), iput E p] (- ENOSPC)
             else with_ino p (\<lambda>i.
               quit [set_de bh de (i_num i),
                     upd_ino dir (\<lambda>d. d\<lparr>i_nlinks := i_nlinks d + 1, i_dirt := True\<rparr>),
                     iput E dir, iput E p, brelse E bh] 0))))))))))))"

definition sys_mkdir :: "'a fs_scheme dev_env \<Rightarrow> u64 \<Rightarrow> u16 \<Rightarrow> ('a fs_scheme, int) act" where
  "sys_mkdir E pathname mode =
     bnd (rd privileged) (\<lambda>priv.
     if \<not> priv then ret (- EPERM)
     else bnd (dir_namei E pathname) (\<lambda>(dir, namelen, basename).
       if dir = 0 then ret (- ENOENT)
       else if namelen = 0 then quit [iput E dir] (- ENOENT)
       else bnd (permission dir MAY_WRITE) (\<lambda>ok.
         if ok = 0 then quit [iput E dir] (- EPERM)
         else bnd (find_entry E dir basename namelen) (\<lambda>(bh, de).
           if bh \<noteq> 0 then quit [brelse E bh, iput E dir] (- EEXIST)
           else bnd (rd_ino dir i_dev) (\<lambda>dev.
             bnd (new_inode E (uint dev)) (\<lambda>p.
             if p = 0 then quit [iput E dir] (- ENOSPC)
             else mkdir_inode E dir p basename namelen mode))))))"

definition bad_directory :: "nat \<Rightarrow> ('a fs_scheme, bool) act" where
  "bad_directory p =
     with_ino p (\<lambda>i. quit [upd (printk (''warning - bad directory on dev %04x'' @ [CHR 0x0A]) [AInt (ucast (i_dev i))])] False)"

text \<open>
  The rest of the scan of \<open>empty_dir\<close>; a missing block releases the buffer of the block before it
  once more.
\<close>

fun empty_scan :: "nat \<Rightarrow> 'a fs_scheme dev_env \<Rightarrow> nat \<Rightarrow> nat \<Rightarrow> nat \<Rightarrow> nat \<Rightarrow> ('a fs_scheme, bool) act" where
  "empty_scan 0 E p len bh de = quit [brelse E bh] True"
| "empty_scan (Suc n) E p len bh de =
     bnd (if de \<ge> BLOCK_SIZE
          then thn (brelse E bh)
            (bnd (bmap E p (int ((len - Suc n) div 64))) (\<lambda>block.
             if block = 0 then ret (Some (bh, de, False))
             else bnd (rd_ino p i_dev) (\<lambda>dev.
               bnd (bread E (uint dev) block) (\<lambda>bh. ret (if bh = 0 then None else Some (bh, 0, True))))))
          else ret (Some (bh, de, True))) (\<lambda>r. case r of
         None \<Rightarrow> ret False
       | Some (bh, de, present) \<Rightarrow>
           if \<not> present then empty_scan (Suc n - 64) E p len bh de
           else with_buf bh (\<lambda>b.
             if de_inode (b_data b) de \<noteq> 0 then quit [brelse E bh] False
             else empty_scan n E p len bh (de + 16)))"

definition empty_dir :: "'a fs_scheme dev_env \<Rightarrow> nat \<Rightarrow> ('a fs_scheme, bool) act" where
  "empty_dir E p =
     with_ino p (\<lambda>i.
     let len = nat (int32 (uint (i_size i div 16))) in
     if len < 2 \<or> i_zone i ! 0 = 0 then bad_directory p
     else bnd (bread E (uint (i_dev i)) (uint (i_zone i ! 0))) (\<lambda>bh.
       if bh = 0 then bad_directory p
       else with_buf bh (\<lambda>b. with_ino p (\<lambda>i.
         let d = b_data b in
         if de_inode d 0 \<noteq> i_num i \<or> de_inode d 16 = 0 \<or> \<not> (d 2 = 46 \<and> d 3 = 0) \<or> \<not> (d 18 = 46 \<and> d 19 = 46 \<and> d 20 = 0)
         then bad_directory p
         else empty_scan (len - 2) E p len bh 32))))"

definition sys_rmdir :: "'a fs_scheme dev_env \<Rightarrow> u64 \<Rightarrow> ('a fs_scheme, int) act" where
  "sys_rmdir E name =
     bnd (rd privileged) (\<lambda>priv.
     if \<not> priv then ret (- EPERM)
     else bnd (dir_namei E name) (\<lambda>(dir, namelen, basename).
       if dir = 0 then ret (- ENOENT)
       else if namelen = 0 then quit [iput E dir] (- ENOENT)
       else bnd (find_entry E dir basename namelen) (\<lambda>(bh, de).
         if bh = 0 then quit [iput E dir] (- ENOENT)
         else bnd (permission dir MAY_WRITE) (\<lambda>ok.
           if ok = 0 then quit [iput E dir, brelse E bh] (- EPERM)
           else with_ino dir (\<lambda>d. with_buf bh (\<lambda>b.
             bnd (iget E (uint (i_dev d)) (uint (de_inode (b_data b) de))) (\<lambda>p.
             if p = 0 then quit [iput E dir, brelse E bh] (- EPERM)
             else if p = dir then quit [iput E p, iput E dir, brelse E bh] (- EPERM)
             else with_ino p (\<lambda>i.
               if \<not> S_ISDIR (i_mode i) then quit [iput E p, iput E dir, brelse E bh] (- ENOTDIR)
               else bnd (empty_dir E p) (\<lambda>empty.
                 if \<not> empty then quit [iput E p, iput E dir, brelse E bh] (- ENOTEMPTY)
                 else quit
                   [with_ino p (\<lambda>i. onlyif (i_nlinks i \<noteq> 2)
                      (upd (printk ''empty directory has nlink!=2 (%d)'' [AInt (ucast (i_nlinks i))]))),
                    set_de bh de 0,
                    brelse E bh,
                    upd_ino p (\<lambda>i. i\<lparr>i_nlinks := 0, i_dirt := True\<rparr>),
                    bnd (rd now) (\<lambda>t. upd_ino dir (\<lambda>d. d\<lparr>i_nlinks := i_nlinks d - 1, i_mtime := t, i_ctime := t, i_dirt := True\<rparr>)),
                    iput E dir, iput E p] 0))))))))) "

definition sys_unlink :: "'a fs_scheme dev_env \<Rightarrow> u64 \<Rightarrow> ('a fs_scheme, int) act" where
  "sys_unlink E name =
     bnd (dir_namei E name) (\<lambda>(dir, namelen, basename).
     if dir = 0 then ret (- ENOENT)
     else if namelen = 0 then quit [iput E dir] (- ENOENT)
     else bnd (permission dir MAY_WRITE) (\<lambda>ok.
       if ok = 0 then quit [iput E dir] (- EPERM)
       else bnd (find_entry E dir basename namelen) (\<lambda>(bh, de).
         if bh = 0 then quit [iput E dir] (- ENOENT)
         else with_ino dir (\<lambda>d. with_buf bh (\<lambda>b.
           bnd (iget E (uint (i_dev d)) (uint (de_inode (b_data b) de))) (\<lambda>p.
           if p = 0
           then quit [with_ino dir (\<lambda>d. with_buf bh (\<lambda>b. upd (printk ''iget failed in delete (%04x:%d)''
                        [AInt (ucast (i_dev d)), AInt (ucast (de_inode (b_data b) de))]))),
                      iput E dir, brelse E bh] (- ENOENT)
           else with_ino p (\<lambda>i.
             if \<not> S_ISREG (i_mode i) then quit [iput E p, iput E dir, brelse E bh] (- EPERM)
             else quit
               [onlyif (i_nlinks i = 0)
                  (acts [upd (printk (''Deleting nonexistent file (%04x:%d), %d'' @ [CHR 0x0A])
                           [AInt (ucast (i_dev i)), AInt (ucast (i_num i)), AInt (ucast (i_nlinks i))]),
                         upd_ino p (\<lambda>i. i\<lparr>i_nlinks := 1\<rparr>)]),
                set_de bh de 0,
                brelse E bh,
                bnd (rd now) (\<lambda>t. upd_ino p (\<lambda>i. i\<lparr>i_nlinks := i_nlinks i - 1, i_dirt := True, i_ctime := t\<rparr>)),
                iput E p, iput E dir] 0)))))))"

definition link_into :: "'a fs_scheme dev_env \<Rightarrow> nat \<Rightarrow> nat \<Rightarrow> u64 \<Rightarrow> nat \<Rightarrow> ('a fs_scheme, int) act" where
  "link_into E p dir basename namelen =
     bnd (permission dir MAY_WRITE) (\<lambda>ok.
     if ok = 0 then quit [iput E dir, iput E p] (- EACCES)
     else bnd (find_entry E dir basename namelen) (\<lambda>(bh, de).
       if bh \<noteq> 0 then quit [brelse E bh, iput E dir, iput E p] (- EEXIST)
       else bnd (add_entry E dir basename namelen) (\<lambda>(bh, de).
         if bh = 0 then quit [iput E dir, iput E p] (- ENOSPC)
         else with_ino p (\<lambda>i. quit
           [set_de bh de (i_num i), brelse E bh, iput E dir,
            bnd (rd now) (\<lambda>t. upd_ino p (\<lambda>i. i\<lparr>i_nlinks := i_nlinks i + 1, i_ctime := t, i_dirt := True\<rparr>)),
            iput E p] 0))))"

definition sys_link :: "'a fs_scheme dev_env \<Rightarrow> u64 \<Rightarrow> u64 \<Rightarrow> ('a fs_scheme, int) act" where
  "sys_link E oldname newname =
     bnd (namei E oldname) (\<lambda>p.
     if p = 0 then ret (- ENOENT)
     else with_ino p (\<lambda>i.
       if \<not> S_ISREG (i_mode i) then quit [iput E p] (- EPERM)
       else bnd (dir_namei E newname) (\<lambda>(dir, namelen, basename).
         if dir = 0 then quit [iput E p] (- EACCES)
         else if namelen = 0 then quit [iput E p, iput E dir] (- EPERM)
         else with_ino dir (\<lambda>d. with_ino p (\<lambda>i.
           if i_dev d \<noteq> i_dev i then quit [iput E dir, iput E p] (- EXDEV)
           else link_into E p dir basename namelen)))))"

end
