(* ===== verification/File_Io.thy ===== *)
theory File_Io
  imports Namei
begin

text \<open>
  Reading and writing: \<open>src/fs/block_dev.c\<close>, \<open>file_dev.c\<close>, \<open>char_dev.c\<close>, \<open>pipe.c\<close> and
  \<open>read_write.c\<close>. The position \<open>*pos\<close> of a block device is the \<open>f_pos\<close> of the open file.
\<close>

definition with_file :: "nat \<Rightarrow> (kfile \<Rightarrow> ('a fs_scheme, 'b) act) \<Rightarrow> ('a fs_scheme, 'b) act" where
  "with_file f g = bnd (rd_file f id) g"

definition add_pos :: "nat \<Rightarrow> int \<Rightarrow> ('a fs_scheme, unit) act" where
  "add_pos f n = upd_file f (\<lambda>x. x\<lparr>f_pos := f_pos x + n\<rparr>)"

text \<open>
  Copying between user memory and a buffer, from offset \<open>off\<close> of its block on. The code does not
  limit \<open>n\<close> to the bytes left in the block.
\<close>

definition copy_in :: "nat \<Rightarrow> nat \<Rightarrow> u64 \<Rightarrow> nat \<Rightarrow> ('a fs_scheme, unit) act" where
  "copy_in bh off ubuf n =
     (if off + n > BLOCK_SIZE then stop Fault
      else bnd (rd (get_fs_bytes n ubuf)) (\<lambda>bs. upd_buf bh (\<lambda>b. b\<lparr>b_data := put_bytes bs off (b_data b)\<rparr>)))"

definition copy_out :: "nat \<Rightarrow> nat \<Rightarrow> u64 \<Rightarrow> nat \<Rightarrow> ('a fs_scheme, unit) act" where
  "copy_out bh off ubuf n =
     (if off + n > BLOCK_SIZE then stop Fault
      else with_buf bh (\<lambda>b. upd (put_fs_bytes (map (\<lambda>i. b_data b (off + i)) [0..<n]) ubuf)))"

section \<open>Block devices\<close>

function block_loop :: "(nat \<Rightarrow> nat \<Rightarrow> u64 \<Rightarrow> nat \<Rightarrow> ('a fs_scheme, unit) act) \<Rightarrow> 'a fs_scheme dev_env \<Rightarrow> int \<Rightarrow> nat \<Rightarrow>
    u64 \<Rightarrow> nat \<Rightarrow> int \<Rightarrow> nat \<Rightarrow> int \<Rightarrow> ('a fs_scheme, int) act" where
  "block_loop copy E dev f ubuf count block off sofar =
     (if count = 0 then ret sofar
      else bnd (bread E dev block) (\<lambda>bh.
        if bh = 0 then ret (if sofar \<noteq> 0 then sofar else - EIO)
        else let chars = min count BLOCK_SIZE in
          thn (acts [add_pos f (int chars),
                     copy bh off ubuf chars,
                     upd_buf bh (\<lambda>b. b\<lparr>b_dirt := True\<rparr>),
                     brelse E bh])
          (block_loop copy E dev f (ubuf + of_nat chars) (count - chars) (block + 1) 0 (sofar + int chars))))"
  by pat_completeness auto
termination by (relation "measure (\<lambda>(_, _, _, _, _, count, _). count)") auto

declare block_loop.simps [simp del]

definition block_write :: "'a fs_scheme dev_env \<Rightarrow> int \<Rightarrow> nat \<Rightarrow> u64 \<Rightarrow> int \<Rightarrow> ('a fs_scheme, int) act" where
  "block_write E dev f ubuf count =
     with_file f (\<lambda>x.
     block_loop copy_in E dev f ubuf (nat count) (int32 (c_div (f_pos x) 1024)) (nat (c_mod (f_pos x) 1024)) 0)"

definition block_read :: "'a fs_scheme dev_env \<Rightarrow> int \<Rightarrow> nat \<Rightarrow> u64 \<Rightarrow> int \<Rightarrow> ('a fs_scheme, int) act" where
  "block_read E dev f ubuf count =
     with_file f (\<lambda>x.
     block_loop copy_out E dev f ubuf (nat count)
       (int32 (uint ((of_int (f_pos x) :: u64) div 1024))) (unat ((of_int (f_pos x) :: u64) mod 1024)) 0)"

section \<open>Regular files\<close>

function read_blocks :: "'a fs_scheme dev_env \<Rightarrow> nat \<Rightarrow> nat \<Rightarrow> u64 \<Rightarrow> nat \<Rightarrow> ('a fs_scheme, nat) act" where
  "read_blocks E p f ubuf left =
     (if left = 0 then ret 0
      else with_file f (\<lambda>x.
        bnd (bmap E p (int32 (c_div (f_pos x) 1024))) (\<lambda>nr.
        bnd (if nr = 0 then ret (Some 0)
             else bnd (rd_ino p i_dev) (\<lambda>dev. bnd (bread E (uint dev) nr) (\<lambda>bh. ret (if bh = 0 then None else Some bh)))) (\<lambda>r.
        case r of
          None \<Rightarrow> ret left
        | Some bh \<Rightarrow>
            with_file f (\<lambda>x.
            let off = nat (c_mod (f_pos x) 1024); chars = min (BLOCK_SIZE - off) left in
            if \<not> (0 \<le> c_mod (f_pos x) 1024 \<and> off < BLOCK_SIZE) then stop Fault
            else thn (acts [add_pos f (int chars),
                       if bh \<noteq> 0 then acts [copy_out bh off ubuf chars, brelse E bh]
                       else upd (put_fs_bytes (replicate chars 0) ubuf)])
              (read_blocks E p f (ubuf + of_nat chars) (left - chars)))))))"
  by pat_completeness auto
termination by (relation "measure (\<lambda>(_, _, _, _, left). left)") auto

declare read_blocks.simps [simp del]

definition file_read :: "'a fs_scheme dev_env \<Rightarrow> nat \<Rightarrow> nat \<Rightarrow> u64 \<Rightarrow> int \<Rightarrow> ('a fs_scheme, int) act" where
  "file_read E p f ubuf count =
     (if count \<le> 0 then ret 0
      else bnd (read_blocks E p f ubuf (nat count)) (\<lambda>left.
        thn (bnd (rd now) (\<lambda>t. upd_ino p (\<lambda>i. i\<lparr>i_atime := t\<rparr>)))
        (ret (if count - int left \<noteq> 0 then count - int left else - ERROR))))"

text \<open>The loop of \<open>file_write\<close>: the position after it and the bytes still to write.\<close>

function write_blocks :: "'a fs_scheme dev_env \<Rightarrow> nat \<Rightarrow> u64 \<Rightarrow> int \<Rightarrow> nat \<Rightarrow> ('a fs_scheme, int \<times> nat) act" where
  "write_blocks E p ubuf pos left =
     (if left = 0 then ret (pos, 0)
      else bnd (create_block E p (int32 (c_div pos 1024))) (\<lambda>block.
        if block = 0 then ret (pos, left)
        else bnd (rd_ino p i_dev) (\<lambda>dev.
          bnd (bread E (uint dev) block) (\<lambda>bh.
          if bh = 0 then ret (pos, left)
          else let off = nat (c_mod pos 1024); c = min (BLOCK_SIZE - off) left; pos' = pos + int c in
            if \<not> (0 \<le> c_mod pos 1024 \<and> off < BLOCK_SIZE) then stop Fault
            else thn (acts [upd_buf bh (\<lambda>b. b\<lparr>b_dirt := True\<rparr>),
                       with_ino p (\<lambda>i. onlyif ((of_int pos' :: u64) > i_size i)
                         (upd_ino p (\<lambda>i. i\<lparr>i_size := of_int pos', i_dirt := True\<rparr>))),
                       copy_in bh off ubuf c,
                       brelse E bh])
              (write_blocks E p (ubuf + of_nat c) pos' (left - c))))))"
  by pat_completeness auto
termination by (relation "measure (\<lambda>(_, _, _, _, left). left)") auto

declare write_blocks.simps [simp del]

definition file_write :: "'a fs_scheme dev_env \<Rightarrow> nat \<Rightarrow> nat \<Rightarrow> u64 \<Rightarrow> int \<Rightarrow> ('a fs_scheme, int) act" where
  "file_write E p f ubuf count =
     with_file f (\<lambda>x. with_ino p (\<lambda>i.
     let append = f_flags x AND 0x400 \<noteq> 0 in
     bnd (write_blocks E p ubuf (if append then sint (i_size i) else f_pos x) (nat count)) (\<lambda>(pos, left).
     let n = (if count > 0 then count - int left else 0) in
     thn (acts [bnd (rd now) (\<lambda>t. upd_ino p (\<lambda>i. i\<lparr>i_mtime := t\<rparr>)),
                with_file f (\<lambda>x. onlyif (f_flags x AND 0x400 = 0)
                  (acts [upd_file f (\<lambda>x. x\<lparr>f_pos := pos\<rparr>),
                         bnd (rd now) (\<lambda>t. upd_ino p (\<lambda>i. i\<lparr>i_ctime := t\<rparr>))]))])
     (ret (if n \<noteq> 0 then n else -1)))))"

section \<open>Character devices\<close>

definition rw_ttyx :: "'a fs_scheme dev_env \<Rightarrow> bool \<Rightarrow> nat \<Rightarrow> u64 \<Rightarrow> int \<Rightarrow> ('a fs_scheme, int) act" where
  "rw_ttyx E wr minor ubuf count = (if wr then tty_write E minor ubuf count else tty_read E minor ubuf count)"

definition rw_tty :: "'a fs_scheme dev_env \<Rightarrow> bool \<Rightarrow> nat \<Rightarrow> u64 \<Rightarrow> int \<Rightarrow> ('a fs_scheme, int) act" where
  "rw_tty E wr minor ubuf count =
     bnd (rd (\<lambda>s. t_tty (cur s))) (\<lambda>t. if t < 0 then ret (- EPERM) else rw_ttyx E wr (nat t) ubuf count)"

definition rw_char :: "'a fs_scheme dev_env \<Rightarrow> bool \<Rightarrow> int \<Rightarrow> u64 \<Rightarrow> int \<Rightarrow> ('a fs_scheme, int) act" where
  "rw_char E wr dev ubuf count =
     (if MAJOR dev \<ge> 8 then panic ''rw_char: dev>NRDEV''
      else if MAJOR dev = 4 then rw_ttyx E wr (MINOR dev) ubuf count
      else if MAJOR dev = 5 then rw_tty E wr (MINOR dev) ubuf count
      else thn (upd (printk (''dev: %04x'' @ [CHR 0x0A]) [AInt (of_int dev)]))
             (panic ''Trying to r/w from/to nonexistent character device''))"

section \<open>Pipes\<close>

text \<open>A byte of the page of a pipe, in memory kept by 8-byte words.\<close>

definition mem_byte :: "'a mm_scheme \<Rightarrow> u64 \<Rightarrow> u8" where
  "mem_byte s a = ucast (drop_bit (8 * unat (a AND 7)) (qmem s (a AND NOT 7)))"

definition set_mem_byte :: "u8 \<Rightarrow> u64 \<Rightarrow> 'a mm_scheme \<Rightarrow> 'a mm_scheme" where
  "set_mem_byte v a s =
     (let k = 8 * unat (a AND 7); w = a AND NOT 7 in
      write_q w ((qmem s w AND NOT (push_bit k 0xFF)) OR push_bit k (ucast v)) s)"

definition PIPE_SIZE :: "m_inode \<Rightarrow> u64" where "PIPE_SIZE i = (PIPE_HEAD i - PIPE_TAIL i) AND 4095"
definition PIPE_EMPTY :: "m_inode \<Rightarrow> bool" where "PIPE_EMPTY i \<longleftrightarrow> PIPE_HEAD i = PIPE_TAIL i"
definition PIPE_FULL :: "m_inode \<Rightarrow> bool" where "PIPE_FULL i \<longleftrightarrow> PIPE_SIZE i = 4095"

text \<open>\<open>incl\<close> and \<open>andl\<close> work on the low 32 bits.\<close>

definition INC_PIPE :: "u64 \<Rightarrow> u64" where
  "INC_PIPE v = (v AND NOT 0xFFFFFFFF) OR ucast ((ucast v + 1 :: u32) AND 4095)"

definition inc_head :: "m_inode \<Rightarrow> m_inode" where
  "inc_head i = i\<lparr>i_zone := set_zones 0 (INC_PIPE (PIPE_HEAD i)) (i_zone i)\<rparr>"

definition inc_tail :: "m_inode \<Rightarrow> m_inode" where
  "inc_tail i = i\<lparr>i_zone := set_zones 4 (INC_PIPE (PIPE_TAIL i)) (i_zone i)\<rparr>"

fun pipe_get :: "nat \<Rightarrow> nat \<Rightarrow> u64 \<Rightarrow> nat \<Rightarrow> ('a fs_scheme, nat) act" where
  "pipe_get 0 p b n = ret n"
| "pipe_get (Suc count) p b n =
     with_ino p (\<lambda>i.
     if PIPE_EMPTY i then ret n
     else thn (acts [upd (\<lambda>s. put_fs_byte (mem_byte s (i_size i + PIPE_TAIL i)) b s), upd_ino p inc_tail])
       (pipe_get count p (b + 1) (n + 1)))"

text \<open>Waiting for a writer: whether there is something to read.\<close>

fun pipe_wait :: "nat \<Rightarrow> 'a fs_scheme dev_env \<Rightarrow> nat \<Rightarrow> ('a fs_scheme, bool) act" where
  "pipe_wait 0 E p = stop Diverge"
| "pipe_wait (Suc n) E p =
     with_ino p (\<lambda>i.
     if \<not> PIPE_EMPTY i then ret True
     else thn (upd (wake_up (ino_wait p)))
       (with_ino p (\<lambda>i.
        if i_count i \<noteq> 2 then ret False
        else thn (sleep_on (e_run E) (ino_wait p)) (pipe_wait n E p))))"

definition read_pipe :: "'a fs_scheme dev_env \<Rightarrow> nat \<Rightarrow> u64 \<Rightarrow> int \<Rightarrow> ('a fs_scheme, int) act" where
  "read_pipe E p ubuf count =
     bnd (pipe_wait (e_fuel E) E p) (\<lambda>ready.
     if \<not> ready then ret 0
     else bnd (pipe_get (nat count) p ubuf 0) (\<lambda>n.
       thn (upd (wake_up (ino_wait p))) (ret (int n))))"

text \<open>Waiting for room: whether there is a reader still.\<close>

fun pipe_room :: "nat \<Rightarrow> 'a fs_scheme dev_env \<Rightarrow> nat \<Rightarrow> ('a fs_scheme, bool) act" where
  "pipe_room 0 E p = stop Diverge"
| "pipe_room (Suc n) E p =
     with_ino p (\<lambda>i.
     if \<not> PIPE_FULL i then ret True
     else thn (upd (wake_up (ino_wait p)))
       (with_ino p (\<lambda>i.
        if i_count i \<noteq> 2 then ret False
        else thn (sleep_on (e_run E) (ino_wait p)) (pipe_room n E p))))"

definition sigpipe :: "('a fs_scheme, unit) act" where
  "sigpipe = upd (upd_cur (raise_sig SIGPIPE))"

fun pipe_put :: "nat \<Rightarrow> 'a fs_scheme dev_env \<Rightarrow> nat \<Rightarrow> u64 \<Rightarrow> nat \<Rightarrow> ('a fs_scheme, int \<times> bool) act" where
  "pipe_put 0 E p b n = ret (int n, True)"
| "pipe_put (Suc count) E p b n =
     bnd (pipe_room (e_fuel E) E p) (\<lambda>ok.
     if \<not> ok then thn sigpipe (ret (int n, False))
     else thn (with_ino p (\<lambda>i.
              acts [upd (\<lambda>s. set_mem_byte (get_fs_byte b s) (i_size i + PIPE_HEAD i) s),
                    upd_ino p inc_head,
                    upd (wake_up (ino_wait p))]))
       (pipe_put count E p (b + 1) (n + 1)))"

definition write_pipe :: "'a fs_scheme dev_env \<Rightarrow> nat \<Rightarrow> u64 \<Rightarrow> int \<Rightarrow> ('a fs_scheme, int) act" where
  "write_pipe E p ubuf count =
     thn (upd (wake_up (ino_wait p)))
     (with_ino p (\<lambda>i.
      if i_count i \<noteq> 2 then thn sigpipe (ret (-1))
      else bnd (pipe_put (nat count) E p ubuf 0) (\<lambda>(r, whole).
        thn (onlyif whole (upd (wake_up (ino_wait p)))) (ret r))))"

text \<open>The first \<open>k\<close> free entries of a table.\<close>

definition free_entries :: "('a \<Rightarrow> bool) \<Rightarrow> 'a list \<Rightarrow> nat \<Rightarrow> nat list" where
  "free_entries P xs k = take k (filter (\<lambda>i. P (xs ! i)) [0..<length xs])"

definition set_filp :: "nat \<Rightarrow> nat \<Rightarrow> ('a fs_scheme, unit) act" where
  "set_filp fd f = upd (upd_cur (\<lambda>t. t\<lparr>t_filp := (t_filp t)[fd := f]\<rparr>))"

definition set_f_count :: "u16 \<Rightarrow> nat \<Rightarrow> ('a fs_scheme, unit) act" where
  "set_f_count n f = upd_file f (\<lambda>x. x\<lparr>f_count := n\<rparr>)"

definition sys_pipe :: "'a fs_scheme dev_env \<Rightarrow> u64 \<Rightarrow> ('a fs_scheme, int) act" where
  "sys_pipe E fildes =
     bnd (rd (\<lambda>s. map Suc (free_entries (\<lambda>x. f_count x = 0) (file_table s) 2))) (\<lambda>fs.
     thn (acts (map (\<lambda>f. upd_file f (\<lambda>x. x\<lparr>f_count := f_count x + 1\<rparr>)) fs))
     (if length fs < 2 then quit (map (set_f_count 0) fs) (-1)
      else bnd (rd (\<lambda>s. free_entries (\<lambda>f. f = 0) (t_filp (cur s)) 2)) (\<lambda>fds.
        thn (acts (map (\<lambda>(fd, f). set_filp fd f) (zip fds fs)))
        (if length fds < 2
         then quit (map (\<lambda>fd. set_filp fd 0) fds @ map (set_f_count 0) fs) (-1)
         else bnd (get_pipe_inode E) (\<lambda>p.
           if p = 0 then quit (map (\<lambda>fd. set_filp fd 0) fds @ map (set_f_count 0) fs) (-1)
           else quit
             [acts (map (\<lambda>f. upd_file f (\<lambda>x. x\<lparr>f_inode := p, f_pos := 0\<rparr>)) fs),
              upd_file (fs ! 0) (\<lambda>x. x\<lparr>f_mode := 1\<rparr>),
              upd_file (fs ! 1) (\<lambda>x. x\<lparr>f_mode := 2\<rparr>),
              upd (put_fs_long (of_nat (fds ! 0)) fildes),
              upd (put_fs_long (of_nat (fds ! 1)) (fildes + 8))] 0)))))"

section \<open>The calls\<close>

definition cur_filp :: "nat \<Rightarrow> 'a fs_scheme \<Rightarrow> nat" where
  "cur_filp fd s = (if fd \<ge> NR_OPEN then 0 else t_filp (cur s) ! fd)"

definition IS_BLOCKDEV :: "nat \<Rightarrow> bool" where "IS_BLOCKDEV x \<longleftrightarrow> x = 2 \<or> x = 3"

definition sys_lseek :: "nat \<Rightarrow> int \<Rightarrow> int \<Rightarrow> ('a fs_scheme, int) act" where
  "sys_lseek fd offset origin =
     bnd (rd (cur_filp fd)) (\<lambda>f.
     if f = 0 then ret (- EBADF)
     else with_file f (\<lambda>x.
       if f_inode x = 0 then ret (- EBADF)
       else with_ino (f_inode x) (\<lambda>i.
         let set = (\<lambda>pos. thn (upd_file f (\<lambda>x. x\<lparr>f_pos := pos\<rparr>)) (ret (int32 pos))) in
         if \<not> IS_BLOCKDEV (MAJOR (uint (i_dev i))) then ret (- EBADF)
         else if i_pipe i then ret (- ESPIPE)
         else if origin = 0 then if offset < 0 then ret (- EINVAL) else set offset
         else if origin = 1 then if f_pos x + offset < 0 then ret (- EINVAL) else set (f_pos x + offset)
         else if origin = 2 then
           let tmp = int32 (uint (i_size i + of_int offset)) in
           if tmp < 0 then ret (- EINVAL) else set tmp
         else ret (- EINVAL))))"

definition sys_read :: "'a fs_scheme dev_env \<Rightarrow> nat \<Rightarrow> u64 \<Rightarrow> int \<Rightarrow> ('a fs_scheme, int) act" where
  "sys_read E fd ubuf count =
     bnd (rd (cur_filp fd)) (\<lambda>f.
     if f = 0 \<or> count < 0 then ret (- EINVAL)
     else if count = 0 then ret 0
     else thn (verify_area ubuf count)
       (with_file f (\<lambda>x. with_ino (f_inode x) (\<lambda>i.
        if i_pipe i then if f_mode x AND 1 \<noteq> 0 then read_pipe E (f_inode x) ubuf count else ret (-1)
        else if S_ISCHR (i_mode i) then rw_char E False (uint (i_zone i ! 0)) ubuf count
        else if S_ISBLK (i_mode i) then block_read E (uint (i_zone i ! 0)) f ubuf count
        else if S_ISDIR (i_mode i) \<or> S_ISREG (i_mode i) then
          let count = (if (of_int (count + f_pos x) :: u64) > i_size i
                       then int32 (uint (i_size i - of_int (f_pos x))) else count) in
          if count \<le> 0 then ret 0 else file_read E (f_inode x) f ubuf count
        else quit [upd (printk (''(Read)inode->i_mode=%06o'' @ [CHR 0x0A, CHR 0x0D]) [AInt (ucast (i_mode i))])] (- EINVAL)))))"

definition sys_write :: "'a fs_scheme dev_env \<Rightarrow> nat \<Rightarrow> u64 \<Rightarrow> int \<Rightarrow> ('a fs_scheme, int) act" where
  "sys_write E fd ubuf count =
     bnd (rd (cur_filp fd)) (\<lambda>f.
     if f = 0 \<or> count < 0 then ret (- EINVAL)
     else if count = 0 then ret 0
     else with_file f (\<lambda>x. with_ino (f_inode x) (\<lambda>i.
        if i_pipe i then if f_mode x AND 2 \<noteq> 0 then write_pipe E (f_inode x) ubuf count else ret (-1)
        else if S_ISCHR (i_mode i) then rw_char E True (uint (i_zone i ! 0)) ubuf count
        else if S_ISBLK (i_mode i) then block_write E (uint (i_zone i ! 0)) f ubuf count
        else if S_ISREG (i_mode i) then file_write E (f_inode x) f ubuf count
        else quit [upd (printk (''(Write)inode->i_mode=%06o'' @ [CHR 0x0A, CHR 0x0D]) [AInt (ucast (i_mode i))])] (- EINVAL))))"

end
