(* ===== verification/Tty_Ioctl.thy ===== *)
theory Tty_Ioctl
  imports Sys_Calls
begin

text \<open>
  Terminal parameters: \<open>src/fs/tty_ioctl.c\<close>. Structures travel to and from user memory as their
  bytes, padding included; \<open>struct termio\<close> is built on the kernel stack, and \<open>junk\<close> is the byte of
  stack memory that becomes its padding.
\<close>

section \<open>The two layouts\<close>

record termio =
  ca_iflag :: u16
  ca_oflag :: u16
  ca_cflag :: u16
  ca_lflag :: u16
  ca_line :: u8
  ca_cc :: "u8 list"

abbreviation NCC :: nat where "NCC \<equiv> 8"
abbreviation NCCS :: nat where "NCCS \<equiv> 17"

definition termios_bytes :: "termios \<Rightarrow> u8 list" where
  "termios_bytes t =
     bytes_of 8 (c_iflag t) @ bytes_of 8 (c_oflag t) @ bytes_of 8 (c_cflag t) @ bytes_of 8 (c_lflag t) @
     [c_line t] @ c_cc t @ c_pad t"

definition bytes_termios :: "u8 list \<Rightarrow> termios" where
  "bytes_termios bs =
     \<lparr>c_iflag = word_of (take 8 bs), c_oflag = word_of (take 8 (drop 8 bs)),
      c_cflag = word_of (take 8 (drop 16 bs)), c_lflag = word_of (take 8 (drop 24 bs)),
      c_line = bs ! 32, c_cc = take NCCS (drop 33 bs), c_pad = take 6 (drop 50 bs)\<rparr>"

definition termio_bytes :: "u8 \<Rightarrow> termio \<Rightarrow> u8 list" where
  "termio_bytes junk t =
     bytes_of 2 (ucast (ca_iflag t)) @ bytes_of 2 (ucast (ca_oflag t)) @
     bytes_of 2 (ucast (ca_cflag t)) @ bytes_of 2 (ucast (ca_lflag t)) @ [ca_line t] @ ca_cc t @ [junk]"

definition bytes_termio :: "u8 list \<Rightarrow> termio" where
  "bytes_termio bs =
     \<lparr>ca_iflag = ucast (word_of (take 2 bs)), ca_oflag = ucast (word_of (take 2 (drop 2 bs))),
      ca_cflag = ucast (word_of (take 2 (drop 4 bs))), ca_lflag = ucast (word_of (take 2 (drop 6 bs))),
      ca_line = bs ! 8, ca_cc = take NCC (drop 9 bs)\<rparr>"

section \<open>Getting and setting\<close>

definition get_termios :: "nat \<Rightarrow> u64 \<Rightarrow> 'a ttys_scheme \<Rightarrow> ('a ttys_scheme, int) res" where
  "get_termios n termios s =
     bindE (verify_area termios 56 s) (\<lambda>(_, s).
     Inr (0, put_fs_bytes (termios_bytes (tt_termios (tty s n))) termios s))"

definition set_termios :: "nat \<Rightarrow> u64 \<Rightarrow> 'a ttys_scheme \<Rightarrow> int \<times> 'a ttys_scheme" where
  "set_termios n termios s =
     (0, upd_tty n (\<lambda>t. t\<lparr>tt_termios := bytes_termios (get_fs_bytes 56 termios s)\<rparr>) s)"

definition get_termio :: "u8 \<Rightarrow> nat \<Rightarrow> u64 \<Rightarrow> 'a ttys_scheme \<Rightarrow> ('a ttys_scheme, int) res" where
  "get_termio junk n termio s =
     bindE (verify_area termio 18 s) (\<lambda>(_, s).
     let t = tt_termios (tty s n);
         tmp = \<lparr>ca_iflag = ucast (c_iflag t), ca_oflag = ucast (c_oflag t), ca_cflag = ucast (c_cflag t),
                ca_lflag = ucast (c_lflag t), ca_line = c_line t, ca_cc = take NCC (c_cc t)\<rparr> in
     Inr (0, put_fs_bytes (termio_bytes junk tmp) termio s))"

text \<open>\<open>*(unsigned short *)&x = v\<close> on an \<open>unsigned long\<close>: the low 16 bits change.\<close>

definition set_low16 :: "u64 \<Rightarrow> u16 \<Rightarrow> u64" where
  "set_low16 x v = (x AND NOT 0xFFFF) OR ucast v"

definition set_termio :: "nat \<Rightarrow> u64 \<Rightarrow> 'a ttys_scheme \<Rightarrow> int \<times> 'a ttys_scheme" where
  "set_termio n termio s =
     (let tmp = bytes_termio (get_fs_bytes 18 termio s) in
      (0, upd_tty n (\<lambda>t. t\<lparr>tt_termios := (let u = tt_termios t in
         \<lparr>c_iflag = set_low16 (c_iflag u) (ca_iflag tmp), c_oflag = set_low16 (c_oflag u) (ca_oflag tmp),
          c_cflag = set_low16 (c_cflag u) (ca_cflag tmp), c_lflag = set_low16 (c_lflag u) (ca_lflag tmp),
          c_line = ca_line tmp, c_cc = ca_cc tmp @ drop NCC (c_cc u), c_pad = c_pad u\<rparr>)\<rparr>) s))"

section \<open>tty_ioctl\<close>

definition wait_until_sent :: "nat \<Rightarrow> 'a ttys_scheme \<Rightarrow> 'a ttys_scheme" where
  "wait_until_sent n s = s"

definition send_break :: "nat \<Rightarrow> 'a ttys_scheme \<Rightarrow> 'a ttys_scheme" where
  "send_break n s = s"

definition tty_ioctl :: "u8 \<Rightarrow> int \<Rightarrow> int \<Rightarrow> int \<Rightarrow> 'a ttys_scheme \<Rightarrow> ('a ttys_scheme, int) res" where
  "tty_ioctl junk dev cmd arg s =
     (let major5 = (of_int dev :: u32) div 256 = 5;
          d = (if major5 then t_tty (cur s) else dev mod 256) in
      if major5 \<and> d < 0 then Inl (Panic ''tty_ioctl: dev<0'')
      else if \<not> nat d < length (tty_table s) then Inl Fault
      else let n = nat d; a = of_int arg :: u64 in
        if cmd = 0x5401 \<comment> \<open>TCGETS\<close> then get_termios n a s
        else if cmd = 0x5404 \<comment> \<open>TCSETSF\<close> then Inr (set_termios n a (wait_until_sent n (upd_read_q n flush s)))
        else if cmd = 0x5403 \<comment> \<open>TCSETSW\<close> then Inr (set_termios n a (wait_until_sent n s))
        else if cmd = 0x5402 \<comment> \<open>TCSETS\<close> then Inr (set_termios n a s)
        else if cmd = 0x5405 \<comment> \<open>TCGETA\<close> then get_termio junk n a s
        else if cmd = 0x5408 \<comment> \<open>TCSETAF\<close> then Inr (set_termio n a (wait_until_sent n (upd_read_q n flush s)))
        else if cmd = 0x5407 \<comment> \<open>TCSETAW\<close> then Inr (set_termio n a (wait_until_sent n s))
        else if cmd = 0x5406 \<comment> \<open>TCSETA\<close> then Inr (set_termio n a s)
        else if cmd = 0x5409 \<comment> \<open>TCSBRK\<close>
        then Inr (0, if arg = 0 then send_break n (wait_until_sent n s) else s)
        else if cmd = 0x540B \<comment> \<open>TCFLSH\<close>
        then Inr (if arg = 0 then (0, upd_read_q n flush s)
                  else if arg = 1 then (0, upd_write_q n flush s)
                  else if arg = 2 then (0, upd_write_q n flush (upd_read_q n flush s))
                  else (- EINVAL, s))
        else if cmd = 0x540F \<comment> \<open>TIOCGPGRP\<close>
        then bindE (verify_area a 4 s) (\<lambda>(_, s). Inr (0, put_fs_long (of_int (tt_pgrp (tty s n))) a s))
        else if cmd = 0x5410 \<comment> \<open>TIOCSPGRP\<close>
        then Inr (0, upd_tty n (\<lambda>t. t\<lparr>tt_pgrp := int32 (uint (get_fs_long a s))\<rparr>) s)
        else if cmd = 0x5411 \<comment> \<open>TIOCOUTQ\<close>
        then bindE (verify_area a 4 s) (\<lambda>(_, s). Inr (0, put_fs_long (of_int (CHARS (tt_write_q (tty s n)))) a s))
        else Inr (- EINVAL, s))"

end
