(* ===== verification/Open.thy ===== *)
theory Open
  imports File_Io Tty_Ioctl
begin

text \<open>
  Files and their attributes: \<open>src/fs/open.c\<close>, \<open>fcntl.c\<close>, \<open>stat.c\<close> and \<open>ioctl.c\<close>. \<open>junk\<close> stands for
  bytes of the kernel stack that become padding of a structure copied to the user.
\<close>

section \<open>Attributes\<close>

definition sys_utime :: "'a fs_scheme dev_env \<Rightarrow> u64 \<Rightarrow> u64 \<Rightarrow> ('a fs_scheme, int) act" where
  "sys_utime E filename tms =
     bnd (namei E filename) (\<lambda>p.
     if p = 0 then ret (- ENOENT)
     else bnd (rd (\<lambda>s. if tms \<noteq> 0 then (get_fs_long tms s, get_fs_long (tms + 8) s) else (now s, now s))) (\<lambda>(actime, modtime).
       quit [upd_ino p (\<lambda>i. i\<lparr>i_atime := actime, i_mtime := modtime, i_dirt := True\<rparr>), iput E p] 0))"

definition sys_access :: "'a fs_scheme dev_env \<Rightarrow> u64 \<Rightarrow> u16 \<Rightarrow> ('a fs_scheme, int) act" where
  "sys_access E filename mode =
     bnd (namei E filename) (\<lambda>p.
     if p = 0 then ret (- EACCES)
     else bnd (rd_ino p (\<lambda>i. i_mode i AND 0x1FF)) (\<lambda>res.
       thn (iput E p)
       (with_ino p (\<lambda>i.
        bnd (rd (\<lambda>s. let t = cur s;
                         res = (if privileged s then if res AND 0x49 \<noteq> 0 then 0x1FF else 0x1B6 else res) in
              if t_euid t = i_uid i then drop_bit 6 res
              else if uint (t_egid t) = uint (i_gid i) then drop_bit 6 res
              else res)) (\<lambda>res.
        ret (if res AND 7 AND mode = mode AND 7 then 0 else - EACCES))))))"

definition sys_chdir :: "'a fs_scheme dev_env \<Rightarrow> u64 \<Rightarrow> ('a fs_scheme, int) act" where
  "sys_chdir E filename =
     bnd (namei E filename) (\<lambda>p.
     if p = 0 then ret (- ENOENT)
     else with_ino p (\<lambda>i.
       if \<not> S_ISDIR (i_mode i) then quit [iput E p] (- ENOTDIR)
       else quit [bnd (rd (\<lambda>s. t_pwd (cur s))) (iput E), upd (upd_cur (\<lambda>t. t\<lparr>t_pwd := p\<rparr>))] 0))"

definition sys_chroot :: "'a fs_scheme dev_env \<Rightarrow> u64 \<Rightarrow> ('a fs_scheme, int) act" where
  "sys_chroot E filename =
     bnd (namei E filename) (\<lambda>p.
     if p = 0 then ret (- ENOENT)
     else with_ino p (\<lambda>i.
       if \<not> S_ISDIR (i_mode i) then quit [iput E p] (- ENOTDIR)
       else quit [bnd (rd (\<lambda>s. t_root (cur s))) (iput E), upd (upd_cur (\<lambda>t. t\<lparr>t_root := p\<rparr>))] 0))"

definition sys_chmod :: "'a fs_scheme dev_env \<Rightarrow> u64 \<Rightarrow> u16 \<Rightarrow> ('a fs_scheme, int) act" where
  "sys_chmod E filename mode =
     bnd (namei E filename) (\<lambda>p.
     if p = 0 then ret (- ENOENT)
     else with_ino p (\<lambda>i.
       bnd (rd (\<lambda>s. (t_uid (cur s) \<noteq> 0 \<and> t_euid (cur s) \<noteq> 0, t_uid (cur s) \<noteq> i_uid i \<and> t_euid (cur s) \<noteq> i_uid i))) (\<lambda>(plain, other).
       if plain \<and> other then quit [iput E p] (- EACCES)
       else let mode = (if plain then (mode AND 0x1FF) OR (i_mode i AND 0xE00) else mode) in
         quit [upd_ino p (\<lambda>i. i\<lparr>i_mode := (mode AND 0xFFF) OR (i_mode i AND NOT 0xFFF), i_dirt := True\<rparr>), iput E p] 0)))"

definition sys_chown :: "'a fs_scheme dev_env \<Rightarrow> u64 \<Rightarrow> int \<Rightarrow> int \<Rightarrow> ('a fs_scheme, int) act" where
  "sys_chown E filename uid gid =
     bnd (namei E filename) (\<lambda>p.
     if p = 0 then ret (- ENOENT)
     else bnd (rd privileged) (\<lambda>priv.
       if \<not> priv then quit [iput E p] (- EACCES)
       else quit [upd_ino p (\<lambda>i. i\<lparr>i_uid := of_int uid, i_gid := of_int gid, i_dirt := True\<rparr>), iput E p] 0))"

section \<open>Opening and closing\<close>

definition clear_cloexec :: "nat \<Rightarrow> task_struct \<Rightarrow> task_struct" where
  "clear_cloexec fd t = t\<lparr>t_close_on_exec := t_close_on_exec t AND NOT (push_bit fd 1)\<rparr>"

text \<open>What opening a terminal does to the task; \<open>False\<close> when there is no controlling terminal.\<close>

definition open_tty :: "m_inode \<Rightarrow> ('a fs_scheme, bool) act" where
  "open_tty i =
     (let dev = uint (i_zone i ! 0) in
      if \<not> S_ISCHR (i_mode i) then ret True
      else if MAJOR dev = 4 then
        bnd (rd (\<lambda>s. t_leader (cur s) \<noteq> 0 \<and> t_tty (cur s) < 0)) (\<lambda>take.
        thn (onlyif take (thn (upd (upd_cur (\<lambda>t. t\<lparr>t_tty := int (MINOR dev)\<rparr>)))
              (\<lambda>s. if MINOR dev < length (tty_table s)
                   then Inr ((), upd_tty (MINOR dev) (\<lambda>t. t\<lparr>tt_pgrp := int32 (t_pgrp (cur s))\<rparr>) s) else Inl Fault)))
        (ret True))
      else if MAJOR dev = 5 then rd (\<lambda>s. \<not> t_tty (cur s) < 0)
      else ret True)"

definition sys_open :: "'a fs_scheme dev_env \<Rightarrow> u64 \<Rightarrow> u32 \<Rightarrow> u16 \<Rightarrow> ('a fs_scheme, int) act" where
  "sys_open E filename flag mode =
     bnd (rd (\<lambda>s. (mode AND (0x1FF AND NOT (t_umask (cur s))), first_index (\<lambda>f. f = 0) (t_filp (cur s))))) (\<lambda>(mode, fd).
     if fd \<ge> NR_OPEN then ret (- EINVAL)
     else thn (upd (upd_cur (clear_cloexec fd)))
       (bnd (rd (\<lambda>s. first_index (\<lambda>x. f_count x = 0) (file_table s))) (\<lambda>k.
        if k \<ge> NR_FILE then ret (- EINVAL)
        else let f = k + 1 in
          thn (acts [set_filp fd f, upd_file f (\<lambda>x. x\<lparr>f_count := f_count x + 1\<rparr>)])
          (bnd (open_namei E filename flag mode) (\<lambda>(r, p).
           if r < 0 then quit [set_filp fd 0, set_f_count 0 f] r
           else with_ino p (\<lambda>i.
             bnd (open_tty i) (\<lambda>ok.
             if \<not> ok then quit [iput E p, set_filp fd 0, set_f_count 0 f] (- EPERM)
             else with_ino p (\<lambda>i.
               quit [upd_file f (\<lambda>x. x\<lparr>f_mode := i_mode i, f_flags := ucast flag, f_count := 1, f_inode := p, f_pos := 0\<rparr>)]
                 (int fd))))))))) "

definition sys_creat :: "'a fs_scheme dev_env \<Rightarrow> u64 \<Rightarrow> u16 \<Rightarrow> ('a fs_scheme, int) act" where
  "sys_creat E pathname mode = sys_open E pathname (O_CREAT OR O_TRUNC) mode"

definition sys_close :: "'a fs_scheme dev_env \<Rightarrow> nat \<Rightarrow> ('a fs_scheme, int) act" where
  "sys_close E fd =
     (if fd \<ge> NR_OPEN then ret (- EINVAL)
      else thn (upd (upd_cur (clear_cloexec fd)))
        (bnd (rd (cur_filp fd)) (\<lambda>f.
         if f = 0 then ret (- EINVAL)
         else thn (set_filp fd 0)
           (with_file f (\<lambda>x.
            if f_count x = 0 then panic ''Close: file count is 0''
            else thn (upd_file f (\<lambda>x. x\<lparr>f_count := f_count x - 1\<rparr>))
              (with_file f (\<lambda>x.
               if f_count x \<noteq> 0 then ret 0 else quit [iput E (f_inode x)] 0)))))))"

section \<open>Descriptors\<close>

definition dupfd :: "nat \<Rightarrow> nat \<Rightarrow> ('a fs_scheme, int) act" where
  "dupfd fd arg =
     bnd (rd (cur_filp fd)) (\<lambda>f.
     if f = 0 then ret (- EBADF)
     else if arg \<ge> NR_OPEN then ret (- EINVAL)
     else bnd (rd (\<lambda>s. arg + first_index (\<lambda>f. f = 0) (drop arg (t_filp (cur s))))) (\<lambda>arg.
       if arg \<ge> NR_OPEN then ret (- EMFILE)
       else quit [upd (upd_cur (clear_cloexec arg)),
                  set_filp arg f,
                  upd_file f (\<lambda>x. x\<lparr>f_count := f_count x + 1\<rparr>)] (int arg)))"

definition sys_dup2 :: "'a fs_scheme dev_env \<Rightarrow> nat \<Rightarrow> nat \<Rightarrow> ('a fs_scheme, int) act" where
  "sys_dup2 E oldfd newfd = thn (sys_close E newfd) (dupfd oldfd newfd)"

definition sys_dup :: "nat \<Rightarrow> ('a fs_scheme, int) act" where
  "sys_dup fildes = dupfd fildes 0"

definition sys_fcntl :: "nat \<Rightarrow> nat \<Rightarrow> u64 \<Rightarrow> ('a fs_scheme, int) act" where
  "sys_fcntl fd cmd arg =
     bnd (rd (cur_filp fd)) (\<lambda>f.
     if f = 0 then ret (- EBADF)
     else if cmd = 0 \<comment> \<open>F_DUPFD\<close> then dupfd fd (unat (ucast arg :: u32))
     else if cmd = 1 \<comment> \<open>F_GETFD\<close> then rd (\<lambda>s. uint (drop_bit fd (t_close_on_exec (cur s)) AND 1))
     else if cmd = 2 \<comment> \<open>F_SETFD\<close>
     then quit [upd (upd_cur (\<lambda>t. if arg AND 1 \<noteq> 0
                  then t\<lparr>t_close_on_exec := t_close_on_exec t OR push_bit fd 1\<rparr> else clear_cloexec fd t))] 0
     else if cmd = 3 \<comment> \<open>F_GETFL\<close> then rd_file f (\<lambda>x. uint (f_flags x))
     else if cmd = 4 \<comment> \<open>F_SETFL\<close>
     then quit [upd_file f (\<lambda>x. x\<lparr>f_flags := (f_flags x AND NOT 0xC00) OR (ucast arg AND 0xC00)\<rparr>)] 0
     else ret (-1))"

section \<open>Status\<close>

text \<open>\<open>struct stat\<close> has 48 bytes, padding at 7, 11, 14 and 15.\<close>

definition stat_bytes :: "(nat \<Rightarrow> u8) \<Rightarrow> m_inode \<Rightarrow> u8 list" where
  "stat_bytes junk i =
     bytes_of 2 (ucast (i_dev i)) @ bytes_of 2 (ucast (i_num i)) @ bytes_of 2 (ucast (i_mode i)) @ [i_nlinks i, junk 7] @
     bytes_of 2 (ucast (i_uid i)) @ [i_gid i, junk 11] @ bytes_of 2 (ucast (i_zone i ! 0)) @ [junk 14, junk 15] @
     bytes_of 8 (i_size i) @ bytes_of 8 (i_atime i) @ bytes_of 8 (i_mtime i) @ bytes_of 8 (i_ctime i)"

definition cp_stat :: "(nat \<Rightarrow> u8) \<Rightarrow> nat \<Rightarrow> u64 \<Rightarrow> ('a fs_scheme, int) act" where
  "cp_stat junk p statbuf =
     thn (verify_area statbuf 48) (with_ino p (\<lambda>i. quit [upd (put_fs_bytes (stat_bytes junk i) statbuf)] 0))"

definition sys_stat :: "'a fs_scheme dev_env \<Rightarrow> (nat \<Rightarrow> u8) \<Rightarrow> u64 \<Rightarrow> u64 \<Rightarrow> ('a fs_scheme, int) act" where
  "sys_stat E junk filename statbuf =
     bnd (namei E filename) (\<lambda>p.
     if p = 0 then ret (- ENOENT)
     else bnd (cp_stat junk p statbuf) (\<lambda>r. quit [iput E p] r))"

definition sys_fstat :: "(nat \<Rightarrow> u8) \<Rightarrow> nat \<Rightarrow> u64 \<Rightarrow> ('a fs_scheme, int) act" where
  "sys_fstat junk fd statbuf =
     bnd (rd (cur_filp fd)) (\<lambda>f.
     if f = 0 then ret (- ENOENT)
     else with_file f (\<lambda>x. if f_inode x = 0 then ret (- ENOENT) else cp_stat junk (f_inode x) statbuf))"

section \<open>Device control\<close>

definition sys_ioctl :: "u8 \<Rightarrow> nat \<Rightarrow> int \<Rightarrow> int \<Rightarrow> ('a fs_scheme, int) act" where
  "sys_ioctl junk fd cmd arg =
     bnd (rd (cur_filp fd)) (\<lambda>f.
     if f = 0 then ret (- EBADF)
     else with_file f (\<lambda>x. with_ino (f_inode x) (\<lambda>i.
       let dev = uint (i_zone i ! 0) in
       if \<not> S_ISCHR (i_mode i) \<and> \<not> S_ISBLK (i_mode i) then ret (- EINVAL)
       else if MAJOR dev \<ge> 8 then panic ''unknown device for ioctl''
       else if MAJOR dev = 4 \<or> MAJOR dev = 5 then tty_ioctl junk dev cmd arg
       else ret (- ENOTTY))))"

end
