(* ===== verification/Shell.thy ===== *)
theory Shell
  imports Open Traps Mktime
begin

text \<open>
  Start of the kernel and the built-in shell: \<open>src/init/main.c\<close> (\<open>time_init\<close> is in \<open>Mktime\<close>). The
  serial port is part of the environment: \<open>e_in\<close> and \<open>e_out\<close> say what its registers return and
  how it reacts. A C string is the list of its bytes, the zero at the end included; loops that poll
  the port have fuel.
\<close>

section \<open>The serial port\<close>

abbreviation SERIAL_PORT :: u16 where "SERIAL_PORT \<equiv> 0x3f8"

definition cstr :: "string \<Rightarrow> u8 list" where
  "cstr x = map of_char x @ [0]"

definition early_serial_init :: "'a fs_scheme dev_env \<Rightarrow> ('a fs_scheme, unit) act" where
  "early_serial_init E =
     acts [hd_outb E 0x00 (SERIAL_PORT + 1), hd_outb E 0x80 (SERIAL_PORT + 3), hd_outb E 0x01 (SERIAL_PORT + 0),
           hd_outb E 0x00 (SERIAL_PORT + 1), hd_outb E 0x03 (SERIAL_PORT + 3), hd_outb E 0xC7 (SERIAL_PORT + 2),
           hd_outb E 0x0B (SERIAL_PORT + 4)]"

fun wait_sent :: "nat \<Rightarrow> 'a fs_scheme dev_env \<Rightarrow> ('a fs_scheme, unit) act" where
  "wait_sent 0 E = stop Diverge"
| "wait_sent (Suc n) E = bnd (hd_inb E (SERIAL_PORT + 5)) (\<lambda>v. if has_bits v 0x20 then ret () else wait_sent n E)"

definition early_serial_putc :: "'a fs_scheme dev_env \<Rightarrow> u8 \<Rightarrow> ('a fs_scheme, unit) act" where
  "early_serial_putc E c = thn (wait_sent (e_fuel E) E) (hd_outb E c SERIAL_PORT)"

fun early_serial_puts :: "'a fs_scheme dev_env \<Rightarrow> u8 list \<Rightarrow> ('a fs_scheme, unit) act" where
  "early_serial_puts E [] = stop Fault"
| "early_serial_puts E (c # x) =
     (if c = 0 then ret ()
      else thn (onlyif (c = 0x0A) (early_serial_putc E 0x0D))
           (thn (early_serial_putc E c) (early_serial_puts E x)))"

definition shell_putc :: "'a fs_scheme dev_env \<Rightarrow> u8 \<Rightarrow> ('a fs_scheme, unit) act" where
  "shell_putc E c = early_serial_putc E c"

definition shell_puts :: "'a fs_scheme dev_env \<Rightarrow> u8 list \<Rightarrow> ('a fs_scheme, unit) act" where
  "shell_puts E x = early_serial_puts E x"

definition serial_data_ready :: "'a fs_scheme dev_env \<Rightarrow> ('a fs_scheme, bool) act" where
  "serial_data_ready E = bnd (hd_inb E (SERIAL_PORT + 5)) (\<lambda>v. ret (has_bits v 0x01))"

fun getc_loop :: "nat \<Rightarrow> 'a fs_scheme dev_env \<Rightarrow> ('a fs_scheme, u8) act" where
  "getc_loop 0 E = stop Diverge"
| "getc_loop (Suc n) E = bnd (serial_data_ready E) (\<lambda>b. if b then hd_inb E SERIAL_PORT else getc_loop n E)"

definition shell_getc :: "'a fs_scheme dev_env \<Rightarrow> ('a fs_scheme, u8) act" where
  "shell_getc E = getc_loop (e_fuel E) E"

fun flush_loop :: "nat \<Rightarrow> 'a fs_scheme dev_env \<Rightarrow> ('a fs_scheme, unit) act" where
  "flush_loop 0 E = stop Diverge"
| "flush_loop (Suc n) E =
     bnd (hd_inb E (SERIAL_PORT + 5)) (\<lambda>v.
     if has_bits v 0x01 then thn (hd_inb E SERIAL_PORT) (flush_loop n E) else ret ())"

definition flush_input :: "'a fs_scheme dev_env \<Rightarrow> ('a fs_scheme, unit) act" where
  "flush_input E = flush_loop (e_fuel E) E"

section \<open>Comparing strings\<close>

text \<open>\<open>None\<close> is a read past the end of a string without a zero.\<close>

fun shell_strcmp :: "u8 list \<Rightarrow> u8 list \<Rightarrow> int option" where
  "shell_strcmp (a # x) (b # y) = (if a \<noteq> 0 \<and> a = b then shell_strcmp x y else Some (sint a - sint b))"
| "shell_strcmp x y = None"

fun shell_strncmp :: "u8 list \<Rightarrow> u8 list \<Rightarrow> nat \<Rightarrow> int option" where
  "shell_strncmp x y 0 = Some 0"
| "shell_strncmp (a # x) (b # y) (Suc n) = (if a \<noteq> 0 \<and> a = b then shell_strncmp x y n else Some (sint a - sint b))"
| "shell_strncmp x y (Suc n) = None"

section \<open>Commands\<close>

record shell = fs +
  cmd_buf :: "u8 list"
  cmd_pos :: nat
  idt_lost :: bool \<comment> \<open>\<open>lidt\<close> has loaded a null table\<close>

definition cmd_help :: "'a fs_scheme dev_env \<Rightarrow> ('a fs_scheme, unit) act" where
  "cmd_help E =
     acts (map (\<lambda>x. shell_puts E (cstr (x @ [CHR 0x0A])))
       [''Available commands:'',
        ''  help     - show this help'',
        ''  uname    - show system info'',
        ''  ps       - show processes'',
        ''  free     - show memory info'',
        ''  uptime   - show uptime'',
        ''  reboot   - reboot system''])"

definition cmd_uname :: "'a fs_scheme dev_env \<Rightarrow> ('a fs_scheme, unit) act" where
  "cmd_uname E = shell_puts E (cstr (''Linux 0.01 (64-bit port) x86_64'' @ [CHR 0x0A]))"

definition digit_of :: "int \<Rightarrow> u8" where
  "digit_of d = of_int (48 + d)"

definition state_char :: "int \<Rightarrow> u8" where
  "state_char st = (if st = 0 then of_char (CHR ''R'') else if st = 1 then of_char (CHR ''S'')
     else if st = 2 then of_char (CHR ''D'') else if st = 3 then of_char (CHR ''Z'') else of_char (CHR ''T''))"

definition ps_line :: "nat \<Rightarrow> task_struct \<Rightarrow> u8 list" where
  "ps_line i t =
     (let pid = int32 (t_pid t) in
      [digit_of (c_mod (c_div pid 10) 10), digit_of (c_mod pid 10)] @ map of_char ''   '' @
      [state_char (int32 (t_state t))] @ map of_char ''     '' @
      (if i = 0 then cstr ''idle'' else if i = 1 then cstr ''init''
       else map of_char ''task'' @ [of_int (48 + int i), 0]))"

definition cmd_ps :: "'a fs_scheme dev_env \<Rightarrow> ('a fs_scheme, unit) act" where
  "cmd_ps E =
     thn (shell_puts E (cstr (''PID  STATE  NAME'' @ [CHR 0x0A])))
     (acts (map (\<lambda>i. bnd (rd (\<lambda>s. (task s ! i, task_at s (task s ! i)))) (\<lambda>(p, t).
        onlyif (p \<noteq> 0) (thn (shell_puts E (ps_line i t)) (shell_puts E (cstr [CHR 0x0A]))))) [0..<NR_TASKS]))"

definition cmd_free :: "'a fs_scheme dev_env \<Rightarrow> ('a fs_scheme, unit) act" where
  "cmd_free E = shell_puts E (cstr (''Memory: 8MB total, 6MB usable (1536 pages)'' @ [CHR 0x0A]))"

definition uptime_line :: "int \<Rightarrow> u8 list" where
  "uptime_line j =
     (let secs = c_div j 100; mins = int32 (c_div secs 60); secs = c_mod secs 60 in
      map of_char ''Up '' @
      [digit_of (c_mod (c_div mins 10) 10), digit_of (c_mod mins 10), of_char (CHR '':''),
       digit_of (c_mod (c_div secs 10) 10), digit_of (c_mod secs 10), 0x0A, 0])"

definition cmd_uptime :: "'a fs_scheme dev_env \<Rightarrow> ('a fs_scheme, unit) act" where
  "cmd_uptime E = bnd (rd jiffies) (\<lambda>j. shell_puts E (uptime_line j))"

definition cmd_reboot :: "'a shell_scheme dev_env \<Rightarrow> ('a shell_scheme, unit) act" where
  "cmd_reboot E = thn (shell_puts E (cstr (''Rebooting...'' @ [CHR 0x0A]))) (upd (\<lambda>s. s\<lparr>idt_lost := True\<rparr>))"

definition unknown_command :: "'a shell_scheme dev_env \<Rightarrow> ('a shell_scheme, unit) act" where
  "unknown_command E =
     acts [shell_puts E (cstr ''Unknown command: ''), bnd (rd cmd_buf) (shell_puts E),
           shell_puts E (cstr ([CHR 0x0A] @ ''Type '' @ [CHR 0x27] @ ''help'' @ [CHR 0x27] @ '' for available commands.'' @ [CHR 0x0A]))]"

text \<open>The commands in the order in which they are compared.\<close>

definition commands :: "'a shell_scheme dev_env \<Rightarrow> (string \<times> ('a shell_scheme, unit) act) list" where
  "commands E =
     [(''help'', cmd_help E), (''uname'', cmd_uname E), (''uname -a'', cmd_uname E), (''ps'', cmd_ps E),
      (''free'', cmd_free E), (''uptime'', cmd_uptime E), (''reboot'', cmd_reboot E)]"

fun run_command :: "(string \<times> ('s, unit) act) list \<Rightarrow> u8 list \<Rightarrow> ('s, unit) act \<Rightarrow> ('s, unit) act" where
  "run_command [] x other = other"
| "run_command ((n, f) # cs) x other =
     (case shell_strcmp x (cstr n) of
        None \<Rightarrow> stop Fault
      | Some d \<Rightarrow> if d = 0 then f else run_command cs x other)"

definition put_cmd :: "nat \<Rightarrow> u8 \<Rightarrow> ('a shell_scheme, unit) act" where
  "put_cmd i c s = (if i < length (cmd_buf s) then Inr ((), s\<lparr>cmd_buf := (cmd_buf s)[i := c]\<rparr>) else Inl Fault)"

definition process_command :: "'a shell_scheme dev_env \<Rightarrow> ('a shell_scheme, unit) act" where
  "process_command E =
     bnd (rd cmd_pos) (\<lambda>p.
     thn (put_cmd p 0)
     (if p = 0 then ret ()
      else bnd (rd cmd_buf) (\<lambda>x. run_command (commands E) x (unknown_command E))))"

section \<open>The shell\<close>

text \<open>A key; the result tells whether the line has ended.\<close>

definition shell_key :: "'a shell_scheme dev_env \<Rightarrow> u8 \<Rightarrow> ('a shell_scheme, bool) act" where
  "shell_key E c =
     (if c = 0x0D \<or> c = 0x0A
      then thn (shell_puts E (cstr [CHR 0x0A])) (thn (process_command E) (ret True))
      else if c = 127 \<or> c = 8
      then bnd (rd cmd_pos) (\<lambda>p.
        thn (onlyif (p > 0)
          (thn (upd (\<lambda>s. s\<lparr>cmd_pos := p - 1\<rparr>)) (shell_puts E (cstr [CHR 0x08, CHR '' '', CHR 0x08]))))
        (ret False))
      else bnd (rd cmd_pos) (\<lambda>p.
        thn (onlyif (c \<ge> 32 \<and> c < 127 \<and> p < 255)
          (acts [put_cmd p c, upd (\<lambda>s. s\<lparr>cmd_pos := p + 1\<rparr>), shell_putc E c]))
        (ret False)))"

fun line_loop :: "nat \<Rightarrow> 'a shell_scheme dev_env \<Rightarrow> ('a shell_scheme, unit) act" where
  "line_loop 0 E = stop Diverge"
| "line_loop (Suc n) E = bnd (shell_getc E) (\<lambda>c. bnd (shell_key E c) (\<lambda>e. if e then ret () else line_loop n E))"

definition shell_line :: "'a shell_scheme dev_env \<Rightarrow> ('a shell_scheme, unit) act" where
  "shell_line E =
     thn (shell_puts E (cstr ''# '')) (thn (upd (\<lambda>s. s\<lparr>cmd_pos := 0\<rparr>)) (line_loop (e_fuel E) E))"

fun shell_loop :: "nat \<Rightarrow> 'a shell_scheme dev_env \<Rightarrow> ('a shell_scheme, unit) act" where
  "shell_loop 0 E = stop Diverge"
| "shell_loop (Suc n) E = thn (shell_line E) (shell_loop n E)"

definition builtin_shell :: "'a shell_scheme dev_env \<Rightarrow> ('a shell_scheme, unit) act" where
  "builtin_shell E =
     thn (flush_input E)
     (thn (acts (map (\<lambda>x. shell_puts E (cstr (x @ [CHR 0x0A])))
        [[], ''===================================='', ''  Linux 0.01 - 64-bit Port Shell'',
         ''===================================='',
         ''Type '' @ [CHR 0x27] @ ''help'' @ [CHR 0x27] @ '' for available commands.'' @ [CHR 0x0A]]))
      (shell_loop (e_fuel E) E))"

section \<open>main\<close>

text \<open>What the linker, the boot code and the clock chip provide.\<close>

record boot_info =
  bi_rs1 :: u64
  bi_rs2 :: u64
  bi_keyboard :: u64
  bi_cursor_x :: u8
  bi_cursor_y :: u8
  bi_traps :: "trap_entry \<Rightarrow> u64"
  bi_tss :: u64
  bi_ldt :: u64
  bi_timer :: u64
  bi_system_call :: u64
  bi_hd :: u64
  bi_cmos :: "nat \<Rightarrow> nat \<Rightarrow> u8"
  bi_junk :: "nat \<Rightarrow> buffer_head" \<comment> \<open>what is in memory where the buffer heads go\<close>

definition set_time :: "'a fs_scheme dev_env \<Rightarrow> (nat \<Rightarrow> nat \<Rightarrow> u8) \<Rightarrow> ('a fs_scheme, unit) act" where
  "set_time E cmos =
     (case time_init (e_fuel E) cmos of
        Inl Diverge \<Rightarrow> stop Diverge
      | Inl _ \<Rightarrow> stop Fault
      | Inr t \<Rightarrow> upd (\<lambda>s. s\<lparr>startup_time := t\<rparr>))"

definition init :: "'a shell_scheme dev_env \<Rightarrow> ('a shell_scheme, unit) act" where
  "init E = thn (builtin_shell E) (stop Diverge)"

definition kernel_main :: "'a shell_scheme dev_env \<Rightarrow> boot_info \<Rightarrow> ('a shell_scheme, unit) act" where
  "kernel_main E bi =
     acts [early_serial_init E,
           early_serial_puts E (cstr (''Linux 0.01 (64-bit) starting...'' @ [CHR 0x0A])),
           set_time E (bi_cmos bi),
           upd (tty_init (e_inb E) (bi_rs1 bi) (bi_rs2 bi) (bi_keyboard bi) (bi_cursor_x bi) (bi_cursor_y bi)),
           upd (trap_init (bi_traps bi)),
           upd (sched_init (bi_tss bi) (bi_ldt bi) (bi_timer bi) (bi_system_call bi) (e_inb E)),
           buffer_init (bi_junk bi),
           upd (hd_init (e_inb E) (bi_hd bi)),
           early_serial_puts E (cstr (''Initialization complete.'' @ [CHR 0x0A])),
           init E]"

end
