(* ===== verification/Process.thy ===== *)
theory Process
  imports Open
begin

text \<open>
  The life of a process: \<open>src/kernel/exit.c\<close> and \<open>src/kernel/fork.c\<close> (\<open>verify_area\<close> is in
  \<open>Sys_Calls\<close>).
\<close>

section \<open>Signals\<close>

definition send_sig :: "int \<Rightarrow> u64 \<Rightarrow> bool \<Rightarrow> 'a sched_scheme \<Rightarrow> 'a sched_scheme" where
  "send_sig sig p priv s =
     (if p = 0 \<or> sig < 1 \<or> sig > 32 then s
      else let c = cur s; t = task_at s p in
        if priv \<or> t_uid c = t_uid t \<or> t_euid c = t_uid t \<or> t_uid c = t_euid t \<or> t_euid c = t_euid t
        then upd_task p (raise_sig (nat sig)) s else s)"

definition kill_matches :: "int \<Rightarrow> 'a sched_scheme \<Rightarrow> u64 \<Rightarrow> bool" where
  "kill_matches pid s p \<longleftrightarrow>
     (if pid = 0 then p \<noteq> 0 \<and> t_pgrp (task_at s p) = t_pid (cur s)
      else if pid > 0 then p \<noteq> 0 \<and> t_pid (task_at s p) = pid
      else if pid = -1 then True
      else p \<noteq> 0 \<and> t_pgrp (task_at s p) = - pid)"

definition do_kill :: "int \<Rightarrow> int \<Rightarrow> bool \<Rightarrow> 'a sched_scheme \<Rightarrow> 'a sched_scheme" where
  "do_kill pid sig priv s =
     fold (\<lambda>i s. if kill_matches pid s (task s ! i) then send_sig sig (task s ! i) priv s else s) slots_down s"

definition sys_kill :: "int \<Rightarrow> int \<Rightarrow> ('a sched_scheme, int) act" where
  "sys_kill pid sig s =
     Inr (0, do_kill pid sig (\<not> (t_uid (cur s) \<noteq> 0 \<or> t_euid (cur s) \<noteq> 0)) s)"

section \<open>Exit\<close>

definition release :: "('a sched_scheme \<Rightarrow> 'a sched_scheme) \<Rightarrow> u64 \<Rightarrow> ('a sched_scheme, unit) act" where
  "release run p =
     (if p = 0 then ret ()
      else bnd (rd (\<lambda>s. first_index (\<lambda>q. q = p) (drop 1 (task s)) + 1)) (\<lambda>i.
        if i < NR_TASKS
        then acts [upd (\<lambda>s. s\<lparr>task := (task s)[i := 0]\<rparr>), free_page p, schedule run]
        else panic ''trying to release non-existent task''))"

definition orphan :: "int \<Rightarrow> 'a sched_scheme \<Rightarrow> 'a sched_scheme" where
  "orphan pid s =
     fold (\<lambda>i s. if task s ! i \<noteq> 0 \<and> t_father (task_at s (task s ! i)) = pid
                  then upd_task (task s ! i) (\<lambda>t. t\<lparr>t_father := 0\<rparr>) s else s) [0..<NR_TASKS] s"

definition close_all :: "'a fs_scheme dev_env \<Rightarrow> ('a fs_scheme, unit) act" where
  "close_all E =
     acts (map (\<lambda>i. bnd (rd (cur_filp i)) (\<lambda>f. onlyif (f \<noteq> 0) (thn (sys_close E i) (ret ())))) [0..<NR_OPEN])"

definition do_exit :: "'a fs_scheme dev_env \<Rightarrow> int \<Rightarrow> ('a fs_scheme, int) act" where
  "do_exit E code =
     thn (acts
       [\<lambda>s. thn (free_page_tables (get_base (t_ldt (cur s) ! 1)) (get_limit 0x0f s)) (ret ()) s,
        \<lambda>s. thn (free_page_tables (get_base (t_ldt (cur s) ! 2)) (get_limit 0x17 s)) (ret ()) s,
        upd (\<lambda>s. orphan (t_pid (cur s)) s),
        close_all E,
        bnd (rd (\<lambda>s. t_pwd (cur s))) (iput E),
        upd (upd_cur (\<lambda>t. t\<lparr>t_pwd := 0\<rparr>)),
        bnd (rd (\<lambda>s. t_root (cur s))) (iput E),
        upd (upd_cur (\<lambda>t. t\<lparr>t_root := 0\<rparr>)),
        bnd (rd cur) (\<lambda>t. onlyif (t_leader t \<noteq> 0 \<and> t_tty t \<ge> 0)
          (\<lambda>s. if nat (t_tty t) < length (tty_table s)
               then Inr ((), upd_tty (nat (t_tty t)) (\<lambda>x. x\<lparr>tt_pgrp := 0\<rparr>) s) else Inl Fault)),
        upd (\<lambda>s. if last_task_used_math s = current s then s\<lparr>last_task_used_math := 0\<rparr> else s),
        bnd (rd cur) (\<lambda>t. if t_father t \<noteq> 0
          then acts [upd (upd_cur (\<lambda>t. t\<lparr>t_state := TASK_ZOMBIE\<rparr>)),
                     upd (do_kill (t_father t) (int SIGCHLD) True),
                     upd (upd_cur (\<lambda>t. t\<lparr>t_exit_code := int32 code\<rparr>))]
          else bnd (rd current) (release (e_run E))),
        schedule (e_run E)])
     (ret (-1))"

definition sys_exit :: "'a fs_scheme dev_env \<Rightarrow> int \<Rightarrow> ('a fs_scheme, int) act" where
  "sys_exit E error_code = do_exit E ((error_code mod 256) * 256)"

section \<open>Waiting for children\<close>

definition wait_matches :: "int \<Rightarrow> 'a sched_scheme \<Rightarrow> u64 \<Rightarrow> bool" where
  "wait_matches pid s p \<longleftrightarrow>
     p \<noteq> 0 \<and> p \<noteq> current s \<and>
     (pid = -1 \<or> t_pid (task_at s p) = pid \<or> (pid = 0 \<and> t_pgrp (task_at s p) = t_pgrp (cur s)) \<or>
      (pid < 0 \<and> t_pgrp (task_at s p) = - pid)) \<and>
     t_father (task_at s p) = t_pid (cur s)"

definition reap :: "('a sched_scheme \<Rightarrow> 'a sched_scheme) \<Rightarrow> u64 \<Rightarrow> u64 \<Rightarrow> ('a sched_scheme, int) act" where
  "reap run stat_addr p =
     bnd (rd (\<lambda>s. task_at s p)) (\<lambda>t.
     quit [upd (put_fs_long (of_int (t_exit_code t)) stat_addr),
           upd (upd_cur (\<lambda>c. c\<lparr>t_cutime := t_cutime c + t_utime t, t_cstime := t_cstime c + t_stime t\<rparr>)),
           release run p] (int32 (t_pid t)))"

fun wait_loop :: "nat \<Rightarrow> ('a sched_scheme \<Rightarrow> 'a sched_scheme) \<Rightarrow> int \<Rightarrow> u64 \<Rightarrow> u32 \<Rightarrow> bool \<Rightarrow> ('a sched_scheme, int) act" where
  "wait_loop 0 run pid stat_addr options flag = stop Diverge"
| "wait_loop (Suc n) run pid stat_addr options flag =
     bnd (rd (\<lambda>s. filter (wait_matches pid s) (map (\<lambda>i. task s ! i) slots_down))) (\<lambda>children.
     bnd (rd (\<lambda>s. List.find (\<lambda>p. t_state (task_at s p) = TASK_ZOMBIE) children)) (\<lambda>zombie.
     case zombie of
       Some p \<Rightarrow> reap run stat_addr p
     | None \<Rightarrow>
         let flag = (flag \<or> children \<noteq> []) in
         if \<not> flag then ret (- ECHILD)
         else if has_bits options 1 then ret 0
         else thn (sys_pause run)
           (thn (upd (upd_cur (\<lambda>t. t\<lparr>t_signal := t_signal t AND NOT (sig_bit SIGCHLD)\<rparr>)))
            (bnd (rd (\<lambda>s. t_signal (cur s))) (\<lambda>sg.
             if sg = 0 then wait_loop n run pid stat_addr options flag else ret (- EINTR))))))"

definition sys_waitpid :: "('a sched_scheme, 'e) env_scheme \<Rightarrow> int \<Rightarrow> u64 \<Rightarrow> u32 \<Rightarrow> ('a sched_scheme, int) act" where
  "sys_waitpid E pid stat_addr options =
     thn (verify_area stat_addr 4) (wait_loop (e_fuel E) (e_run E) pid stat_addr options False)"

section \<open>Fork\<close>

definition copy_mem :: "nat \<Rightarrow> u64 \<Rightarrow> ('a sched_scheme, int) act" where
  "copy_mem nr p s =
     (let code_limit = get_limit 0x0f s; data_limit = get_limit 0x17 s;
          old_code_base = get_base (t_ldt (cur s) ! 1); old_data_base = get_base (t_ldt (cur s) ! 2) in
      if old_data_base \<noteq> old_code_base then Inl (Panic ''We don't support separate I&D'')
      else if data_limit < code_limit then Inl (Panic ''Bad data_limit'')
      else bindE (c_int (int nr * 0x4000000)) (\<lambda>base.
        let new = of_int base :: u64;
            s = upd_task p (\<lambda>t. t\<lparr>t_ldt := (t_ldt t)[1 := set_base (t_ldt t ! 1) new]\<rparr>) s;
            s = upd_task p (\<lambda>t. t\<lparr>t_ldt := (t_ldt t)[2 := set_base (t_ldt t ! 2) new]\<rparr>) s in
        bindE (copy_page_tables old_data_base new data_limit s) (\<lambda>(r, s).
        if r \<noteq> 0 then bindE (free_page_tables new data_limit s) (\<lambda>(_, s). Inr (- ENOMEM, s))
        else Inr (0, s))))"

text \<open>The registers the system call entry has saved.\<close>

record regs =
  g_rbp :: u64
  g_rdi :: u64
  g_rsi :: u64
  g_gs :: u64
  g_rbx :: u64
  g_rcx :: u64
  g_rdx :: u64
  g_fs :: u64
  g_es :: u64
  g_ds :: u64
  g_rip :: u64
  g_cs :: u64
  g_rflags :: u64
  g_rsp :: u64
  g_ss :: u64

text \<open>
  \<open>*p = *current\<close>: the named fields, and the words of \<open>kernel_stack\<close>, which begins at offset 1264
  of a structure of 9456 bytes.
\<close>

definition copy_task :: "u64 \<Rightarrow> 'a sched_scheme \<Rightarrow> 'a sched_scheme" where
  "copy_task p s =
     fold (\<lambda>k s. write_q (p + 8 * of_nat k) (qmem s (current s + 8 * of_nat k)) s) [158..<1182]
       (upd_task p (\<lambda>_. cur s) s)"

definition child_task :: "int \<Rightarrow> int \<Rightarrow> int \<Rightarrow> task_struct \<Rightarrow> task_struct" where
  "child_task pid father start t =
     t\<lparr>t_state := TASK_UNINTERRUPTIBLE, t_pid := pid, t_father := father, t_counter := t_priority t, t_signal := 0,
       t_alarm := 0, t_leader := 0, t_utime := 0, t_stime := 0, t_cutime := 0, t_cstime := 0, t_start_time := start\<rparr>"

text \<open>The words pushed on the stack of the child, the first at the top of its page.\<close>

definition child_stack :: "regs \<Rightarrow> u64 \<Rightarrow> u64 list" where
  "child_stack r ret_from_fork =
     [g_ss r, g_rsp r, g_rflags r, g_cs r, g_rip r,
      0, 0, 0, 0, 0, 0, 0, 0, g_rbp r, g_rsi r, g_rdi r, g_rdx r, g_rcx r, g_rbx r, 0,
      g_gs r, g_fs r, g_es r, g_ds r, ret_from_fork]"

definition push_all :: "u64 list \<Rightarrow> u64 \<Rightarrow> 'a sched_scheme \<Rightarrow> 'a sched_scheme" where
  "push_all ws tp s = fold (\<lambda>(k, w). write_q (tp - 8 * of_nat k) w) (List.enumerate 1 ws) s"

definition copy_process :: "nat \<Rightarrow> regs \<Rightarrow> u64 \<Rightarrow> ('a fs_scheme, int) act" where
  "copy_process nr r ret_from_fork =
     bnd (\<lambda>s. Inr (get_free_page s)) (\<lambda>p.
     if p = 0 then ret (- EAGAIN)
     else thn (acts
         [upd (copy_task p),
          upd (\<lambda>s. upd_task p (child_task (sint (last_pid s)) (t_pid (cur s)) (jiffies s)) s),
          upd (push_all (child_stack r ret_from_fork) (p + PAGE_SIZE)),
          upd (upd_task p (\<lambda>t. t\<lparr>t_thread := (t_thread t)\<lparr>th_rsp := p + PAGE_SIZE - 8 * 25, th_rbx := g_rbx r,
                th_rbp := g_rbp r, th_r12 := 0, th_r13 := 0, th_r14 := 0, th_r15 := 0, th_fs := g_fs r, th_gs := g_gs r\<rparr>\<rparr>)),
          upd (\<lambda>s. if last_task_used_math s = current s then upd_task p (\<lambda>t. t\<lparr>t_i387 := fpu s\<rparr>) s else s)])
       (bnd (copy_mem nr p) (\<lambda>e.
        if e \<noteq> 0 then quit [free_page p] (- EAGAIN)
        else bnd (rd (\<lambda>s. (t_filp (task_at s p), t_pwd (cur s), t_root (cur s)))) (\<lambda>(fs, pwd, root).
          thn (acts
            [acts (map (\<lambda>f. onlyif (f \<noteq> 0) (upd_file f (\<lambda>x. x\<lparr>f_count := f_count x + 1\<rparr>))) fs),
             onlyif (pwd \<noteq> 0) (upd_ino pwd (\<lambda>i. i\<lparr>i_count := i_count i + 1\<rparr>)),
             onlyif (root \<noteq> 0) (upd_ino root (\<lambda>i. i\<lparr>i_count := i_count i + 1\<rparr>)),
             upd (set_ldt_desc (nr * 2 + FIRST_LDT_ENTRY) (p + of_nat (offsetof task_fields F_LDT))),
             upd (set_state TASK_RUNNING p),
             upd (\<lambda>s. s\<lparr>task := (task s)[nr := p]\<rparr>)])
          (rd (\<lambda>s. int32 (sint (last_pid s))))))))"

text \<open>The search for an unused process id: \<open>pids\<close> are the ids in use.\<close>

definition next_pid :: "u64 \<Rightarrow> u64" where
  "next_pid l = (if sint (l + 1) < 0 then 1 else l + 1)"

partial_function (option) pid_loop :: "int set \<Rightarrow> u64 \<Rightarrow> u64 option" where
  [code]: "pid_loop pids l =
     (let l = next_pid l in if sint l \<in> pids then pid_loop pids l else Some l)"

definition pids_in_use :: "'a sched_scheme \<Rightarrow> int set" where
  "pids_in_use s = set (map (\<lambda>p. t_pid (task_at s p)) (filter (\<lambda>p. p \<noteq> 0) (task s)))"

definition find_empty_process :: "('a sched_scheme, int) act" where
  "find_empty_process s =
     (case pid_loop (pids_in_use s) (last_pid s) of
        None \<Rightarrow> Inl Diverge
      | Some l \<Rightarrow>
          let s = s\<lparr>last_pid := l\<rparr>; i = first_index (\<lambda>p. p = 0) (drop 1 (task s)) + 1 in
          Inr (if i < NR_TASKS then int i else - EAGAIN, s))"

end
