(* ===== verification/Exec.thy ===== *)
theory Exec
  imports Process
begin

text \<open>
  Executing a program: \<open>src/fs/exec.c\<close>. The frame \<open>eip\<close> points to is on the kernel stack; strings and
  pointer tables of the old and the new program are in user memory. Loops over user strings take
  fuel, since nothing bounds them.
\<close>

section \<open>Loading\<close>

definition cp_block :: "block \<Rightarrow> u64 \<Rightarrow> 'a sched_scheme \<Rightarrow> 'a sched_scheme" where
  "cp_block from to = put_fs_bytes (map from [0..<BLOCK_SIZE]) to"

text \<open>Copy a block of the device to user memory; \<open>False\<close> if it cannot be read.\<close>

definition load_block :: "'a fs_scheme dev_env \<Rightarrow> int \<Rightarrow> int \<Rightarrow> u64 \<Rightarrow> ('a fs_scheme, bool) act" where
  "load_block E dev block to =
     bnd (bread E dev block) (\<lambda>bh.
     if bh = 0 then ret False
     else with_buf bh (\<lambda>b. quit [upd (cp_block (b_data b) to), brelse E bh] True))"

fun head_loop :: "nat \<Rightarrow> 'a fs_scheme dev_env \<Rightarrow> nat \<Rightarrow> nat \<Rightarrow> ('a fs_scheme, int) act" where
  "head_loop 0 E p count = ret 0"
| "head_loop (Suc n) E p count =
     with_ino p (\<lambda>i.
     let z = i_zone i ! (count + 1) in
     if z = 0 then head_loop n E p (count + 1)
     else bnd (load_block E (uint (i_dev i)) (uint z) (of_nat (count * BLOCK_SIZE))) (\<lambda>ok.
       if \<not> ok then ret (-1) else head_loop n E p (count + 1)))"

definition read_head :: "'a fs_scheme dev_env \<Rightarrow> nat \<Rightarrow> int \<Rightarrow> ('a fs_scheme, int) act" where
  "read_head E p blocks = head_loop (nat (min blocks 6)) E p 0"

function ind_loop :: "'a fs_scheme dev_env \<Rightarrow> int \<Rightarrow> nat \<Rightarrow> nat \<Rightarrow> int \<Rightarrow> u64 \<Rightarrow> ('a fs_scheme, int) act" where
  "ind_loop E dev ih k sz offset =
     (if sz \<le> 0 then quit [brelse E ih] 0
      else with_buf ih (\<lambda>b.
        let block = get16 (b_data b) (2 * k) in
        bnd (if block = 0 then ret True else load_block E dev (uint block) offset) (\<lambda>ok.
        if \<not> ok then quit [brelse E ih] (-1)
        else ind_loop E dev ih (k + 1) (sz - 1024) (offset + 1024))))"
  by pat_completeness auto
termination by (relation "measure (\<lambda>(_, _, _, _, sz, _). nat sz)") auto

declare ind_loop.simps [simp del]

definition read_ind :: "'a fs_scheme dev_env \<Rightarrow> int \<Rightarrow> int \<Rightarrow> int \<Rightarrow> u64 \<Rightarrow> ('a fs_scheme, int) act" where
  "read_ind E dev ind sz offset =
     (if sz \<le> 0 then panic ''size<=0 in read_ind''
      else if ind = 0 then ret 0
      else bnd (bread E dev ind) (\<lambda>ih.
        if ih = 0 then ret (-1) else ind_loop E dev ih 0 (min sz (512 * 1024)) offset))"

fun dind_loop :: "nat \<Rightarrow> 'a fs_scheme dev_env \<Rightarrow> nat \<Rightarrow> nat \<Rightarrow> nat \<Rightarrow> int \<Rightarrow> ('a fs_scheme, int) act" where
  "dind_loop 0 E p dind count sz = panic ''Impossibly long executable''"
| "dind_loop (Suc n) E p dind count sz =
     with_buf dind (\<lambda>b. with_ino p (\<lambda>i.
     bnd (read_ind E (uint (i_dev i)) (uint (get16 (b_data b) (2 * count))) sz (1024 * (518 + of_nat count))) (\<lambda>r.
     if r \<noteq> 0 \<or> sz - 512 * 1024 \<le> 0 then ret r
     else dind_loop n E p dind (count + 1) (sz - 512 * 1024))))"

definition read_area :: "'a fs_scheme dev_env \<Rightarrow> nat \<Rightarrow> int \<Rightarrow> ('a fs_scheme, int) act" where
  "read_area E p sz =
     bnd (read_head E p (int32 (c_div (sz + 1023) 1024))) (\<lambda>r.
     let sz = sz - 1024 * 6 in
     if r \<noteq> 0 \<or> sz \<le> 0 then ret r
     else with_ino p (\<lambda>i.
       bnd (read_ind E (uint (i_dev i)) (uint (i_zone i ! 7)) sz (1024 * 6)) (\<lambda>r.
       let sz = sz - 1024 * 512 in
       if r \<noteq> 0 \<or> sz \<le> 0 then ret r
       else with_ino p (\<lambda>i.
         if i_zone i ! 8 = 0 then ret 0
         else bnd (bread E (uint (i_dev i)) (uint (i_zone i ! 8))) (\<lambda>dind.
           if dind = 0 then ret (-1) else dind_loop 512 E p dind 0 sz)))))"

section \<open>Arguments\<close>

text \<open>The address after the zero that ends the string at \<open>a\<close>.\<close>

fun string_end :: "nat \<Rightarrow> u64 \<Rightarrow> ('a sched_scheme, u64) act" where
  "string_end 0 a = stop Diverge"
| "string_end (Suc n) a = bnd (rd (get_fs_byte a)) (\<lambda>c. if c = 0 then ret (a + 1) else string_end n (a + 1))"

text \<open>Enter \<open>n\<close> strings from \<open>p\<close> on into the table at \<open>tab\<close>; the end of the last string.\<close>

fun table_loop :: "nat \<Rightarrow> nat \<Rightarrow> u64 \<Rightarrow> u64 \<Rightarrow> ('a sched_scheme, u64) act" where
  "table_loop fuel 0 tab p = thn (upd (put_fs_long 0 tab)) (ret p)"
| "table_loop fuel (Suc n) tab p =
     thn (upd (put_fs_long p tab)) (bnd (string_end fuel p) (table_loop fuel n (tab + 8)))"

definition create_tables :: "nat \<Rightarrow> u64 \<Rightarrow> nat \<Rightarrow> nat \<Rightarrow> ('a sched_scheme, u64) act" where
  "create_tables fuel p argc envc =
     (let envp = (0xfffffffc AND p) - 8 * of_nat (envc + 1);
          argv = envp - 8 * of_nat (argc + 1) in
      thn (acts [upd (put_fs_long envp (argv - 8)),
                 upd (put_fs_long argv (argv - 16)),
                 upd (put_fs_long (of_nat argc) (argv - 24))])
      (bnd (table_loop fuel argc argv p) (\<lambda>p.
       thn (table_loop fuel envc envp p) (ret (argv - 24)))))"

fun count_loop :: "nat \<Rightarrow> u64 \<Rightarrow> nat \<Rightarrow> ('a sched_scheme, nat) act" where
  "count_loop 0 tmp i = stop Diverge"
| "count_loop (Suc n) tmp i = bnd (rd (get_fs_long tmp)) (\<lambda>v. if v = 0 then ret i else count_loop n (tmp + 8) (i + 1))"

definition count_args :: "nat \<Rightarrow> u64 \<Rightarrow> ('a sched_scheme, nat) act" where
  "count_args fuel argv = (if argv = 0 then ret 0 else count_loop fuel argv 0)"

abbreviation MAX_ARG_PAGES :: nat where "MAX_ARG_PAGES \<equiv> 32"

text \<open>
  Allocate the pages from \<open>i\<close> up to the first that exists. The result tells whether memory was
  enough; the pages are those allocated so far, in both cases.
\<close>

fun arg_pages :: "nat \<Rightarrow> nat \<Rightarrow> u64 list \<Rightarrow> ('a mm_scheme, bool \<times> u64 list) act" where
  "arg_pages 0 i pg = ret (True, pg)"
| "arg_pages (Suc n) i pg =
     (if i < MAX_ARG_PAGES \<and> pg ! i = 0
      then bnd (\<lambda>s. Inr (get_free_page s)) (\<lambda>q. if q = 0 then ret (False, pg) else arg_pages n (i + 1) (pg[i := q]))
      else ret (True, pg))"

text \<open>Copy \<open>n\<close> bytes backwards, from the one before \<open>src\<close>, to the ones before position \<open>p\<close>.\<close>

fun copy_down :: "nat \<Rightarrow> u64 \<Rightarrow> u64 \<Rightarrow> u64 list \<Rightarrow> ('a sched_scheme, u64) act" where
  "copy_down 0 src p pg = ret p"
| "copy_down (Suc n) src p pg =
     (let p = p - 1; src = src - 1; k = unat (p div 4096) in
      if k \<ge> MAX_ARG_PAGES then stop Fault
      else if pg ! k = 0 then panic ''nonexistent page in exec.c''
      else thn (upd (\<lambda>s. set_mem_byte (get_fs_byte src s) (pg ! k + p mod 4096) s)) (copy_down n src p pg))"

text \<open>
  The strings are copied last to first. The result is the new position and the pages; the position
  is 0 when memory runs out. \<open>p - len < 0\<close> is never true of an \<open>unsigned long\<close>.
\<close>

fun copy_strings :: "nat \<Rightarrow> nat \<Rightarrow> u64 \<Rightarrow> u64 list \<Rightarrow> u64 \<Rightarrow> ('a sched_scheme, u64 \<times> u64 list) act" where
  "copy_strings fuel 0 argv pg p = ret (p, pg)"
| "copy_strings fuel (Suc n) argv pg p =
     bnd (rd (get_fs_long (argv + 8 * of_nat n))) (\<lambda>tmp.
     if tmp = 0 then panic ''argc is wrong''
     else bnd (string_end fuel tmp) (\<lambda>e.
       let len = e - tmp; i = unat (drop_bit 12 (ucast (p - len) :: u32)) in
       bnd (arg_pages MAX_ARG_PAGES i pg) (\<lambda>(ok, pg).
       if \<not> ok then ret (0, pg)
       else bnd (copy_down (unat len) e p pg) (copy_strings fuel n argv pg))))"

definition change_ldt :: "u64 \<Rightarrow> u64 list \<Rightarrow> ('a sched_scheme, u64) act" where
  "change_ldt text_size pg =
     (let code_limit = (text_size + PAGE_SIZE - 1) AND 0xFFFFF000; data_limit = 0x4000000 in
      bnd (rd (\<lambda>s. get_base (t_ldt (cur s) ! 1))) (\<lambda>base.
      thn (acts
        [upd (upd_cur (\<lambda>t. t\<lparr>t_ldt := (t_ldt t)[1 := set_limit (set_base (t_ldt t ! 1) base) code_limit]\<rparr>)),
         upd (upd_cur (\<lambda>t. t\<lparr>t_ldt := (t_ldt t)[2 := set_limit (set_base (t_ldt t ! 2) base) data_limit]\<rparr>)),
         acts (map (\<lambda>i. onlyif (pg ! i \<noteq> 0)
           (thn (put_page (pg ! i) (base + data_limit - PAGE_SIZE * of_nat (MAX_ARG_PAGES - i))) (ret ())))
           (rev [0..<MAX_ARG_PAGES]))])
      (ret data_limit)))"

section \<open>do_execve\<close>

record exec =
  a_magic :: u64
  a_text :: u32
  a_data :: u32
  a_bss :: u32
  a_syms :: u32
  a_entry :: u32
  a_trsize :: u32
  a_drsize :: u32

definition decode_exec :: "block \<Rightarrow> exec" where
  "decode_exec d =
     \<lparr>a_magic = get64 d 0, a_text = get32 d 8, a_data = get32 d 12, a_bss = get32 d 16, a_syms = get32 d 20,
      a_entry = get32 d 24, a_trsize = get32 d 28, a_drsize = get32 d 32\<rparr>"

abbreviation ZMAGIC :: u64 where "ZMAGIC \<equiv> 0x10B"

text \<open>The header says that the file cannot be executed; \<open>N_TXTOFF\<close> of a \<open>ZMAGIC\<close> file is 1024.\<close>

definition bad_exec :: "exec \<Rightarrow> u64 \<Rightarrow> bool" where
  "bad_exec ex sz \<longleftrightarrow>
     a_magic ex \<noteq> ZMAGIC \<or> a_trsize ex \<noteq> 0 \<or> a_drsize ex \<noteq> 0 \<or>
     a_text ex + a_data ex + a_bss ex > 0x3000000 \<or>
     sz < ucast (a_text ex + a_data ex + a_syms ex) + 1024"

definition may_exec :: "m_inode \<Rightarrow> task_struct \<Rightarrow> bool" where
  "may_exec i t \<longleftrightarrow>
     (let m = (if t_uid t \<noteq> 0 \<and> t_euid t \<noteq> 0
               then if t_euid t = i_uid i then drop_bit 6 (i_mode i)
                    else if uint (t_egid t) = uint (i_gid i) then drop_bit 3 (i_mode i)
                    else i_mode i
               else if i_mode i AND 0x49 \<noteq> 0 then 1 else i_mode i) in
      m AND 1 \<noteq> 0)"

definition zero_tail :: "u32 \<Rightarrow> 'a sched_scheme \<Rightarrow> 'a sched_scheme" where
  "zero_tail i = put_fs_bytes (replicate (unat ((0x1000 - (i AND 0xFFF)) AND 0xFFF)) 0) (scast i)"

text \<open>From the point of no return on.\<close>

definition start_program :: "'a fs_scheme dev_env \<Rightarrow> u64 \<Rightarrow> nat \<Rightarrow> exec \<Rightarrow> u64 list \<Rightarrow> u64 \<Rightarrow> nat \<Rightarrow> nat \<Rightarrow>
    ('a fs_scheme, int) act" where
  "start_program E eip p ex pg pos argc envc =
     thn (acts
       [upd (upd_cur (\<lambda>t. t\<lparr>t_sig_fn := replicate 32 0\<rparr>)),
        acts (map (\<lambda>i. bnd (rd (\<lambda>s. drop_bit i (t_close_on_exec (cur s)) AND 1)) (\<lambda>b.
          onlyif (b \<noteq> 0) (thn (sys_close E i) (ret ())))) [0..<NR_OPEN]),
        upd (upd_cur (\<lambda>t. t\<lparr>t_close_on_exec := 0\<rparr>)),
        \<lambda>s. thn (free_page_tables (get_base (t_ldt (cur s) ! 1)) (get_limit 0x0f s)) (ret ()) s,
        \<lambda>s. thn (free_page_tables (get_base (t_ldt (cur s) ! 2)) (get_limit 0x17 s)) (ret ()) s,
        upd (\<lambda>s. if last_task_used_math s = current s then s\<lparr>last_task_used_math := 0\<rparr> else s),
        upd (upd_cur (\<lambda>t. t\<lparr>t_used_math := 0\<rparr>))])
     (bnd (change_ldt (ucast (a_text ex)) pg) (\<lambda>limit.
      bnd (create_tables (e_fuel E) (pos + limit - of_nat (MAX_ARG_PAGES * 4096)) argc envc) (\<lambda>sp.
      thn (upd (upd_cur (\<lambda>t. t\<lparr>t_end_code := ucast (a_text ex),
             t_end_data := ucast (a_data ex) + ucast (a_text ex),
             t_brk := ucast (a_bss ex) + (ucast (a_data ex) + ucast (a_text ex)),
             t_start_stack := sp AND 0xfffff000\<rparr>)))
      (bnd (read_area E p (uint (a_text ex + a_data ex))) (\<lambda>r.
       thn (iput E p)
       (thn (onlyif (r < 0) (thn (sys_exit E (-1)) (ret ())))
        (quit [upd (zero_tail (a_text ex + a_data ex)),
               upd (write_q eip (ucast (a_entry ex))),
               upd (write_q (eip + 24) sp)] 0)))))))"

definition exec_header :: "'a fs_scheme dev_env \<Rightarrow> nat \<Rightarrow> ('a fs_scheme, int + exec) act" where
  "exec_header E p =
     with_ino p (\<lambda>i.
     bnd (bread E (uint (i_dev i)) (uint (i_zone i ! 0))) (\<lambda>bh.
     if bh = 0 then quit [iput E p] (Inl (- EACCES))
     else with_buf bh (\<lambda>b.
       let ex = decode_exec (b_data b) in
       thn (brelse E bh)
       (with_ino p (\<lambda>i. if bad_exec ex (i_size i) then quit [iput E p] (Inl (- ENOEXEC)) else ret (Inr ex))))))"

definition do_execve :: "'a fs_scheme dev_env \<Rightarrow> u64 \<Rightarrow> u64 \<Rightarrow> u64 \<Rightarrow> u64 \<Rightarrow> ('a fs_scheme, int) act" where
  "do_execve E eip filename argv envp =
     bnd (rd (\<lambda>s. qmem s (eip + 8))) (\<lambda>cs.
     if 0xFFFF AND cs \<noteq> 0x000F then panic ''execve called from supervisor mode''
     else bnd (namei E filename) (\<lambda>p.
       if p = 0 then ret (- ENOENT)
       else with_ino p (\<lambda>i.
         if \<not> S_ISREG (i_mode i) then quit [iput E p] (- EACCES)
         else bnd (rd (\<lambda>s. may_exec i (cur s))) (\<lambda>ok.
           if \<not> ok then quit [iput E p] (- ENOEXEC)
           else bnd (exec_header E p) (\<lambda>h. case h of
               Inl e \<Rightarrow> ret e
             | Inr ex \<Rightarrow>
                 bnd (count_args (e_fuel E) argv) (\<lambda>argc.
                 bnd (count_args (e_fuel E) envp) (\<lambda>envc.
                 bnd (copy_strings (e_fuel E) envc envp (replicate MAX_ARG_PAGES 0) (of_nat (4096 * MAX_ARG_PAGES) - 4)) (\<lambda>(q, pg).
                 bnd (copy_strings (e_fuel E) argc argv pg q) (\<lambda>(q, pg).
                 if q = 0 then quit (map free_page pg @ [iput E p]) (-1)
                 else start_program E eip p ex pg q argc envc)))))))))"

end
