(* ===== verification/System_Call.thy ===== *)
theory System_Call
  imports Exec Super Tty_Ioctl
begin

text \<open>
  The system call interface: the table of \<open>src/include/linux/sys.h\<close>, the call numbers and the
  wrappers of \<open>src/include/unistd.h\<close> and \<open>src/lib\<close>, and the entry and return code of
  \<open>src/kernel/system_call.nasm\<close>. An interrupt frame is the list of the 24 words on the kernel
  stack from \<open>FRAME_DS\<close> up to \<open>FRAME_SS\<close>.
\<close>

section \<open>Call numbers\<close>

text \<open>The numbers of \<open>unistd.h\<close>, by the name of the call.\<close>

definition NR_numbers :: "(string \<times> nat) list" where
  "NR_numbers =
     [(''setup'', 0), (''exit'', 1), (''fork'', 2), (''read'', 3), (''write'', 4), (''open'', 5),
      (''close'', 6), (''waitpid'', 7), (''creat'', 8), (''link'', 9), (''unlink'', 10), (''execve'', 11),
      (''chdir'', 12), (''time'', 13), (''mknod'', 14), (''chmod'', 15), (''chown'', 16), (''break'', 17),
      (''stat'', 18), (''lseek'', 19), (''getpid'', 20), (''mount'', 21), (''umount'', 22), (''setuid'', 23),
      (''getuid'', 24), (''stime'', 25), (''ptrace'', 26), (''alarm'', 27), (''fstat'', 28), (''pause'', 29),
      (''utime'', 30), (''stty'', 31), (''gtty'', 32), (''access'', 33), (''nice'', 34), (''ftime'', 35),
      (''sync'', 36), (''kill'', 37), (''rename'', 38), (''mkdir'', 39), (''rmdir'', 40), (''dup'', 41),
      (''pipe'', 42), (''times'', 43), (''prof'', 44), (''brk'', 45), (''setgid'', 46), (''getgid'', 47),
      (''signal'', 48), (''geteuid'', 49), (''getegid'', 50), (''acct'', 51), (''phys'', 52), (''lock'', 53),
      (''ioctl'', 54), (''fcntl'', 55), (''mpx'', 56), (''setpgid'', 57), (''ulimit'', 58), (''uname'', 59),
      (''umask'', 60), (''chroot'', 61), (''ustat'', 62), (''dup2'', 63), (''getppid'', 64), (''getpgrp'', 65),
      (''setsid'', 66)]"

definition NR :: "string \<Rightarrow> nat" where
  "NR name = the (map_of NR_numbers name)"

section \<open>Frames\<close>

abbreviation nr_system_calls :: nat where "nr_system_calls \<equiv> 67"

abbreviation FRAME_FS :: nat where "FRAME_FS \<equiv> 2"
abbreviation FRAME_RAX :: nat where "FRAME_RAX \<equiv> 4"
abbreviation FRAME_RBX :: nat where "FRAME_RBX \<equiv> 5"
abbreviation FRAME_RCX :: nat where "FRAME_RCX \<equiv> 6"
abbreviation FRAME_RDX :: nat where "FRAME_RDX \<equiv> 7"
abbreviation FRAME_RDI :: nat where "FRAME_RDI \<equiv> 8"
abbreviation FRAME_RSI :: nat where "FRAME_RSI \<equiv> 9"
abbreviation FRAME_RBP :: nat where "FRAME_RBP \<equiv> 10"
abbreviation FRAME_RIP :: nat where "FRAME_RIP \<equiv> 19"
abbreviation FRAME_CS :: nat where "FRAME_CS \<equiv> 20"
abbreviation FRAME_RFLAGS :: nat where "FRAME_RFLAGS \<equiv> 21"
abbreviation FRAME_RSP :: nat where "FRAME_RSP \<equiv> 22"
abbreviation FRAME_SS :: nat where "FRAME_SS \<equiv> 23"

text \<open>
  The environment of a call also has the bytes on the kernel stack that are copied to the user
  without being set, \<open>e_junk\<close>, the address of \<open>ret_from_fork\<close>, and \<open>e_upper\<close>, what the compiled
  functions leave in the upper half of \<open>rax\<close> when they return an \<open>int\<close>.
\<close>

record 's call_env = "'s dev_env" +
  e_junk :: "nat \<Rightarrow> u8"
  e_ret_from_fork :: u64
  e_upper :: "int \<Rightarrow> u32"

definition rax_of :: "('s, 'e) call_env_scheme \<Rightarrow> int \<Rightarrow> u64" where
  "rax_of E r = word_cat (e_upper E r) (of_int r :: u32)"

definition call_args :: "u64 list \<Rightarrow> u64 list" where
  "call_args fr = map (\<lambda>k. fr ! k) [FRAME_RBX, FRAME_RCX, FRAME_RDX, FRAME_RSI, FRAME_RDI, FRAME_RBP]"

definition reg_int :: "u64 \<Rightarrow> int" where "reg_int a = sint (ucast a :: u32)"
definition reg_fd :: "u64 \<Rightarrow> nat" where "reg_fd a = unat (ucast a :: u32)"

section \<open>fork and execve\<close>

text \<open>
  The call of the handler has pushed its return address, so that \<open>rsp\<close> is one word below the frame.
  The four values passed in registers are read without allowing for it and are the words below the
  ones meant; the others, pushed one by one, are the right ones.
\<close>

definition fork_regs :: "u64 list \<Rightarrow> regs" where
  "fork_regs fr =
     \<lparr>g_rbp = fr ! (FRAME_RBP - 1), g_rdi = fr ! (FRAME_RDI - 1), g_rsi = fr ! (FRAME_RSI - 1), g_gs = fr ! (3 - 1),
      g_rbx = fr ! FRAME_RBX, g_rcx = fr ! FRAME_RCX, g_rdx = fr ! FRAME_RDX, g_fs = fr ! FRAME_FS,
      g_es = fr ! 1, g_ds = fr ! 0, g_rip = fr ! FRAME_RIP, g_cs = fr ! FRAME_CS,
      g_rflags = fr ! FRAME_RFLAGS, g_rsp = fr ! FRAME_RSP, g_ss = fr ! FRAME_SS\<rparr>"

text \<open>
  The sign test is on \<open>rax\<close>, of which \<open>find_empty_process\<close> sets the lower half. A negative slot
  number that passes it makes \<open>copy_process\<close> write outside \<open>task[]\<close>, if there is a free page.
\<close>

definition sys_fork :: "('a fs_scheme, 'e) call_env_scheme \<Rightarrow> u64 list \<Rightarrow> ('a fs_scheme, int) act" where
  "sys_fork E fr =
     bnd find_empty_process (\<lambda>n.
     if sint (rax_of E n) < 0 then ret n
     else if n < 0 then bnd (\<lambda>s. Inr (get_free_page s)) (\<lambda>p. if p = 0 then ret (- EAGAIN) else stop Fault)
     else copy_process (nat n) (fork_regs fr) (e_ret_from_fork E))"

text \<open>
  \<open>sys_execve\<close> puts the pointer to the frame in \<open>rsi\<close>, the second parameter of \<open>do_execve\<close>, and
  leaves the other registers: the first argument of the call arrives as \<open>eip\<close>, the third as the
  name, the fourth and fifth as the tables.
\<close>

definition sys_execve :: "'a fs_scheme dev_env \<Rightarrow> u64 list \<Rightarrow> ('a fs_scheme, int) act" where
  "sys_execve E fr =
     (let a = call_args fr in do_execve E (a ! 0) (a ! 2) (a ! 3) (a ! 4))"

section \<open>Dispatch\<close>

definition dev_env_of :: "('s, 'e) call_env_scheme \<Rightarrow> 's dev_env" where
  "dev_env_of E =
     \<lparr>e_run = e_run E, e_inb = e_inb E, e_fuel = e_fuel E, e_in = e_in E, e_inw = e_inw E, e_out = e_out E, e_outw = e_outw E\<rparr>"

definition sys_call_table :: "('a fs_scheme, 'e) call_env_scheme \<Rightarrow> u64 list \<Rightarrow> (string \<times> ('a fs_scheme, int) act) list" where
  "sys_call_table E fr =
     (let a = call_args fr; D = dev_env_of E in
      [(''setup'', sys_setup D),
       (''exit'', sys_exit D (reg_int (a ! 0))),
       (''fork'', sys_fork E fr),
       (''read'', sys_read D (reg_fd (a ! 0)) (a ! 1) (reg_int (a ! 2))),
       (''write'', sys_write D (reg_fd (a ! 0)) (a ! 1) (reg_int (a ! 2))),
       (''open'', sys_open D (a ! 0) (ucast (a ! 1)) (ucast (a ! 2))),
       (''close'', sys_close D (reg_fd (a ! 0))),
       (''waitpid'', sys_waitpid D (reg_int (a ! 0)) (a ! 1) (ucast (a ! 2))),
       (''creat'', sys_creat D (a ! 0) (ucast (a ! 1))),
       (''link'', sys_link D (a ! 0) (a ! 1)),
       (''unlink'', sys_unlink D (a ! 0)),
       (''execve'', sys_execve D fr),
       (''chdir'', sys_chdir D (a ! 0)),
       (''time'', sys_time (a ! 0)),
       (''mknod'', ret sys_mknod),
       (''chmod'', sys_chmod D (a ! 0) (ucast (a ! 1))),
       (''chown'', sys_chown D (a ! 0) (reg_int (a ! 1)) (reg_int (a ! 2))),
       (''break'', ret sys_break),
       (''stat'', sys_stat D (e_junk E) (a ! 0) (a ! 1)),
       (''lseek'', sys_lseek (reg_fd (a ! 0)) (sint (a ! 1)) (reg_int (a ! 2))),
       (''getpid'', rd sys_getpid),
       (''mount'', ret sys_mount),
       (''umount'', ret sys_umount),
       (''setuid'', (\<lambda>s. Inr (sys_setuid (reg_int (a ! 0)) s))),
       (''getuid'', rd sys_getuid),
       (''stime'', (\<lambda>s. Inr (sys_stime (a ! 0) s))),
       (''ptrace'', ret sys_ptrace),
       (''alarm'', (\<lambda>s. Inr (sys_alarm (sint (a ! 0)) s))),
       (''fstat'', sys_fstat (e_junk E) (reg_fd (a ! 0)) (a ! 1)),
       (''pause'', sys_pause (e_run E)),
       (''utime'', sys_utime D (a ! 0) (a ! 1)),
       (''stty'', ret sys_stty),
       (''gtty'', ret sys_gtty),
       (''access'', sys_access D (a ! 0) (ucast (a ! 1))),
       (''nice'', (\<lambda>s. Inr (sys_nice (sint (a ! 0)) s))),
       (''ftime'', ret sys_ftime),
       (''sync'', sys_sync D),
       (''kill'', sys_kill (reg_int (a ! 0)) (reg_int (a ! 1))),
       (''rename'', ret sys_rename),
       (''mkdir'', sys_mkdir D (a ! 0) (ucast (a ! 1))),
       (''rmdir'', sys_rmdir D (a ! 0)),
       (''dup'', sys_dup (reg_fd (a ! 0))),
       (''pipe'', sys_pipe D (a ! 0)),
       (''times'', sys_times (a ! 0)),
       (''prof'', ret sys_prof),
       (''brk'', (\<lambda>s. Inr (sys_brk (a ! 0) s))),
       (''setgid'', (\<lambda>s. Inr (sys_setgid (reg_int (a ! 0)) s))),
       (''getgid'', rd sys_getgid),
       (''signal'', (\<lambda>s. Inr (sys_signal (sint (a ! 0)) (a ! 1) (a ! 2) s))),
       (''geteuid'', rd sys_geteuid),
       (''getegid'', rd sys_getegid),
       (''acct'', ret sys_acct),
       (''phys'', ret sys_phys),
       (''lock'', ret sys_lock),
       (''ioctl'', sys_ioctl (e_junk E 0) (reg_fd (a ! 0)) (reg_int (a ! 1)) (reg_int (a ! 2))),
       (''fcntl'', sys_fcntl (reg_fd (a ! 0)) (reg_fd (a ! 1)) (a ! 2)),
       (''mpx'', ret sys_mpx),
       (''setpgid'', (\<lambda>s. Inr (sys_setpgid (reg_int (a ! 0)) (reg_int (a ! 1)) s))),
       (''ulimit'', ret sys_ulimit),
       (''uname'', sys_uname (a ! 0)),
       (''umask'', (\<lambda>s. Inr (sys_umask (reg_int (a ! 0)) s))),
       (''chroot'', sys_chroot D (a ! 0)),
       (''ustat'', ret (sys_ustat (reg_int (a ! 0)) (a ! 1))),
       (''dup2'', sys_dup2 D (reg_fd (a ! 0)) (reg_fd (a ! 1))),
       (''getppid'', rd sys_getppid),
       (''getpgrp'', rd sys_getpgrp),
       (''setsid'', (\<lambda>s. Inr (sys_setsid s)))])"

fun ret_from_sys_call :: "nat \<Rightarrow> ('a sched_scheme \<Rightarrow> 'a sched_scheme) \<Rightarrow> ('a sched_scheme, unit) act" where
  "ret_from_sys_call 0 run = stop Diverge"
| "ret_from_sys_call (Suc n) run =
     bnd (rd cur) (\<lambda>t.
     if t_state t \<noteq> 0 \<or> t_counter t = 0 then thn (schedule run) (ret_from_sys_call n run) else ret ())"

definition system_call :: "('a fs_scheme, 'e) call_env_scheme \<Rightarrow> u64 list \<Rightarrow> ('a fs_scheme, u64 list) act" where
  "system_call E fr =
     (let n = unat (fr ! FRAME_RAX) in
      bnd (if n \<ge> nr_system_calls then ret (fr[FRAME_RAX := -1])
           else bnd (snd (sys_call_table E fr ! n)) (\<lambda>r. ret (fr[FRAME_RAX := rax_of E r])))
      (\<lambda>fr. thn (ret_from_sys_call (e_fuel E) (e_run E)) (ret fr)))"

definition timer_interrupt :: "('a sched_scheme, 'e) env_scheme \<Rightarrow> u64 list \<Rightarrow> ('a sched_scheme, unit) act" where
  "timer_interrupt E fr =
     acts [upd (\<lambda>s. s\<lparr>jiffies := jiffies s + 1\<rparr>), upd (outb 0x20 0x20),
           do_timer (e_run E) (uint (fr ! FRAME_CS AND 3)), ret_from_sys_call (e_fuel E) (e_run E)]"

section \<open>User library\<close>

text \<open>
  What a wrapper makes of \<open>rax\<close>: the value it returns and the new \<open>errno\<close>. \<open>__res\<close> is a \<open>long\<close> in
  the macros and an \<open>int\<close> in \<open>open\<close>.
\<close>

definition syscall_result :: "u64 \<Rightarrow> int \<Rightarrow> int \<times> int" where
  "syscall_result rax errno =
     (let res = sint rax in if res \<ge> 0 then (int32 res, errno) else (-1, int32 (- res)))"

definition open_result :: "u64 \<Rightarrow> int \<Rightarrow> int \<times> int" where
  "open_result rax errno =
     (let res = reg_int rax in if res \<ge> 0 then (res, errno) else (-1, int32 (- res)))"

text \<open>The wrappers with 0 to 3 arguments: the frame that \<open>int $0x80\<close> makes of the registers.\<close>

definition syscall_frame :: "string \<Rightarrow> u64 list \<Rightarrow> u64 list \<Rightarrow> u64 list" where
  "syscall_frame c a fr =
     fold (\<lambda>(k, v) fr. fr[k := v]) (zip [FRAME_RBX, FRAME_RCX, FRAME_RDX] a) (fr[FRAME_RAX := of_nat (NR c)])"

definition user_call :: "('a fs_scheme, 'e) call_env_scheme \<Rightarrow> u64 list \<Rightarrow> string \<Rightarrow> u64 list \<Rightarrow> int \<Rightarrow> ('a fs_scheme, int \<times> int) act" where
  "user_call E fr c a errno =
     bnd (system_call E (syscall_frame c a fr)) (\<lambda>fr. ret (syscall_result (fr ! FRAME_RAX) errno))"

definition wait_call :: "('a fs_scheme, 'e) call_env_scheme \<Rightarrow> u64 list \<Rightarrow> u64 \<Rightarrow> int \<Rightarrow> ('a fs_scheme, int \<times> int) act" where
  "wait_call E fr wait_stat errno = user_call E fr ''waitpid'' [-1, wait_stat, 0] errno"

definition open_call :: "('a fs_scheme, 'e) call_env_scheme \<Rightarrow> u64 list \<Rightarrow> u64 \<Rightarrow> u64 \<Rightarrow> u64 \<Rightarrow> int \<Rightarrow> ('a fs_scheme, int \<times> int) act" where
  "open_call E fr filename flag mode errno =
     bnd (system_call E (syscall_frame ''open'' [filename, flag, mode] fr)) (\<lambda>fr. ret (open_result (fr ! FRAME_RAX) errno))"

definition exit_call :: "('a fs_scheme, 'e) call_env_scheme \<Rightarrow> u64 list \<Rightarrow> u64 \<Rightarrow> ('a fs_scheme, unit) act" where
  "exit_call E fr exit_code = thn (system_call E (syscall_frame ''exit'' [exit_code] fr)) (ret ())"

end
