(* ===== verification/Printk.thy ===== *)
theory Printk
  imports Tty_Correct Vsprintf Sys_Calls
begin

text \<open>
  Messages on the console: \<open>src/kernel/printk.c\<close> and \<open>src/kernel/panic.c\<close>. Elsewhere in the
  development \<open>printk\<close> only logs the format and its arguments; here it formats and writes them. The
  static buffer is at the address \<open>buf\<close>, which the \<open>fs\<close> accesses of \<open>tty_write\<close> also reach, as
  the address space is flat.
\<close>

definition printk_console :: "('a ttys_scheme, 'e) env_scheme \<Rightarrow> u64 \<Rightarrow> string \<Rightarrow> varg list \<Rightarrow> ('a ttys_scheme, int) act" where
  "printk_console E buf fmt args =
     (case vsprintf fmt args of
        None \<Rightarrow> stop Fault
      | Some (i, txt, counts) \<Rightarrow>
          if i \<ge> 1024 then stop Fault
          else thn (acts [upd (put_fs_bytes (map of_char txt @ [0]) buf),
                          upd (fold (\<lambda>(a, n). put_fs_bytes (bytes_of 4 (of_nat n)) a) counts)])
            (thn (tty_write E 0 buf (int i)) (ret (int i))))"

definition panic_console :: "('a ttys_scheme, 'e) env_scheme \<Rightarrow> u64 \<Rightarrow> string \<Rightarrow> ('a ttys_scheme, unit) act" where
  "panic_console E buf msg =
     thn (printk_console E buf (''Kernel panic: %s'' @ [CHR 0x0A, CHR 0x0D]) [AStr msg]) (stop Diverge)"

end
