(* ===== verification/Printk_Correct.thy ===== *)
theory Printk_Correct
  imports Printk
begin

text \<open>
  What a kernel message puts on the screen: formatting, the copy to the static buffer and the
  terminal write together.
\<close>

lemma put_fs_bytes_snoc:
  "put_fs_bytes (bs @ [x]) a s = put_fs_byte x (a + of_nat (length bs)) (put_fs_bytes bs a s)"
  by (simp add: put_fs_bytes_def enumerate_append_eq)

lemma put_fs_bytes_state: "\<exists>m. put_fs_bytes bs a s = s\<lparr>umem := m\<rparr>"
proof (induction bs rule: rev_induct)
  case Nil
  have "put_fs_bytes [] a s = s\<lparr>umem := umem s\<rparr>" by (simp add: put_fs_bytes_def)
  then show ?case by (rule exI [of _ "umem s"])
next
  case (snoc x bs)
  then obtain m where "put_fs_bytes bs a s = s\<lparr>umem := m\<rparr>" ..
  then show ?case by (auto simp: put_fs_bytes_snoc put_fs_byte_def)
qed

lemma put_fs_bytes_text:
  "length bs < 2 ^ 64 \<Longrightarrow> k \<le> length bs \<Longrightarrow> text_at (umem (put_fs_bytes bs a s)) a k = take k bs"
proof (induction bs arbitrary: k rule: rev_induct)
  case (snoc x bs)
  let ?m = "umem (put_fs_bytes bs a s)" and ?n = "length bs"
  have ne: "(of_nat i :: u64) \<noteq> of_nat ?n" if "i < ?n" for i
    using that snoc.prems(1) by (simp add: word_unat_eq_iff unat_of_nat)
  have u: "umem (put_fs_bytes (bs @ [x]) a s) = ?m(a + of_nat ?n := x)"
    by (simp add: put_fs_bytes_snoc put_fs_byte_def)
  have old: "text_at (?m(a + of_nat ?n := x)) a j = text_at ?m a j" if "j \<le> ?n" for j
    unfolding text_at_def by (rule map_cong) (use that ne in \<open>auto\<close>)
  have ih: "text_at ?m a j = take j bs" if "j \<le> ?n" for j using snoc.IH [of j] snoc.prems(1) that by simp
  show ?case
  proof (cases "k \<le> ?n")
    case True then show ?thesis by (simp add: u old ih del: fun_upd_apply)
  next
    case False
    then have k: "k = Suc ?n" using snoc.prems(2) by simp
    have "text_at (?m(a + of_nat ?n := x)) a (Suc ?n) = text_at (?m(a + of_nat ?n := x)) a ?n @ [x]"
      by (simp add: text_at_def)
    then show ?thesis by (simp add: k u old ih del: fun_upd_apply)
  qed
qed (simp add: text_at_def)

lemma of_char_escape: "27 = (of_char c :: u8) \<Longrightarrow> c = CHR 0x1B"
proof -
  assume "27 = (of_char c :: u8)"
  then have "unat (27 :: u8) = unat (of_nat (of_char c) :: u8)" by (simp add: of_nat_of_char)
  then have "(of_char c :: nat) = 27" by (simp add: unat_of_nat)
  then have "(of_char c :: nat) = of_char CHR 0x1B" by simp
  then show ?thesis by (simp only: of_char_eq_iff)
qed



end
