(* ===== verification/Process_Correct.thy ===== *)
theory Process_Correct
  imports Process
begin

text \<open>
  The search for a process id ends with a fresh one, and \<open>kill\<close> reaches only the tasks it may.
\<close>

section \<open>Process ids\<close>

lemma word_sint_eq_0: "sint (x :: u64) = 0 \<Longrightarrow> x = 0"
proof -
  assume "sint x = 0"
  then have "of_int (sint x) = (0 :: u64)" by simp
  then show "x = 0" by simp
qed

lemma next_pid_positive: "0 < sint (next_pid l)" if "0 \<le> sint l"
proof (cases "sint (l + 1) < 0")
  case True
  then show ?thesis by (simp add: next_pid_def)
next
  case False
  have "l + 1 \<noteq> 0"
  proof
    assume "l + 1 = 0"
    then have "l = -1" by (simp add: eq_neg_iff_add_eq_0)
    then show False using that by simp
  qed
  then have "sint (l + 1) \<noteq> 0" using word_sint_eq_0 by blast
  then show ?thesis using False by (simp add: next_pid_def)
qed

text \<open>The ids tried, one after the other: as numbers they run through a cycle of \<open>2^63 - 1\<close> values.\<close>

lemma sint_next_pid:
  assumes "0 \<le> sint l"
  shows "sint (next_pid l) = sint l mod (2 ^ 63 - 1) + 1"
proof -
  have lt: "sint l < 2 ^ 63" using sint_lt [of l] by simp
  show ?thesis
  proof (cases "sint l = 2 ^ 63 - 1")
    case True
    have "l = of_int (sint l)" by simp
    then have "l + 1 = of_int (2 ^ 63)" unfolding True by simp
    then have "sint (l + 1) < 0" by simp
    then show ?thesis using True by (simp add: next_pid_def)
  next
    case False
    then have "sint l + 1 < 2 ^ 63" using lt by simp
    then have "sint (l + 1) = sint l + 1"
      using assms by (simp add: signed_take_bit_int_eq_self sint_word_ariths)
    then show ?thesis using assms False lt by (simp add: next_pid_def)
  qed
qed

lemma next_pid_iterate:
  assumes "0 < sint l"
  shows "0 < sint ((next_pid ^^ k) l) \<and> sint ((next_pid ^^ k) l) = (sint l - 1 + int k) mod (2 ^ 63 - 1) + 1"
proof (induction k)
  case 0
  have "sint l < 2 ^ 63" using sint_lt [of l] by simp
  then show ?case using assms by simp
next
  case (Suc k)
  let ?v = "sint ((next_pid ^^ k) l)"
  have "sint (next_pid ((next_pid ^^ k) l)) = ?v mod (2 ^ 63 - 1) + 1"
    using Suc by (intro sint_next_pid) simp
  also have "?v mod (2 ^ 63 - 1) = (sint l - 1 + int (Suc k)) mod (2 ^ 63 - 1)"
    using Suc by (simp add: mod_add_right_eq mod_add_left_eq add.assoc)
  finally show ?case using Suc next_pid_positive by simp
qed

lemma next_pid_inj:
  assumes "0 < sint l" "j < n" "k < n" "n < 2 ^ 62"
    and "sint ((next_pid ^^ j) l) = sint ((next_pid ^^ k) l)"
  shows "j = k"
proof -
  have "(sint l - 1 + int j) mod (2 ^ 63 - 1) = (sint l - 1 + int k) mod (2 ^ 63 - 1)"
    using assms(1,5) next_pid_iterate by simp
  then have "(2 ^ 63 - 1) dvd ((sint l - 1 + int j) - (sint l - 1 + int k))"
    by (simp only: mod_eq_dvd_iff)
  then have d: "(2 ^ 63 - 1) dvd (int j - int k)" by simp
  have lt: "\<bar>int j - int k\<bar> < 2 ^ 63 - 1" using assms(2,3,4) by simp
  have "int j - int k = 0"
  proof (rule ccontr)
    assume "int j - int k \<noteq> 0"
    from dvd_imp_le_int [OF this d] lt show False by simp
  qed
  then show ?thesis by simp
qed

lemma pid_loop_finds:
  "sint ((next_pid ^^ Suc k) l) \<notin> pids \<Longrightarrow> (\<forall>j<k. sint ((next_pid ^^ Suc j) l) \<in> pids) \<Longrightarrow>
   pid_loop pids l = Some ((next_pid ^^ Suc k) l)"
proof (induction k arbitrary: l)
  case 0
  then show ?case by (subst pid_loop.simps) (simp add: Let_def)
next
  case (Suc k)
  have "sint (next_pid l) \<in> pids" using Suc.prems(2) by (metis funpow_0 funpow_Suc_right comp_apply zero_less_Suc)
  then have "pid_loop pids l = pid_loop pids (next_pid l)" by (subst pid_loop.simps) (simp add: Let_def)
  moreover have "sint ((next_pid ^^ Suc k) (next_pid l)) \<notin> pids"
    using Suc.prems(1) by (simp add: funpow_swap1)
  moreover have "\<forall>j<k. sint ((next_pid ^^ Suc j) (next_pid l)) \<in> pids"
    using Suc.prems(2) by (metis Suc_mono comp_apply funpow_Suc_right)
  ultimately show ?case using Suc.IH [of "next_pid l"] by (simp add: funpow_swap1)
qed

lemma pid_loop_some:
  assumes "finite pids" "card pids < 2 ^ 61" "0 \<le> sint l"
  shows "\<exists>l'. pid_loop pids l = Some l' \<and> 0 < sint l' \<and> sint l' \<notin> pids"
proof -
  let ?f = "\<lambda>k. sint ((next_pid ^^ k) (next_pid l))" and ?n = "Suc (card pids)"
  have pos: "0 < sint (next_pid l)" using assms(3) by (rule next_pid_positive)
  have "inj_on ?f {..<?n}" using next_pid_inj [OF pos, of _ ?n] assms(2) by (auto simp: inj_on_def)
  then have "card (?f ` {..<?n}) = ?n" by (simp add: card_image)
  then have "\<not> ?f ` {..<?n} \<subseteq> pids" using card_mono [OF assms(1), of "?f ` {..<?n}"] by linarith
  then obtain k where "?f k \<notin> pids" by blast
  then obtain m where m: "?f m \<notin> pids" "\<forall>j<m. ?f j \<in> pids"
    using exists_least_iff [of "\<lambda>k. ?f k \<notin> pids"] by blast
  have "pid_loop pids l = Some ((next_pid ^^ Suc m) l)"
    using m by (intro pid_loop_finds) (simp_all add: funpow_swap1)
  moreover have "0 < ?f m" using next_pid_iterate [OF pos] by blast
  ultimately show ?thesis using m(1) by (simp add: funpow_swap1)
qed

text \<open>What the search for a free slot above 0 finds.\<close>

lemma first_free_slot:
  assumes "length ts = NR_TASKS" "k = first_index (\<lambda>p. p = 0) (drop 1 ts)"
  shows "k + 1 < NR_TASKS \<longleftrightarrow> (\<exists>i. 0 < i \<and> i < NR_TASKS \<and> ts ! i = 0)"
    and "k + 1 < NR_TASKS \<Longrightarrow> ts ! (k + 1) = 0"
    and "k + 1 < NR_TASKS \<Longrightarrow> \<forall>i. 0 < i \<and> i < k + 1 \<longrightarrow> ts ! i \<noteq> 0"
proof -
  show sat: "ts ! (k + 1) = 0" if "k + 1 < NR_TASKS"
    using that assms(1) first_index_sat [of "\<lambda>p. p = 0" "drop 1 ts"] by (simp add: assms(2))
  show "k + 1 < NR_TASKS \<longleftrightarrow> (\<exists>i. 0 < i \<and> i < NR_TASKS \<and> ts ! i = 0)"
  proof
    assume "\<exists>i. 0 < i \<and> i < NR_TASKS \<and> ts ! i = 0"
    then obtain i where "0 < i" "i < NR_TASKS" "ts ! i = 0" by blast
    then have "0 \<in> set (drop 1 ts)" using assms(1) by (auto simp: in_set_conv_nth intro!: exI [of _ "i - 1"])
    then show "k + 1 < NR_TASKS"
      using first_index_lt [of "\<lambda>p. p = 0" "drop 1 ts"] assms(1) by (simp add: assms(2))
  qed (use sat in \<open>intro exI [of _ "k + 1"], simp\<close>)
  show "\<forall>i. 0 < i \<and> i < k + 1 \<longrightarrow> ts ! i \<noteq> 0" if "k + 1 < NR_TASKS"
  proof (intro allI impI)
    fix i assume i: "0 < i \<and> i < k + 1"
    then have "i - 1 < k" by linarith
    then have "drop 1 ts ! (i - 1) \<noteq> 0"
      using first_index_before [of "i - 1" "\<lambda>p. p = 0" "drop 1 ts"] by (simp only: assms(2)) blast
    then show "ts ! i \<noteq> 0" using i that assms(1) by simp
  qed
qed

text \<open>
  C17: \<open>find_empty_process\<close> always returns. The process id it leaves in \<open>last_pid\<close> is positive and
  belongs to no task; the result is the first free slot above 0, or \<open>-EAGAIN\<close> when there is none.
\<close>

theorem find_empty_process_fresh:
  assumes "length (task s) = NR_TASKS" "0 \<le> sint (last_pid s)"
  shows "\<exists>r l. find_empty_process s = Inr (r, s\<lparr>last_pid := l\<rparr>) \<and> 0 < sint l \<and>
    (\<forall>p\<in>set (task s). p \<noteq> 0 \<longrightarrow> t_pid (task_at s p) \<noteq> sint l) \<and>
    (if \<exists>i. 0 < i \<and> i < NR_TASKS \<and> task s ! i = 0
     then 0 < r \<and> r < int NR_TASKS \<and> task s ! nat r = 0 \<and> (\<forall>i. 0 < i \<and> i < nat r \<longrightarrow> task s ! i \<noteq> 0)
     else r = - EAGAIN)"
proof -
  have fin: "finite (pids_in_use s)" by (simp add: pids_in_use_def)
  have "card (pids_in_use s) \<le> length (filter (\<lambda>p. p \<noteq> 0) (task s))"
    unfolding pids_in_use_def by (metis card_length length_map)
  also have "\<dots> \<le> NR_TASKS" using assms(1) length_filter_le [of _ "task s"] by simp
  finally obtain l where l: "pid_loop (pids_in_use s) (last_pid s) = Some l" "0 < sint l" "sint l \<notin> pids_in_use s"
    using pid_loop_some [OF fin _ assms(2)] by auto
  define k where "k = first_index (\<lambda>p. p = 0) (drop 1 (task s))"
  have eq: "find_empty_process s = Inr (if k + 1 < NR_TASKS then int (k + 1) else - EAGAIN, s\<lparr>last_pid := l\<rparr>)"
    using l(1) by (simp add: find_empty_process_def Let_def k_def)
  note free = first_free_slot [OF assms(1) k_def]
  have fresh: "\<forall>p\<in>set (task s). p \<noteq> 0 \<longrightarrow> t_pid (task_at s p) \<noteq> sint l"
    using l(3) by (force simp: pids_in_use_def)
  have num: "nat (int (k + 1)) = k + 1" by simp
  show ?thesis
  proof (cases "k + 1 < NR_TASKS")
    case True
    then show ?thesis
      using eq l(2) fresh free(1) free(2,3) [OF True] by (intro exI [of _ "int (k + 1)"] exI [of _ l]) (simp only: num if_True simp_thms, simp)
  next
    case False
    then show ?thesis using eq l(2) fresh free(1) by (intro exI [of _ "- EAGAIN"] exI [of _ l]) (simp only: if_False simp_thms)
  qed
qed

theorem find_empty_process_fresh_witness:
  "\<exists>l. find_empty_process two_tasks = Inr (2, two_tasks\<lparr>last_pid := l\<rparr>) \<and> 0 < sint l"
proof -
  have len: "length (task two_tasks) = NR_TASKS" and lp: "0 \<le> sint (last_pid two_tasks)"
    by (simp_all add: two_tasks_def)
  obtain r l where r: "find_empty_process two_tasks = Inr (r, two_tasks\<lparr>last_pid := l\<rparr>)" "0 < sint l"
      "if \<exists>i. 0 < i \<and> i < NR_TASKS \<and> task two_tasks ! i = 0
       then 0 < r \<and> r < int NR_TASKS \<and> task two_tasks ! nat r = 0 \<and> (\<forall>i. 0 < i \<and> i < nat r \<longrightarrow> task two_tasks ! i \<noteq> 0)
       else r = - EAGAIN"
    using find_empty_process_fresh [OF len lp] by blast
  have "\<exists>i. 0 < i \<and> i < NR_TASKS \<and> task two_tasks ! i = 0"
    by (rule exI [of _ 2]) (simp add: two_tasks_nth)
  then have b: "0 < r" "r < int NR_TASKS" "task two_tasks ! nat r = 0"
    "\<forall>i. 0 < i \<and> i < nat r \<longrightarrow> task two_tasks ! i \<noteq> 0" using r(3) by simp_all
  have "nat r \<noteq> 1" using b(3) by (auto simp: two_tasks_nth)
  moreover have "\<not> 2 < nat r" using b(4) [rule_format, of 2] by (auto simp: two_tasks_nth)
  ultimately have "r = 2" using b(1) by linarith
  then show ?thesis using r(1,2) by blast
qed

section \<open>Signals\<close>

text \<open>Which tasks \<open>do_kill\<close> may signal: the slot is not 0, the id matches and the user ids agree.\<close>

definition allowed :: "bool \<Rightarrow> 'a sched_scheme \<Rightarrow> u64 \<Rightarrow> bool" where
  "allowed priv s p \<longleftrightarrow>
     priv \<or> t_uid (cur s) = t_uid (task_at s p) \<or> t_euid (cur s) = t_uid (task_at s p) \<or>
     t_uid (cur s) = t_euid (task_at s p) \<or> t_euid (cur s) = t_euid (task_at s p)"

definition may_signal :: "int \<Rightarrow> bool \<Rightarrow> 'a sched_scheme \<Rightarrow> u64 \<Rightarrow> bool" where
  "may_signal pid priv s p \<longleftrightarrow>
     p \<in> set (drop 1 (task s)) \<and> p \<noteq> 0 \<and> kill_matches pid s p \<and>
     allowed priv s p"

text \<open>Raising signals leaves everything that decides who is signalled.\<close>

definition raised :: "nat \<Rightarrow> u64 set \<Rightarrow> 'a sched_scheme \<Rightarrow> 'a sched_scheme" where
  "raised sig A s = s\<lparr>task_at := (\<lambda>p. if p \<in> A then raise_sig sig (task_at s p) else task_at s p)\<rparr>"

lemma raised_simps [simp]:
  "task (raised sig A s) = task s" "current (raised sig A s) = current s" "raised sig {} s = s"
  by (simp_all add: raised_def)

lemma raised_ids [simp]:
  "t_uid (task_at (raised sig A s) p) = t_uid (task_at s p)"
  "t_euid (task_at (raised sig A s) p) = t_euid (task_at s p)"
  "t_pid (task_at (raised sig A s) p) = t_pid (task_at s p)"
  "t_pgrp (task_at (raised sig A s) p) = t_pgrp (task_at s p)"
  by (simp_all add: raised_def raise_sig_def)

lemma kill_matches_raised [simp]: "kill_matches pid (raised sig A s) p = kill_matches pid s p"
  by (simp add: kill_matches_def)

lemma raised_insert: "upd_task p (raise_sig sig) (raised sig A s) = raised sig (insert p A) s"
  by (auto simp: raised_def upd_task_def raise_sig_def fun_eq_iff intro!: sched.surjective)

lemma send_sig_raised:
  assumes "1 \<le> sig" "sig \<le> 32"
  shows "send_sig sig p priv (raised (nat sig) A s) =
    (if p \<noteq> 0 \<and> allowed priv s p then raised (nat sig) (insert p A) s else raised (nat sig) A s)"
  using assms by (simp add: send_sig_def Let_def raised_insert allowed_def)

lemma kill_fold:
  assumes "1 \<le> sig" "sig \<le> 32"
  shows "fold (\<lambda>i s. if kill_matches pid s (task s ! i) then send_sig sig (task s ! i) priv s else s) is
      (raised (nat sig) A s) =
    raised (nat sig) (A \<union> {p. \<exists>i\<in>set is. p = task s ! i \<and> p \<noteq> 0 \<and> kill_matches pid s p \<and> allowed priv s p}) s"
proof (induction "is" arbitrary: A)
  case Nil
  then show ?case by simp
next
  case (Cons i "is")
  let ?p = "task s ! i"
  let ?B = "if kill_matches pid s ?p \<and> ?p \<noteq> 0 \<and> allowed priv s ?p then insert ?p A else A"
  have "(if kill_matches pid (raised (nat sig) A s) (task (raised (nat sig) A s) ! i)
      then send_sig sig (task (raised (nat sig) A s) ! i) priv (raised (nat sig) A s) else raised (nat sig) A s) =
      raised (nat sig) ?B s"
    using send_sig_raised [OF assms, of ?p priv A s] by simp
  then show ?case using Cons.IH [of ?B]
    by (simp only: fold_simps) (rule arg_cong [where f = "\<lambda>B. raised (nat sig) B s"], auto)
qed

text \<open>
  C18: \<open>sys_kill\<close> always succeeds, and its whole effect is the bit of the signal in the tasks that
  match \<open>pid\<close>: never task 0, and for a caller who is not privileged only tasks that share a user id
  with the caller. An invalid signal number changes nothing.
\<close>

theorem sys_kill_safe:
  assumes "length (task s) = NR_TASKS"
  shows "sys_kill pid sig s =
    Inr (0, if 1 \<le> sig \<and> sig \<le> 32
            then raised (nat sig) {p. may_signal pid (t_uid (cur s) = 0 \<and> t_euid (cur s) = 0) s p} s
            else s)"
proof (cases "1 \<le> sig \<and> sig \<le> 32")
  case True
  have slots: "(\<exists>i\<in>set slots_down. p = task s ! i) \<longleftrightarrow> p \<in> set (drop 1 (task s))" for p
  proof -
    have "(\<exists>i\<in>{1..<NR_TASKS}. p = task s ! i) \<longleftrightarrow> p \<in> set (drop 1 (task s))"
    proof
      assume "\<exists>i\<in>{1..<NR_TASKS}. p = task s ! i"
      then obtain i where "1 \<le> i" "i < NR_TASKS" "p = task s ! i" by auto
      then show "p \<in> set (drop 1 (task s))"
        using assms by (auto simp: in_set_conv_nth intro!: exI [of _ "i - 1"])
    next
      assume "p \<in> set (drop 1 (task s))"
      then obtain j where "j < NR_TASKS - 1" "p = task s ! Suc j" using assms by (auto simp: in_set_conv_nth)
      then show "\<exists>i\<in>{1..<NR_TASKS}. p = task s ! i" by (intro bexI [of _ "Suc j"]) auto
    qed
    then show ?thesis by (simp only: set_slots_down)
  qed
  have "do_kill pid sig priv s = raised (nat sig) {p. may_signal pid priv s p} s" for priv
    using kill_fold [of sig pid priv slots_down "{}" s] True
    by (simp add: do_kill_def slots may_signal_def del: set_slots_down One_nat_def)
  then show ?thesis using True by (simp add: sys_kill_def)
next
  case False
  have send: "send_sig sig p priv s = s" for p priv using False by (auto simp: send_sig_def)
  have "fold (\<lambda>i s. if kill_matches pid s (task s ! i) then send_sig sig (task s ! i) priv s else s) is s = s" for priv "is"
    by (induction "is") (simp_all add: send)
  then show ?thesis using False by (auto simp: sys_kill_def do_kill_def)
qed

theorem sys_kill_safe_witness:
  "sys_kill 7 9 two_tasks = Inr (0, two_tasks) \<and> sys_kill 0 9 two_tasks \<noteq> Inr (0, two_tasks)"
proof
  have len: "length (task two_tasks) = NR_TASKS" by (simp add: two_tasks_def)
  have ids: "t_pid (task_at two_tasks p) = 0" "t_pgrp (task_at two_tasks p) = 0" "t_signal (task_at two_tasks p) = 0" for p
    by (simp_all add: two_tasks_def INIT_TASK_def)
  have none: "may_signal 7 b two_tasks = (\<lambda>_. False)" for b by (auto simp: fun_eq_iff may_signal_def kill_matches_def ids)
  show "sys_kill 7 9 two_tasks = Inr (0, two_tasks)" using sys_kill_safe [OF len, of 7 9] by (simp add: none)
  let ?A = "{p. may_signal 0 (t_uid (cur two_tasks) = 0 \<and> t_euid (cur two_tasks) = 0) two_tasks p}"
  have "0x7FF000 \<in> set (drop 1 (task two_tasks))" by (simp add: two_tasks_def)
  then have "0x7FF000 \<in> ?A" by (auto simp: may_signal_def allowed_def kill_matches_def ids two_tasks_def INIT_TASK_def)
  then have "t_signal (task_at (raised 9 ?A two_tasks) 0x7FF000) \<noteq> 0"
    by (simp add: raised_def raise_sig_def ids sig_bit_def)
  then have "raised 9 ?A two_tasks \<noteq> two_tasks" using ids(3) by metis
  then show "sys_kill 0 9 two_tasks \<noteq> Inr (0, two_tasks)" using sys_kill_safe [OF len, of 0 9] by simp
qed

end
