(* ===== verification/Bitmap_Correct.thy ===== *)
theory Bitmap_Correct
  imports Bitmap
begin

text \<open>
  The bitmap operations on a block implement a set of at most 8192 numbers, and allocation from it
  hands out the least number that is free.
\<close>

section \<open>Allocation from a set of numbers\<close>

text \<open>
  What an allocator promises: \<open>used\<close> is the set of numbers taken, \<open>first\<close> the candidate, \<open>take\<close> and
  \<open>give\<close> change the set and tell whether the number was taken or free already.
\<close>

locale allocator =
  fixes cap :: nat
    and used :: "'d \<Rightarrow> nat set"
    and first :: "'d \<Rightarrow> nat"
    and take_id give_id :: "nat \<Rightarrow> 'd \<Rightarrow> bool \<times> 'd"
  assumes used_cap: "used d \<subseteq> {..<cap}"
    and first_le: "first d \<le> cap"
    and first_free: "first d \<notin> used d"
    and first_least: "m < first d \<Longrightarrow> m \<in> used d"
    and take_set: "n < cap \<Longrightarrow> fst (take_id n d) = (n \<in> used d) \<and> used (snd (take_id n d)) = insert n (used d)"
    and give_set: "n < cap \<Longrightarrow> fst (give_id n d) = (n \<notin> used d) \<and> used (snd (give_id n d)) = used d - {n}"
begin

lemma full_iff: "first d = cap \<longleftrightarrow> used d = {..<cap}"
proof
  assume "first d = cap"
  then show "used d = {..<cap}" using first_least [of _ d] used_cap by auto
next
  assume "used d = {..<cap}"
  then show "first d = cap" using first_free [of d] first_le [of d] by auto
qed

lemma first_eq: "first d = (if used d = {..<cap} then cap else Min ({..<cap} - used d))"
proof (cases "used d = {..<cap}")
  case True
  then show ?thesis using full_iff by simp
next
  case False
  then have lt: "first d < cap" using full_iff first_le [of d] by (metis le_neq_implies_less)
  have "Min ({..<cap} - used d) = first d"
  proof (rule Min_eqI)
    show "first d \<le> y" if "y \<in> {..<cap} - used d" for y
      using that first_least [of y d] by (meson DiffD2 not_le)
  qed (use lt first_free [of d] in auto)
  then show ?thesis using False by simp
qed

lemma alloc_fresh:
  assumes "first d < cap"
  shows "fst (take_id (first d) d) = False \<and> used (snd (take_id (first d) d)) = insert (first d) (used d) \<and> first d \<notin> used d"
  using take_set [OF assms, of d] first_free [of d] by simp

lemma give_take:
  assumes "first d < cap"
  shows "fst (give_id (first d) (snd (take_id (first d) d))) = False \<and>
    used (snd (give_id (first d) (snd (take_id (first d) d)))) = used d"
  using give_set [OF assms, of "snd (take_id (first d) d)"] alloc_fresh [OF assms] by simp

end

section \<open>Bits of a block\<close>

definition map_bit :: "block \<Rightarrow> nat \<Rightarrow> bool" where
  "map_bit d n \<longleftrightarrow> bit (d (n div 8)) (n mod 8)"

definition map_set :: "block \<Rightarrow> nat set" where
  "map_set d = {n. n < 8192 \<and> map_bit d n}"

lemma bit_get16: "j < 16 \<Longrightarrow> bit (get16 d a) j = bit (d (a + j div 8)) (j mod 8)"
proof -
  assume j: "j < 16"
  show ?thesis
  proof (cases "j < 8")
    case True
    then show ?thesis by (simp add: get16_def bit_or_iff bit_ucast_iff bit_push_bit_iff)
  next
    case False
    then have "j div 8 = 1" "j mod 8 = j - 8" using j by (auto simp: mod_if)
    moreover have "\<not> bit (d a) j" using False bit_imp_le_length [of "d a" j] by auto
    moreover have "j - 8 < 16" using j by simp
    ultimately show ?thesis using j False by (simp add: get16_def bit_or_iff bit_ucast_iff bit_push_bit_iff)
  qed
qed

lemma bit_get32: "j < 32 \<Longrightarrow> bit (get32 d a) j = bit (d (a + j div 8)) (j mod 8)"
proof -
  assume j: "j < 32"
  show ?thesis
  proof (cases "j < 16")
    case True
    then show ?thesis by (simp add: get32_def bit_or_iff bit_ucast_iff bit_push_bit_iff bit_get16)
  next
    case False
    have "\<not> bit (get16 d a) j" using False bit_imp_le_length [of "get16 d a" j] by auto
    then have "bit (get32 d a) j = bit (get16 d (a + 2)) (j - 16)"
      using j False less_imp_diff_less [OF j, of 16] by (simp add: get32_def bit_or_iff bit_ucast_iff bit_push_bit_iff)
    also have "\<dots> = bit (d (a + 2 + (j - 16) div 8)) ((j - 16) mod 8)" using j by (intro bit_get16) simp
    also have "a + 2 + (j - 16) div 8 = a + j div 8" using False by (simp add: div_if)
    also have "(j - 16) mod 8 = j mod 8" using False by (simp add: mod_if)
    finally show ?thesis .
  qed
qed

lemma low_bytes:
  "(ucast (ucast (v :: u32) :: u16) :: u8) = ucast v"
  "(ucast (drop_bit 8 (ucast (v :: u32) :: u16)) :: u8) = ucast (drop_bit 8 v)"
  by (rule bit_word_eqI; simp add: bit_ucast_iff bit_drop_bit_eq)+

lemma put32_byte:
  "put32 v a d i = (if a \<le> i \<and> i < a + 4 then ucast (drop_bit (8 * (i - a)) v) else d i)"
proof -
  consider "i = a" | "i = a + 1" | "i = a + 2" | "i = a + 3" | "i < a \<or> a + 4 \<le> i" by linarith
  then show ?thesis by cases (auto simp: put32_def put16_def low_bytes drop_bit_drop_bit)
qed

lemma map_bit_word: "map_bit d n = bit (get32 d (4 * (n div 32))) (n mod 32)"
proof -
  have "bit (get32 d (4 * (n div 32))) (n mod 32) = bit (d (4 * (n div 32) + n mod 32 div 8)) (n mod 32 mod 8)"
    by (intro bit_get32) simp
  also have "4 * (n div 32) + n mod 32 div 8 = (n mod 32 + 8 * (4 * (n div 32))) div 8" by (simp only: div_mult_self2)
  also have "n mod 32 + 8 * (4 * (n div 32)) = n" by simp
  also have "n mod 32 mod 8 = n mod 8" by (simp add: mod_mod_cancel)
  finally show ?thesis by (simp add: map_bit_def)
qed

lemma map_bit_put32:
  "map_bit (put32 v (4 * k) d) n = (if n div 32 = k then bit v (n mod 32) else map_bit d n)"
proof (cases "n div 32 = k")
  case True
  have "get32 (put32 v (4 * k) d) (4 * k) = v"
  proof (rule bit_word_eqI)
    fix j assume "j < LENGTH(32)"
    then have j: "j < 32" by simp
    have b: "j div 8 < 4" "8 * (j div 8) + j mod 8 = j" "j mod 8 < 8" using j by auto
    show "bit (get32 (put32 v (4 * k) d) (4 * k)) j = bit v j"
      using j b by (simp add: bit_get32 put32_byte bit_ucast_iff bit_drop_bit_eq)
  qed
  then show ?thesis using True by (simp add: map_bit_word)
next
  case False
  have "n div 32 = n div 8 div 4" by (simp add: div_mult2_eq [symmetric])
  then have "n div 8 div 4 \<noteq> k" using False by simp
  then have "n div 8 < 4 * k \<or> 4 * k + 4 \<le> n div 8" by linarith
  then show ?thesis using False by (auto simp: map_bit_def put32_byte)
qed

lemma and_bit: "j < 32 \<Longrightarrow> (w :: u32) AND push_bit j 1 \<noteq> 0 \<longleftrightarrow> bit w j"
proof -
  assume j: "j < 32"
  then have b: "bit (push_bit j (1 :: u32)) j" by (simp add: bit_exp_iff)
  show ?thesis
  proof
    assume "w AND push_bit j 1 \<noteq> 0"
    then obtain k where "bit (w AND push_bit j 1) k" using bit_eqI [of "w AND push_bit j 1" 0] by auto
    then show "bit w j" by (auto simp: bit_and_iff bit_exp_iff)
  next
    assume "bit w j"
    then have "bit (w AND push_bit j 1) j" using b by (simp only: bit_and_iff)
    then show "w AND push_bit j 1 \<noteq> 0" by (metis bit_0_eq bot_apply bot_bool_def)
  qed
qed

lemma set_bit_map:
  "fst (set_bit n d) = map_bit d n" "map_bit (snd (set_bit n d)) m = (m = n \<or> map_bit d m)"
proof -
  have eq: "m div 32 = n div 32 \<and> m mod 32 = n mod 32 \<longleftrightarrow> m = n" by (metis div_mult_mod_eq)
  show "fst (set_bit n d) = map_bit d n"
    using and_bit [of "n mod 32" "get32 d (4 * (n div 32))"] by (simp add: set_bit_def Let_def map_bit_word)
  have "map_bit (snd (set_bit n d)) m = (if m div 32 = n div 32 then map_bit d m \<or> m mod 32 = n mod 32 else map_bit d m)"
    by (simp add: set_bit_def Let_def map_bit_put32 bit_or_iff bit_exp_iff map_bit_word [of d m])
  then show "map_bit (snd (set_bit n d)) m = (m = n \<or> map_bit d m)" using eq by auto
qed

lemma clear_bit_map:
  "fst (clear_bit n d) = (\<not> map_bit d n)" "map_bit (snd (clear_bit n d)) m = (m \<noteq> n \<and> map_bit d m)"
proof -
  have eq: "m div 32 = n div 32 \<and> m mod 32 = n mod 32 \<longleftrightarrow> m = n" by (metis div_mult_mod_eq)
  show "fst (clear_bit n d) = (\<not> map_bit d n)"
    using and_bit [of "n mod 32" "get32 d (4 * (n div 32))"] by (auto simp: clear_bit_def Let_def map_bit_word)
  have "map_bit (snd (clear_bit n d)) m = (if m div 32 = n div 32 then map_bit d m \<and> m mod 32 \<noteq> n mod 32 else map_bit d m)"
    by (simp add: clear_bit_def Let_def map_bit_put32 bit_and_iff bit_not_iff bit_exp_iff map_bit_word [of d m])
  then show "map_bit (snd (clear_bit n d)) m = (m \<noteq> n \<and> map_bit d m)" using eq by auto
qed

lemma full_word: "(w :: u32) = 0xFFFFFFFF \<longleftrightarrow> (\<forall>j<32. bit w j)"
proof -
  have m: "(0xFFFFFFFF :: u32) = mask 32" by (simp add: mask_eq_exp_minus_1)
  show ?thesis unfolding m by (auto simp: bit_mask_iff intro!: bit_word_eqI)
qed

lemma first_index_upt:
  "first_index P [0..<n] \<le> n" "first_index P [0..<n] < n \<Longrightarrow> P (first_index P [0..<n])"
  "m < first_index P [0..<n] \<Longrightarrow> \<not> P m"
  using first_index_le [of P "[0..<n]"] first_index_sat [of P "[0..<n]"] first_index_before [of m P "[0..<n]"]
  by (auto simp: nth_append)

lemma find_first_zero_map:
  "find_first_zero d \<le> 8192 \<and> find_first_zero d \<notin> map_set d \<and> (\<forall>m<find_first_zero d. m \<in> map_set d)"
proof -
  define i where "i = first_index (\<lambda>i. get32 d (4 * i) \<noteq> 0xFFFFFFFF) [0..<256]"
  have before: "map_bit d m" if "m div 32 < i" for m
    using first_index_upt(3) [of "m div 32" "\<lambda>i. get32 d (4 * i) \<noteq> 0xFFFFFFFF" 256] that full_word
    by (simp add: i_def map_bit_word)
  have ile: "i \<le> 256" unfolding i_def by (rule first_index_upt(1))
  show ?thesis
  proof (cases "i < 256")
    case False
    then have eq: "find_first_zero d = 8192" by (simp add: find_first_zero_def Let_def i_def [symmetric])
    have "m div 32 < i" if "m < 8192" for m using that False by simp
    then show ?thesis using before eq by (auto simp: map_set_def)
  next
    case True
    let ?w = "get32 d (4 * i)"
    define j where "j = first_index (\<lambda>j. NOT ?w AND push_bit j 1 \<noteq> 0) [0..<32]"
    have eq: "find_first_zero d = i * 32 + j"
      using True by (simp add: find_first_zero_def Let_def i_def [symmetric] j_def)
    have "?w \<noteq> 0xFFFFFFFF"
      using first_index_upt(2) [of "\<lambda>i. get32 d (4 * i) \<noteq> 0xFFFFFFFF" 256] True by (simp add: i_def)
    then obtain k where "k < 32" "\<not> bit ?w k" using full_word by blast
    then have "NOT ?w AND push_bit k 1 \<noteq> 0" using and_bit [of k "NOT ?w"] by (simp only: bit_not_iff) simp
    then have j: "j < 32" using \<open>k < 32\<close> first_index_lt [of "\<lambda>j. NOT ?w AND push_bit j 1 \<noteq> 0" "[0..<32]"]
      by (auto simp: j_def)
    have "\<not> bit ?w j"
      using first_index_upt(2) [of "\<lambda>j. NOT ?w AND push_bit j 1 \<noteq> 0" 32] and_bit [OF j, of "NOT ?w"] j
      by (simp only: j_def [symmetric] bit_not_iff) blast
    then have "\<not> map_bit d (i * 32 + j)" using j by (simp add: map_bit_word)
    moreover have "map_bit d m" if m: "m < i * 32 + j" for m
    proof (cases "m div 32 < i")
      case True
      then show ?thesis by (rule before)
    next
      case False
      have md: "m div 32 * 32 + m mod 32 = m" by simp
      have mi: "m div 32 = i" using False m j by linarith
      then have "m mod 32 < j" using m md by linarith
      then have "\<not> (NOT ?w AND push_bit (m mod 32) 1 \<noteq> 0)"
        using first_index_upt(3) [of "m mod 32" "\<lambda>j. NOT ?w AND push_bit j 1 \<noteq> 0" 32] unfolding j_def by blast
      then have "bit ?w (m mod 32)" using and_bit [of "m mod 32" "NOT ?w"] by (simp only: bit_not_iff) simp
      then show ?thesis using mi by (simp add: map_bit_word)
    qed
    ultimately show ?thesis using eq True j by (auto simp: map_set_def)
  qed
qed

interpretation bmap: allocator 8192 map_set find_first_zero set_bit clear_bit
  using find_first_zero_map by unfold_locales (auto simp: map_set_def set_bit_map clear_bit_map)

text \<open>
  C9: the bitmap routines implement a set of numbers below 8192. \<open>find_first_zero\<close> is the least number
  not in the set, or 8192 when all are; \<open>set_bit\<close> and \<open>clear_bit\<close> add and remove a number and report
  whether it was there or missing already; and freeing what was just allocated restores the set.
\<close>

theorem bitmap_implements_set:
  assumes "n < 8192"
  shows "find_first_zero d = (if map_set d = {..<8192} then 8192 else Min ({..<8192} - map_set d)) \<and>
    fst (set_bit n d) = (n \<in> map_set d) \<and> map_set (snd (set_bit n d)) = insert n (map_set d) \<and>
    fst (clear_bit n d) = (n \<notin> map_set d) \<and> map_set (snd (clear_bit n d)) = map_set d - {n} \<and>
    (if find_first_zero d < 8192
     then map_set (snd (clear_bit (find_first_zero d) (snd (set_bit (find_first_zero d) d)))) = map_set d
     else map_set d = {..<8192})"
proof -
  have "if find_first_zero d < 8192
     then map_set (snd (clear_bit (find_first_zero d) (snd (set_bit (find_first_zero d) d)))) = map_set d
     else map_set d = {..<8192}"
    using bmap.give_take [of d] bmap.full_iff [of d] bmap.first_le [of d] by auto
  then show ?thesis
    using bmap.first_eq [of d] bmap.take_set [OF assms, of d] bmap.give_set [OF assms, of d] by (intro conjI) blast+
qed

theorem bitmap_implements_set_witness:
  "(5 :: nat) < 8192 \<and> map_set (snd (set_bit 5 (\<lambda>_. 0))) = {5} \<and> find_first_zero (\<lambda>_. 0) = 0"
proof -
  have e: "map_set (\<lambda>_. 0) = {}" by (simp add: map_set_def map_bit_def)
  have "Min ({..<8192} - {} :: nat set) = 0" by (rule Min_eqI) auto
  moreover have "(0 :: nat) \<in> {..<8192}" by simp
  then have "({} :: nat set) \<noteq> {..<8192}" by blast
  ultimately show ?thesis using bitmap_implements_set [of 5 "\<lambda>_. 0"] by (simp add: e)
qed

end
