(* ===== verification/Inode_Correct.thy ===== *)
theory Inode_Correct
  imports Inode
begin

text \<open>
  I-nodes on disk: writing an i-node into its slot and reading it back, and the independence of the
  slots of a block.
\<close>

section \<open>Words and bytes\<close>

lemma bytes_of_Suc: "bytes_of (Suc n) v = ucast v # bytes_of n (drop_bit 8 v)"
  by (simp add: bytes_of_def upt_conv_Cons map_Suc_upt [symmetric] drop_bit_drop_bit add.commute [of 8] del: upt_Suc)

lemma length_bytes_of [simp]: "length (bytes_of n v) = n"
  by (simp add: bytes_of_def)

lemma nth_bytes_of [simp]: "i < n \<Longrightarrow> bytes_of n v ! i = ucast (drop_bit (8 * i) v)"
  by (simp add: bytes_of_def)

lemma word_of_bytes_of: "word_of (bytes_of n v) = take_bit (8 * n) v"
proof (induction n arbitrary: v)
  case 0
  then show ?case by (simp add: word_of_def bytes_of_def)
next
  case (Suc n)
  have "word_of (bytes_of (Suc n) v) = ucast (ucast v :: u8) OR push_bit 8 (take_bit (8 * n) (drop_bit 8 v))"
    using Suc.IH [of "drop_bit 8 v"] by (simp add: bytes_of_Suc word_of_def)
  also have "\<dots> = take_bit (8 * Suc n) v"
    by (rule bit_word_eqI) (auto simp: bit_or_iff bit_ucast_iff bit_push_bit_iff bit_take_bit_iff bit_drop_bit_eq)
  finally show ?case .
qed

lemma word_of_bytes_8: "word_of (bytes_of 8 v) = v"
proof -
  have "take_bit 64 v = v" by (rule bit_word_eqI) (simp add: bit_take_bit_iff)
  then show ?thesis by (simp add: word_of_bytes_of)
qed

lemma put_bytes_at: "j < length bs \<Longrightarrow> put_bytes bs a d (a + j) = bs ! j"
  by (simp add: put_bytes_def)

lemma put_bytes_out: "k < a \<or> a + length bs \<le> k \<Longrightarrow> put_bytes bs a d k = d k"
  by (auto simp: put_bytes_def)

lemma get64_bytes: "bs = map (\<lambda>i. d (a + i)) [0..<8] \<Longrightarrow> get64 d a = word_of bs"
  by (simp add: get64_def)

lemma get16_bytes:
  "d a = ucast v \<Longrightarrow> d (a + 1) = ucast (drop_bit 8 (ucast v :: u64)) \<Longrightarrow> get16 d a = (v :: u16)"
  by (rule bit_word_eqI) (auto simp: get16_def bit_or_iff bit_ucast_iff bit_push_bit_iff bit_drop_bit_eq)

section \<open>Slots\<close>

lemma zone_bytes:
  "length (concat (map (\<lambda>z. bytes_of 2 (ucast z)) (zs :: u16 list))) = 2 * length zs"
  "k < length zs \<Longrightarrow> j < 2 \<Longrightarrow>
    concat (map (\<lambda>z. bytes_of 2 (ucast z)) zs) ! (2 * k + j) = ucast (drop_bit (8 * j) (ucast (zs ! k) :: u64))"
proof (induction zs arbitrary: k)
  case (Cons z zs)
  { case 1 then show ?case using Cons.IH(1) by simp }
  { case 2 then show ?case using Cons.IH(2) [of "k - 1"] by (cases k) (simp_all add: nth_append) }
qed simp_all

lemma encode_bytes:
  assumes "length (d_zone i) = 9"
  shows "encode_inode i a d (a + k) =
    (if k < 2 then ucast (drop_bit (8 * k) (ucast (d_mode i) :: u64))
     else if k < 4 then ucast (drop_bit (8 * (k - 2)) (ucast (d_uid i) :: u64))
     else if k < 8 then d (a + k)
     else if k < 16 then ucast (drop_bit (8 * (k - 8)) (d_size i))
     else if k < 24 then ucast (drop_bit (8 * (k - 16)) (d_time i))
     else if k = 24 then d_gid i
     else if k = 25 then d_nlinks i
     else if k < 44 then ucast (drop_bit (8 * (k mod 2)) (ucast (d_zone i ! ((k - 26) div 2)) :: u64))
     else d (a + k))"
proof -
  define zs where "zs = concat (map (\<lambda>z. bytes_of 2 (ucast z)) (d_zone i))"
  have lz: "length zs = 18" using assms by (simp add: zs_def zone_bytes(1))
  have nz: "zs ! m = ucast (drop_bit (8 * (m mod 2)) (ucast (d_zone i ! (m div 2)) :: u64))" if "m < 18" for m
  proof -
    have "m div 2 < 9" using that by simp
    then show ?thesis using zone_bytes(2) [of "m div 2" "d_zone i" "m mod 2"] assms by (simp add: zs_def)
  qed
  have par: "(k - 26) mod 2 = k mod 2" if "26 \<le> k"
  proof -
    have "k mod 2 = (k - 26 + 2 * 13) mod 2" using that by simp
    then show ?thesis by (simp only: mod_mult_self2)
  qed
  have e: "encode_inode i a d (a + k) =
    (if k < 4 then (bytes_of 2 (ucast (d_mode i)) @ bytes_of 2 (ucast (d_uid i))) ! k
     else if 8 \<le> k \<and> k < 44 then (bytes_of 8 (d_size i) @ bytes_of 8 (d_time i) @ [d_gid i, d_nlinks i] @ zs) ! (k - 8)
     else d (a + k))"
    using lz by (simp add: encode_inode_def put_bytes_def zs_def [symmetric] del: append.simps)
  show ?thesis using par nz [of "k - 26"] unfolding e by (auto simp: nth_append nth_Cons')
qed

lemma encode_outside:
  assumes "length (d_zone i) = 9" "m < a \<or> a + 48 \<le> m"
  shows "encode_inode i a d m = d m"
proof (cases "m < a")
  case True
  then show ?thesis by (simp add: encode_inode_def put_bytes_out)
next
  case False
  then obtain k where "m = a + k" by (metis le_add_diff_inverse not_le)
  then show ?thesis using assms False encode_bytes [OF assms(1), of a d k] by simp
qed

lemma get64_of: "(\<And>k. k < 8 \<Longrightarrow> d (a + k) = ucast (drop_bit (8 * k) v)) \<Longrightarrow> get64 d a = v"
proof -
  assume b: "\<And>k. k < 8 \<Longrightarrow> d (a + k) = ucast (drop_bit (8 * k) v)"
  have "map (\<lambda>i. d (a + i)) [0..<8] = bytes_of 8 v" by (auto simp: bytes_of_def b)
  then show ?thesis by (simp add: get64_def word_of_bytes_8)
qed

lemma get16_of:
  "(\<And>k. k < 2 \<Longrightarrow> d (a + k) = ucast (drop_bit (8 * k) (ucast v :: u64))) \<Longrightarrow> get16 d a = (v :: u16)"
proof -
  assume b: "\<And>k. k < 2 \<Longrightarrow> d (a + k) = ucast (drop_bit (8 * k) (ucast v :: u64))"
  have "(ucast (ucast v :: u64) :: u8) = ucast v" by (rule bit_word_eqI) (simp add: bit_ucast_iff)
  then have "d a = ucast v" using b [of 0] by simp
  moreover have "d (a + 1) = ucast (drop_bit 8 (ucast v :: u64))" using b [of 1] by simp
  ultimately show ?thesis by (rule get16_bytes)
qed

lemma decode_encode:
  assumes "length (d_zone i) = 9"
  shows "decode_inode (encode_inode i a d) a = i"
proof -
  note e = encode_bytes [OF assms]
  have "get16 (encode_inode i a d) (a + 26 + 2 * k) = d_zone i ! k" if "k < 9" for k
  proof (rule get16_of)
    fix j :: nat assume j: "j < 2"
    have "26 + 2 * k + j = j + 2 * (13 + k)" by simp
    then have r: "(26 + 2 * k + j) mod 2 = j" "(26 + 2 * k + j - 26) div 2 = k" using j by (simp_all only: mod_mult_self2) auto
    show "encode_inode i a d (a + 26 + 2 * k + j) = ucast (drop_bit (8 * j) (ucast (d_zone i ! k) :: u64))"
      using that j e [of a d "26 + 2 * k + j", unfolded r] by (simp add: add.assoc)
  qed
  then have z: "map (\<lambda>k. get16 (encode_inode i a d) (a + 26 + 2 * k)) [0..<9] = d_zone i"
    using assms by (intro nth_equalityI) auto
  have m: "get16 (encode_inode i a d) a = d_mode i" by (rule get16_of) (simp add: e)
  have u: "get16 (encode_inode i a d) (a + 2) = d_uid i"
  proof (rule get16_of)
    fix k :: nat assume "k < 2"
    then show "encode_inode i a d (a + 2 + k) = ucast (drop_bit (8 * k) (ucast (d_uid i) :: u64))"
      using e [of a d "2 + k"] by (simp add: add.assoc)
  qed
  have sz: "get64 (encode_inode i a d) (a + 8) = d_size i"
  proof (rule get64_of)
    fix k :: nat assume "k < 8"
    then show "encode_inode i a d (a + 8 + k) = ucast (drop_bit (8 * k) (d_size i))"
      using e [of a d "8 + k"] by (simp add: add.assoc)
  qed
  have tm: "get64 (encode_inode i a d) (a + 16) = d_time i"
  proof (rule get64_of)
    fix k :: nat assume "k < 8"
    then show "encode_inode i a d (a + 16 + k) = ucast (drop_bit (8 * k) (d_time i))"
      using e [of a d "16 + k"] by (simp add: add.assoc)
  qed
  show ?thesis using m u sz tm z e [of a d 24] e [of a d 25] by (simp add: decode_inode_def)
qed

lemma decode_cong:
  assumes "\<And>k. k < 48 \<Longrightarrow> d (a + k) = d' (a + k)"
  shows "decode_inode d a = decode_inode d' a"
proof -
  have g16: "get16 d (a + k) = get16 d' (a + k)" if "k < 46" for k
    using that assms [of k] assms [of "k + 1"] by (simp add: get16_def add.assoc)
  have g64: "get64 d (a + k) = get64 d' (a + k)" if "k < 40" for k
    using that assms [of "k + j" for j] by (auto simp: get64_def add.assoc intro!: arg_cong [of _ _ word_of])
  have z: "map (\<lambda>k. get16 d (a + 26 + 2 * k)) [0..<9] = map (\<lambda>k. get16 d' (a + 26 + 2 * k)) [0..<9]"
    using g16 [of "26 + 2 * k" for k] by (auto simp: add.assoc)
  show ?thesis using g16 [of 0] g16 [of 2] g64 [of 8] g64 [of 16] assms [of 24] assms [of 25] z
    by (simp add: decode_inode_def)
qed



end
