(* ===== verification/Linked_List.thy ===== *)
theory Linked_List
  imports Prelude
begin

text \<open>
  Doubly linked lists given by their two link functions: lists between two elements, which a ring
  closes up, and lists that end with a null pointer; what removing and inserting does to them.
\<close>

text \<open>From \<open>a\<close> the forward links lead through \<open>xs\<close> to \<open>b\<close>, and the backward links lead back.\<close>

fun seg :: "(nat \<Rightarrow> nat) \<Rightarrow> (nat \<Rightarrow> nat) \<Rightarrow> nat \<Rightarrow> nat list \<Rightarrow> nat \<Rightarrow> bool" where
  "seg nx pv a [] b \<longleftrightarrow> nx a = b \<and> pv b = a"
| "seg nx pv a (x # xs) b \<longleftrightarrow> nx a = x \<and> pv x = a \<and> seg nx pv x xs b"

text \<open>The same for a list that ends with a null pointer.\<close>

fun chain :: "(nat \<Rightarrow> nat) \<Rightarrow> (nat \<Rightarrow> nat) \<Rightarrow> nat \<Rightarrow> nat list \<Rightarrow> bool" where
  "chain nx pv a [] \<longleftrightarrow> nx a = 0"
| "chain nx pv a (x # xs) \<longleftrightarrow> nx a = x \<and> pv x = a \<and> x \<noteq> 0 \<and> chain nx pv x xs"

lemma seg_append: "seg nx pv a (xs @ y # ys) b \<longleftrightarrow> seg nx pv a xs y \<and> seg nx pv y ys b"
  by (induction xs arbitrary: a) auto

lemma chain_append: "chain nx pv a (xs @ y # ys) \<longleftrightarrow> seg nx pv a xs y \<and> y \<noteq> 0 \<and> 0 \<notin> set xs \<and> chain nx pv y ys"
  by (induction xs arbitrary: a) auto

lemma seg_cong:
  assumes "\<And>x. x \<in> set (a # xs) \<Longrightarrow> nx x = nx' x" "\<And>x. x \<in> set (xs @ [b]) \<Longrightarrow> pv x = pv' x"
  shows "seg nx pv a xs b = seg nx' pv' a xs b"
  using assms by (induction xs arbitrary: a) simp_all

lemma chain_cong:
  assumes "\<And>x. x \<in> set (a # xs) \<Longrightarrow> nx x = nx' x" "\<And>x. x \<in> set xs \<Longrightarrow> pv x = pv' x"
  shows "chain nx pv a xs = chain nx' pv' a xs"
  using assms by (induction xs arbitrary: a) simp_all

lemma seg_ends:
  assumes "seg nx pv a xs b"
  shows "nx a = hd (xs @ [b])" "pv b = last (a # xs)"
  using assms by (induction xs arbitrary: a) (auto split: if_splits)

lemma seg_end:
  assumes "seg nx pv a xs b" "distinct (a # xs)" "y \<notin> set xs"
  shows "seg (nx(last (a # xs) := y)) (pv(y := last (a # xs))) a xs y"
  using assms
proof (induction xs arbitrary: a)
  case (Cons x xs)
  define l where "l = last (x # xs)"
  have ne: "l \<noteq> a" using Cons.prems(2) last_in_set [of "x # xs"] by (auto simp: l_def)
  have "seg (nx(l := y)) (pv(y := l)) x xs y"
    unfolding l_def by (intro Cons.IH) (use Cons.prems in auto)
  moreover have "last (a # x # xs) = l" by (simp add: l_def)
  moreover have "(nx(l := y)) a = nx a" "(pv(y := l)) x = pv x" using ne Cons.prems(3) by auto
  ultimately show ?case using Cons.prems(1) by (simp del: fun_upd_apply)
qed simp

lemma seg_snoc:
  assumes "seg nx pv a xs b" "distinct (a # xs)" "b \<notin> set xs" "y \<notin> set (a # xs)" "y \<noteq> b"
  shows "seg (nx(y := b, last (a # xs) := y)) (pv(y := last (a # xs), b := y)) a (xs @ [y]) b"
proof -
  have l: "last (a # xs) \<noteq> y" using assms(4) last_in_set [of "a # xs"] by auto
  have "seg (nx(last (a # xs) := y)) (pv(y := last (a # xs))) a xs y"
    using assms by (intro seg_end) auto
  then have "seg (nx(y := b, last (a # xs) := y)) (pv(y := last (a # xs), b := y)) a xs y"
    by (subst seg_cong) (use assms l in auto)
  then show ?thesis using l assms(5) by (simp add: seg_append)
qed

lemma seg_remove:
  assumes "seg nx pv a us y" "seg nx pv y vs b" "distinct (a # us @ y # vs)" "b \<notin> set (us @ y # vs)"
  shows "seg (nx(pv y := nx y)) (pv(nx y := pv y)) a (us @ vs) b"
proof -
  have p: "pv y = last (a # us)" and n: "nx y = hd (vs @ [b])"
    using seg_ends [OF assms(1)] seg_ends [OF assms(2)] by simp_all
  have l: "last (a # us) \<in> set (a # us)" by (rule last_in_set) simp
  show ?thesis
  proof (cases vs)
    case Nil
    then show ?thesis using seg_end [OF assms(1), of b] assms(3,4) by (simp add: p n)
  next
    case (Cons v ws)
    have "seg (nx(pv y := nx y)) (pv(nx y := pv y)) a us v"
      using seg_end [OF assms(1), of v] assms(3) by (simp add: p n Cons)
    moreover have "seg (nx(pv y := nx y)) (pv(nx y := pv y)) v ws b"
      using assms(2) unfolding Cons p n by (subst seg_cong [where nx' = nx and pv' = pv]) (use assms(3,4) l Cons in auto)
    ultimately show ?thesis by (simp add: Cons seg_append)
  qed
qed

lemma chain_end:
  assumes "seg nx pv a us y" "distinct (a # us)" "0 \<notin> set us"
  shows "chain (nx(last (a # us) := 0)) pv a us"
  using assms
proof (induction us arbitrary: a)
  case (Cons x us)
  define l where "l = last (x # us)"
  have ne: "l \<noteq> a" using Cons.prems(2) last_in_set [of "x # us"] by (auto simp: l_def)
  have "chain (nx(l := 0)) pv x us" unfolding l_def by (intro Cons.IH) (use Cons.prems in auto)
  moreover have "last (a # x # us) = l" by (simp add: l_def)
  moreover have "(nx(l := 0)) a = nx a" using ne by simp
  ultimately show ?case using Cons.prems(1,3) by (simp del: fun_upd_apply)
qed simp

lemma chain_remove:
  assumes "seg nx pv a us y" "chain nx pv y vs" "distinct (a # us @ y # vs)" "0 \<notin> set us"
  shows "chain (nx(pv y := nx y)) (if nx y = 0 then pv else pv(nx y := pv y)) a (us @ vs)"
proof -
  have p: "pv y = last (a # us)" using seg_ends [OF assms(1)] by simp
  have l: "last (a # us) \<in> set (a # us)" by (rule last_in_set) simp
  show ?thesis
  proof (cases vs)
    case Nil
    then show ?thesis using chain_end [OF assms(1)] assms(2-4) by (simp add: p)
  next
    case (Cons v ws)
    have n: "nx y = v" "v \<noteq> 0" using assms(2) Cons by auto
    have "seg (nx(pv y := v)) (pv(v := pv y)) a us v"
      using seg_end [OF assms(1), of v] assms(3) by (simp add: p Cons)
    moreover have "chain (nx(pv y := v)) (pv(v := pv y)) v ws"
      using assms(2) unfolding Cons p by (subst chain_cong [where nx' = nx and pv' = pv]) (use assms(3) l Cons in auto)
    ultimately show ?thesis using n assms(4) by (simp add: Cons chain_append)
  qed
qed

lemma seg_rotate: "seg nx pv a (x # xs) a \<Longrightarrow> seg nx pv x (xs @ [a]) x"
  by (simp add: seg_append)

end
