(* ===== verification/Start.thy ===== *)
theory Start
  imports Fs_State Tty_Correct
begin

text \<open>
  A machine whose file system tables are as the program image has them, all zero: the state the
  examples for the file system start from.
\<close>

definition start_fs :: "(u64 \<Rightarrow> u8) \<Rightarrow> fs" where
  "start_fs um = ttys.extend (start_ttys um tty_table_init)
     (fs.fields [] 0 (replicate NR_HASH 0) 0 0 (replicate NR_INODE zero_inode) 0
        (replicate NR_FILE \<lparr>f_mode = 0, f_flags = 0, f_count = 0, f_inode = 0, f_pos = 0\<rparr>)
        (replicate NR_SUPER \<lparr>s_ninodes = 0, s_nzones = 0, s_imap_blocks = 0, s_zmap_blocks = 0,
           s_firstdatazone = 0, s_log_zone_size = 0, s_max_size = 0, s_magic = 0, s_imap = replicate 8 0,
           s_zmap = replicate 8 0, s_dev = 0, s_isup = 0, s_imount = 0, s_time = 0, s_rd_only = 0, s_dirt = 0\<rparr>)
        (replicate 10 (0, 0))
        (replicate 32 \<lparr>r_hd = 0, r_nsector = 0, r_sector = 0, r_head = 0, r_cyl = 0, r_cmd = 0, r_errors = 0,
           r_bh = 0, r_next = 0\<rparr>)
        0 False None 0 True)"

text \<open>Devices that answer zero and never change the machine.\<close>

definition quiet_env :: "nat \<Rightarrow> 's dev_env" where
  "quiet_env n = \<lparr>e_run = id, e_inb = (\<lambda>_. 0), e_fuel = n, e_in = (\<lambda>_ s. (0, s)), e_inw = (\<lambda>_ s. (0, s)),
     e_out = (\<lambda>_ _ s. s), e_outw = (\<lambda>_ _ s. s)\<rparr>"

lemma start_fs_simps [simp]:
  "umem (start_fs um) = um" "inode_table (start_fs um) = replicate NR_INODE zero_inode"
  "buffers (start_fs um) = []" "hash_table (start_fs um) = replicate NR_HASH 0"
  by (simp_all add: start_fs_def ttys.defs fs.defs start_ttys_def)

lemma quiet_env_fuel [simp]: "e_fuel (quiet_env n) = n" by (simp add: quiet_env_def)

end
