(* ===== verification/Buffer_Links.thy ===== *)
theory Buffer_Links
  imports Buffer Linked_List Start
begin

text \<open>
  The buffer cache keeps its heads on a circular list of all buffers and on hash chains. This
  theory states the invariant of the two structures and shows that the operations of \<open>buffer.c\<close> on
  the links keep it.
\<close>

declare One_nat_def [simp del]

section \<open>The two structures\<close>

definition tab :: "'a fs_scheme \<Rightarrow> nat set" where "tab s = {1..length (buffers s)}"

definition nxf :: "'a fs_scheme \<Rightarrow> nat \<Rightarrow> nat" where "nxf s p = b_next_free (buf s p)"
definition pvf :: "'a fs_scheme \<Rightarrow> nat \<Rightarrow> nat" where "pvf s p = b_prev_free (buf s p)"
definition pvh :: "'a fs_scheme \<Rightarrow> nat \<Rightarrow> nat" where "pvh s p = b_prev (buf s p)"

text \<open>The head of chain \<open>h\<close> is what follows the null pointer.\<close>

definition nxh :: "'a fs_scheme \<Rightarrow> nat \<Rightarrow> nat \<Rightarrow> nat" where
  "nxh s h p = (if p = 0 then hash_table s ! h else b_next (buf s p))"

definition ring_ok :: "'a fs_scheme \<Rightarrow> nat list \<Rightarrow> bool" where
  "ring_ok s r \<longleftrightarrow> r \<noteq> [] \<and> distinct r \<and> set r \<subseteq> tab s \<and> free_list s = hd r \<and>
     seg (nxf s) (pvf s) (hd r) (tl r) (hd r)"

definition chain_ok :: "'a fs_scheme \<Rightarrow> nat \<Rightarrow> nat list \<Rightarrow> bool" where
  "chain_ok s h xs \<longleftrightarrow> distinct xs \<and> set xs \<subseteq> tab s \<and> chain (nxh s h) (pvh s) 0 xs \<and>
     (\<forall>x \<in> set xs. bh_hash (buf s x) = h \<and> b_dev (buf s x) \<noteq> 0)"

definition table_ok :: "'a fs_scheme \<Rightarrow> (nat \<Rightarrow> nat list) \<Rightarrow> bool" where
  "table_ok s B \<longleftrightarrow> length (hash_table s) = NR_HASH \<and> (\<forall>h < NR_HASH. chain_ok s h (B h))"

definition cache_wf :: "'a fs_scheme \<Rightarrow> bool" where
  "cache_wf s \<longleftrightarrow> (\<exists>r. ring_ok s r \<and> set r = tab s) \<and>
     (\<exists>B. table_ok s B \<and> (\<forall>p \<in> tab s. if b_dev (buf s p) = 0 then b_next (buf s p) = 0 \<and> b_prev (buf s p) = 0
                                        else p \<in> set (B (bh_hash (buf s p))))) \<and>
     inj_on (\<lambda>p. (b_dev (buf s p), b_blocknr (buf s p))) {p \<in> tab s. b_dev (buf s p) \<noteq> 0}"

definition buf_at :: "nat \<Rightarrow> (buffer_head \<Rightarrow> buffer_head) \<Rightarrow> 'a fs_scheme \<Rightarrow> 'a fs_scheme" where
  "buf_at p f s = buffers_update (\<lambda>xs. xs[p - 1 := f (xs ! (p - 1))]) s"

lemma in_tab_tab: "in_tab p (buffers s) \<longleftrightarrow> p \<in> tab s" by (auto simp: in_tab_def tab_def)

lemma tab_pos: "p \<in> tab s \<Longrightarrow> 0 < p" by (simp add: tab_def)

lemma upd_buf_at: "p \<in> tab s \<Longrightarrow> upd_buf p f s = Inr ((), buf_at p f s)"
  by (simp add: buf_at_def in_tab_tab)

lemma with_buf_at: "p \<in> tab s \<Longrightarrow> with_buf p g s = g (buf s p) s"
  by (simp add: with_buf_def in_tab_tab)

lemma buf_at_simps [simp]:
  "tab (buf_at p f s) = tab s" "hash_table (buf_at p f s) = hash_table s" "free_list (buf_at p f s) = free_list s"
  "length (buffers (buf_at p f s)) = length (buffers s)"
  by (simp_all add: buf_at_def tab_def)

lemma buf_buf_at: "p \<in> tab s \<Longrightarrow> q \<in> tab s \<Longrightarrow> buf (buf_at p f s) q = (if q = p then f (buf s p) else buf s q)"
  by (auto simp: buf_at_def tab_def nth_list_update)

lemma links_at:
  assumes "p \<in> tab s" "q \<in> tab s"
  shows "nxf (buf_at p f s) q = (if q = p then b_next_free (f (buf s p)) else nxf s q)"
    and "pvf (buf_at p f s) q = (if q = p then b_prev_free (f (buf s p)) else pvf s q)"
    and "pvh (buf_at p f s) q = (if q = p then b_prev (f (buf s p)) else pvh s q)"
    and "nxh (buf_at p f s) h q = (if q = p then b_next (f (buf s p)) else nxh s h q)"
  using assms tab_pos [OF assms(1)] tab_pos [OF assms(2)]
  by (simp_all add: nxf_def pvf_def pvh_def nxh_def buf_buf_at)

lemma links_fields:
  "nxf (s\<lparr>free_list := x\<rparr>) = nxf s" "pvf (s\<lparr>free_list := x\<rparr>) = pvf s"
  by (simp_all add: nxf_def pvf_def fun_eq_iff)

lemma hashfn_lt: "hashfn dev block < NR_HASH"
proof -
  have "unat ((of_int dev XOR of_int block :: u32) mod 307) = unat (of_int dev XOR of_int block :: u32) mod 307"
    by (simp add: unat_mod)
  then show ?thesis by (simp add: hashfn_def)
qed

lemma bh_hash_lt: "bh_hash b < NR_HASH" by (simp add: bh_hash_def hashfn_lt)

section \<open>The circular list\<close>

text \<open>States that differ in the links of the circular list, or in those of the hash chains, only.\<close>

definition fstrip :: "buffer_head \<Rightarrow> buffer_head" where "fstrip b = b\<lparr>b_next_free := 0, b_prev_free := 0\<rparr>"
definition hstrip :: "buffer_head \<Rightarrow> buffer_head" where "hstrip b = b\<lparr>b_next := 0, b_prev := 0\<rparr>"

definition same_hash :: "'a fs_scheme \<Rightarrow> 'a fs_scheme \<Rightarrow> bool" where
  "same_hash s s' \<longleftrightarrow> tab s' = tab s \<and> hash_table s' = hash_table s \<and>
     (\<forall>p \<in> tab s. fstrip (buf s' p) = fstrip (buf s p))"

definition same_ring :: "'a fs_scheme \<Rightarrow> 'a fs_scheme \<Rightarrow> bool" where
  "same_ring s s' \<longleftrightarrow> tab s' = tab s \<and> free_list s' = free_list s \<and>
     (\<forall>p \<in> tab s. hstrip (buf s' p) = hstrip (buf s p))"

lemma fstrip_fields:
  assumes "fstrip b = fstrip c"
  shows "b_data b = b_data c" "b_dev b = b_dev c" "b_blocknr b = b_blocknr c" "b_uptodate b = b_uptodate c"
    "b_dirt b = b_dirt c" "b_count b = b_count c" "b_lock b = b_lock c" "b_wait b = b_wait c"
    "b_prev b = b_prev c" "b_next b = b_next c"
  using assms by (cases b; cases c; simp add: fstrip_def)+

lemma hstrip_fields:
  assumes "hstrip b = hstrip c"
  shows "b_data b = b_data c" "b_dev b = b_dev c" "b_blocknr b = b_blocknr c" "b_uptodate b = b_uptodate c"
    "b_dirt b = b_dirt c" "b_count b = b_count c" "b_lock b = b_lock c" "b_wait b = b_wait c"
    "b_prev_free b = b_prev_free c" "b_next_free b = b_next_free c"
  using assms by (cases b; cases c; simp add: hstrip_def)+

lemma hstrip_eq: "hstrip b = hstrip c \<Longrightarrow> b_next b = b_next c \<Longrightarrow> b_prev b = b_prev c \<Longrightarrow> b = c"
  by (cases b; cases c; simp add: hstrip_def)

lemma same_trans:
  "same_hash s t \<Longrightarrow> same_hash t u \<Longrightarrow> same_hash s u" "same_ring s t \<Longrightarrow> same_ring t u \<Longrightarrow> same_ring s u"
  by (simp_all add: same_hash_def same_ring_def)

lemma same_at:
  "p \<in> tab s \<Longrightarrow> fstrip (f (buf s p)) = fstrip (buf s p) \<Longrightarrow> same_hash s (buf_at p f s)"
  "p \<in> tab s \<Longrightarrow> hstrip (f (buf s p)) = hstrip (buf s p) \<Longrightarrow> same_ring s (buf_at p f s)"
  by (simp_all add: same_hash_def same_ring_def buf_buf_at)

lemma same_fields:
  "same_hash s (s\<lparr>free_list := x\<rparr>)" "same_ring s (s\<lparr>hash_table := y\<rparr>)" "same_ring s (s\<lparr>qmem := m\<rparr>)"
  by (simp_all add: same_hash_def same_ring_def tab_def)

lemma ring_cong:
  assumes "set r \<subseteq> tab s" "r \<noteq> []" "\<And>p. p \<in> tab s \<Longrightarrow> nxf s p = nx p" "\<And>p. p \<in> tab s \<Longrightarrow> pvf s p = pv p"
  shows "seg (nxf s) (pvf s) (hd r) (tl r) (hd r) = seg nx pv (hd r) (tl r) (hd r)"
  using assms by (cases r) (auto simp: subset_iff intro!: seg_cong)

lemma same_ring_links:
  assumes "same_ring s s'"
  shows "tab s' = tab s" "p \<in> tab s \<Longrightarrow> nxf s' p = nxf s p" "p \<in> tab s \<Longrightarrow> pvf s' p = pvf s p"
  using assms by (auto simp: same_ring_def nxf_def pvf_def dest!: bspec [of _ _ p] dest: hstrip_fields)

lemma ring_ok_links:
  assumes "ring_ok s r" "tab s' = tab s" "free_list s' = free_list s"
    and "\<And>p. p \<in> tab s \<Longrightarrow> nxf s' p = nxf s p" "\<And>p. p \<in> tab s \<Longrightarrow> pvf s' p = pvf s p"
  shows "ring_ok s' r"
proof -
  have "seg (nxf s') (pvf s') (hd r) (tl r) (hd r) = seg (nxf s) (pvf s) (hd r) (tl r) (hd r)"
    by (rule ring_cong) (use assms in \<open>auto simp: ring_ok_def\<close>)
  then show ?thesis using assms by (simp add: ring_ok_def)
qed

lemma ring_ok_same:
  assumes "same_ring s s'" "ring_ok s r"
  shows "ring_ok s' r"
proof (rule ring_ok_links [OF assms(2)])
  show "free_list s' = free_list s" using assms(1) unfolding same_ring_def by blast
qed (use same_ring_links [OF assms(1)] in blast)+

lemma ring_ok_at:
  assumes "ring_ok s r" "p \<in> tab s" "b_next_free (f (buf s p)) = b_next_free (buf s p)"
    "b_prev_free (f (buf s p)) = b_prev_free (buf s p)"
  shows "ring_ok (buf_at p f s) r"
  by (rule ring_ok_links [OF assms(1)]) (use assms(2-4) in \<open>simp_all add: nxf_def pvf_def buf_buf_at\<close>)

lemma ring_split:
  assumes "ring_ok s r" "bh \<in> set r" "2 \<le> length r"
  obtains g us where "set r = insert bh (insert g (set us))" "distinct (g # us @ [bh])"
    "g = (if free_list s = bh then nxf s bh else free_list s)"
    "\<exists>xs ys. us = xs @ ys \<and> seg (nxf s) (pvf s) g xs bh \<and> seg (nxf s) (pvf s) bh ys g"
proof -
  obtain f zs where r: "r = f # zs" using assms(1) by (cases r) (auto simp: ring_ok_def)
  have z: "seg (nxf s) (pvf s) f zs f" "distinct (f # zs)" "free_list s = f" using assms(1) by (auto simp: ring_ok_def r)
  show thesis
  proof (cases "bh = f")
    case True
    then obtain g us where zs: "zs = g # us" using assms(3) r by (cases zs) auto
    have "seg (nxf s) (pvf s) g us bh" "seg (nxf s) (pvf s) bh [] g" using z(1) zs True by simp_all
    then have "\<exists>xs ys. us = xs @ ys \<and> seg (nxf s) (pvf s) g xs bh \<and> seg (nxf s) (pvf s) bh ys g"
      by (intro exI [of _ us] exI [of _ "[]"]) simp
    then show thesis by (rule that [rotated 3]) (use z zs True r in auto)
  next
    case False
    then obtain xs ys where zs: "zs = xs @ bh # ys" using assms(2) r by (auto dest: split_list)
    have "seg (nxf s) (pvf s) f xs bh" "seg (nxf s) (pvf s) bh ys f" using z(1) by (simp_all add: zs seg_append)
    then have "\<exists>us vs. xs @ ys = us @ vs \<and> seg (nxf s) (pvf s) f us bh \<and> seg (nxf s) (pvf s) bh vs f"
      by (intro exI [of _ xs] exI [of _ ys]) simp
    then show thesis by (rule that [rotated 3]) (use z zs False r in auto)
  qed
qed

lemma remove_from_free_ok:
  assumes "ring_ok s r" "bh \<in> set r" "2 \<le> length r"
  shows "\<exists>s' r'. remove_from_free bh s = Inr ((), s') \<and> ring_ok s' r' \<and> set r' = set r - {bh} \<and> same_hash s s'"
proof -
  obtain g us xs ys where g: "set r = insert bh (insert g (set us))" "distinct (g # us @ [bh])"
      "g = (if free_list s = bh then nxf s bh else free_list s)" "us = xs @ ys"
      "seg (nxf s) (pvf s) g xs bh" "seg (nxf s) (pvf s) bh ys g"
    using ring_split [OF assms] by metis
  let ?p = "pvf s bh" and ?n = "nxf s bh"
  have pn: "?p = last (g # xs)" "?n = hd (ys @ [g])" using seg_ends g(5,6) by metis+
  have t: "set r \<subseteq> tab s" using assms(1) by (simp add: ring_ok_def)
  have p: "?p \<in> tab s" "?p \<noteq> bh" using last_in_set [of "g # xs"] g(1,2,4) t by (auto simp: pn(1))
  have n: "?n \<in> tab s" "?n \<noteq> bh" using list.set_sel(1) [of "ys @ [g]"] g(1,2,4) t by (auto simp: pn(2))
  have b: "bh \<in> tab s" using g(1) t by auto
  let ?s1 = "buf_at ?p (\<lambda>x. x\<lparr>b_next_free := ?n\<rparr>) s"
  let ?s2 = "buf_at ?n (\<lambda>x. x\<lparr>b_prev_free := ?p\<rparr>) ?s1"
  let ?s' = "if free_list s = bh then ?s2\<lparr>free_list := ?n\<rparr> else ?s2"
  have ex: "remove_from_free bh s = Inr ((), ?s')"
    using p n b tab_pos [OF p(1)] tab_pos [OF n(1)]
    by (simp add: remove_from_free_def with_buf_at upd_buf_at buf_buf_at nxf_def [symmetric] pvf_def [symmetric])
  have nx: "nxf ?s' q = ((nxf s)(?p := ?n)) q" "pvf ?s' q = ((pvf s)(?n := ?p)) q" if "q \<in> tab s" for q
    using that p n by (simp_all add: links_fields links_at pvf_def [symmetric] nxf_def [symmetric])
  have "seg ((nxf s)(?p := ?n)) ((pvf s)(?n := ?p)) g us g"
    unfolding g(4) by (rule seg_remove) (use g in auto)
  moreover have "seg (nxf ?s') (pvf ?s') (hd (g # us)) (tl (g # us)) (hd (g # us)) =
      seg ((nxf s)(?p := ?n)) ((pvf s)(?n := ?p)) (hd (g # us)) (tl (g # us)) (hd (g # us))"
    by (rule ring_cong) (use nx g(1) t in \<open>auto simp: tab_def\<close>)
  ultimately have ring: "ring_ok ?s' (g # us)"
    using g(1-3) t by (auto simp: ring_ok_def tab_def)
  have "same_hash s ?s2"
    by (rule same_trans(1) [OF same_at(1) same_at(1)]) (use p n in \<open>simp_all add: fstrip_def\<close>)
  then have "same_hash s ?s'" by (auto intro: same_trans(1) same_fields(1))
  then show ?thesis using ex ring g(1,2) by (intro exI [of _ ?s'] exI [of _ "g # us"]) auto
qed

lemma insert_into_free_ok:
  assumes "ring_ok s r" "bh \<in> tab s" "bh \<notin> set r"
  shows "\<exists>s'. insert_into_free bh s = Inr ((), s') \<and> ring_ok s' (r @ [bh]) \<and> same_hash s s'"
proof -
  obtain g us where r: "r = g # us" using assms(1) by (cases r) (auto simp: ring_ok_def)
  have g: "seg (nxf s) (pvf s) g us g" "distinct (g # us)" "free_list s = g" "set (g # us) \<subseteq> tab s"
    using assms(1) by (auto simp: ring_ok_def r)
  define l where "l = last (g # us)"
  have l: "l \<in> set (g # us)" unfolding l_def by (rule last_in_set) simp
  have pg: "pvf s g = l" using seg_ends(2) [OF g(1)] by (simp add: l_def)
  have t: "l \<in> tab s" "g \<in> tab s" "l \<noteq> bh" "g \<noteq> bh" using l g(4) assms(3) r by auto
  define s1 where "s1 = buf_at bh (\<lambda>x. x\<lparr>b_next_free := g\<rparr>) s"
  define s2 where "s2 = buf_at bh (\<lambda>x. x\<lparr>b_prev_free := l\<rparr>) s1"
  define s3 where "s3 = buf_at l (\<lambda>x. x\<lparr>b_next_free := bh\<rparr>) s2"
  define s4 where "s4 = buf_at g (\<lambda>x. x\<lparr>b_prev_free := bh\<rparr>) s3"
  note defs = s1_def s2_def s3_def s4_def
  have ex: "insert_into_free bh s = Inr ((), s4)"
    using assms(2) t pg g(3)
    by (simp add: insert_into_free_def defs with_buf_at upd_buf_at links_at pvf_def [symmetric])
  have nx: "nxf s4 q = ((nxf s)(bh := g, l := bh)) q" "pvf s4 q = ((pvf s)(bh := l, g := bh)) q" if "q \<in> tab s" for q
    using that t assms(2) by (simp_all add: defs links_at nxf_def [symmetric] pvf_def [symmetric])
  have "seg ((nxf s)(bh := g, l := bh)) ((pvf s)(bh := l, g := bh)) g (us @ [bh]) g"
    unfolding l_def using g(1,2) assms(3) r by (intro seg_snoc) auto
  moreover have "seg (nxf s4) (pvf s4) (hd (r @ [bh])) (tl (r @ [bh])) (hd (r @ [bh])) =
      seg ((nxf s)(bh := g, l := bh)) ((pvf s)(bh := l, g := bh)) (hd (r @ [bh])) (tl (r @ [bh])) (hd (r @ [bh]))"
    by (rule ring_cong) (use nx g(4) assms(2) r in \<open>auto simp: defs\<close>)
  ultimately have "ring_ok s4 (r @ [bh])"
    using g(2-4) assms(2,3) r by (auto simp: ring_ok_def defs)
  moreover have "same_hash s s4" unfolding defs
    by (intro same_trans(1) [OF same_trans(1) [OF same_trans(1) [OF same_at(1) same_at(1)] same_at(1)] same_at(1)])
      (use assms(2) t in \<open>simp_all add: fstrip_def\<close>)
  ultimately show ?thesis using ex by auto
qed

section \<open>The hash chains\<close>

lemma chain_ok_cong:
  assumes "chain_ok s h xs" "tab s' = tab s" "hash_table s' ! h = hash_table s ! h"
    and "\<And>x. x \<in> set xs \<Longrightarrow> nxh s' h x = nxh s h x \<and> pvh s' x = pvh s x"
    and "\<And>x. x \<in> set xs \<Longrightarrow> b_dev (buf s' x) = b_dev (buf s x) \<and> b_blocknr (buf s' x) = b_blocknr (buf s x)"
  shows "chain_ok s' h xs"
proof -
  have "nxh s' h 0 = nxh s h 0" using assms(3) by (simp add: nxh_def)
  then have "chain (nxh s' h) (pvh s') 0 xs = chain (nxh s h) (pvh s) 0 xs"
    by (intro chain_cong) (use assms(4) in auto)
  then show ?thesis using assms(1,2,5) by (simp add: chain_ok_def bh_hash_def)
qed

lemma same_hash_links:
  assumes "same_hash s s'" "p \<in> tab s"
  shows "nxh s' h p = nxh s h p" "pvh s' p = pvh s p"
  using assms tab_pos [OF assms(2)]
  by (auto simp: same_hash_def nxh_def pvh_def dest!: bspec [of _ _ p] dest: fstrip_fields)

lemma table_ok_same:
  assumes "same_hash s s'" "table_ok s B"
  shows "table_ok s' B"
proof -
  have "chain_ok s' h (B h)" if "h < NR_HASH" for h
  proof (rule chain_ok_cong)
    show c: "chain_ok s h (B h)" using assms(2) that by (simp add: table_ok_def)
    fix x
    assume "x \<in> set (B h)"
    then have x: "x \<in> tab s" using c by (auto simp: chain_ok_def)
    show "nxh s' h x = nxh s h x \<and> pvh s' x = pvh s x" using same_hash_links [OF assms(1) x] by simp
    show "b_dev (buf s' x) = b_dev (buf s x) \<and> b_blocknr (buf s' x) = b_blocknr (buf s x)"
      using assms(1) x fstrip_fields [of "buf s' x" "buf s x"] by (simp add: same_hash_def)
  qed (use assms(1) in \<open>simp_all add: same_hash_def\<close>)
  then show ?thesis using assms by (simp add: table_ok_def same_hash_def)
qed

text \<open>Chains of different numbers have no buffer in common.\<close>

lemma chains_disjoint:
  assumes "table_ok s B" "h < NR_HASH" "x \<in> set (B h)"
  shows "bh_hash (buf s x) = h" "b_dev (buf s x) \<noteq> 0" "x \<in> tab s"
  using assms by (auto simp: table_ok_def chain_ok_def)

lemma chain_head: "chain (nxh s h) (pvh s) 0 xs \<Longrightarrow> hash_table s ! h = (if xs = [] then 0 else hd xs)"
  by (cases xs) (auto simp: nxh_def)

text \<open>Taking \<open>bh\<close> out of its chain: the three statements, on the links.\<close>

lemma unhash_links:
  assumes "chain_ok s h (us @ bh # vs)" "h = bh_hash (buf s bh)" "h < length (hash_table s)"
  shows "\<exists>s'. remove_from_hash bh s = Inr ((), s') \<and> same_ring s s' \<and>
    hash_table s' = (if pvh s bh = 0 then (hash_table s)[h := nxh s h bh] else hash_table s) \<and>
    (\<forall>q \<in> tab s. b_next (buf s' q) = (if q = pvh s bh then nxh s h bh else b_next (buf s q))) \<and>
    (\<forall>q \<in> tab s. b_prev (buf s' q) = (if q = nxh s h bh then pvh s bh else b_prev (buf s q)))"
proof -
  define p n where "p = pvh s bh" and "n = nxh s h bh"
  note c = assms(1) [unfolded chain_ok_def]
  have sg: "seg (nxh s h) (pvh s) 0 us bh" "chain (nxh s h) (pvh s) bh vs" "0 \<notin> set us"
    using c by (auto simp: chain_append)
  have d: "bh \<notin> set us" "bh \<notin> set vs" "set us \<subseteq> tab s" "set vs \<subseteq> tab s" and b: "bh \<in> tab s" using c by auto
  have b0: "0 < bh" using tab_pos [OF b] .
  have p: "p = last (0 # us)" using seg_ends(2) [OF sg(1)] by (simp add: p_def)
  have pt: "p \<noteq> bh \<and> (p = 0 \<or> p \<in> tab s) \<and> (p = 0 \<longleftrightarrow> us = [])"
  proof (cases "us = []")
    case False
    then have "p \<in> set us" by (simp add: p)
    then show ?thesis using d(1,3) sg(3) False tab_pos [of p s] by auto
  qed (use b0 p in simp)
  have nt: "n \<noteq> bh \<and> (n = 0 \<or> n \<in> tab s)"
    using sg(2) d(2,4) b0 by (cases vs) (auto simp: n_def)
  have hd: "hash_table s ! h = bh \<longleftrightarrow> p = 0"
    using seg_ends(1) [OF sg(1)] d(1) pt by (cases us) (auto simp: nxh_def)
  have bn: "b_next (buf s bh) = n" "b_prev (buf s bh) = p" using b0 by (simp_all add: n_def p_def nxh_def pvh_def)
  define s1 where "s1 = (if n = 0 then s else buf_at n (\<lambda>x. x\<lparr>b_prev := p\<rparr>) s)"
  define s2 where "s2 = (if p = 0 then s1 else buf_at p (\<lambda>x. x\<lparr>b_next := n\<rparr>) s1)"
  define s3 where "s3 = (if p = 0 then s2\<lparr>hash_table := (hash_table s)[h := n]\<rparr> else s2)"
  have t: "tab s1 = tab s" "tab s2 = tab s" "hash_table s1 = hash_table s" "hash_table s2 = hash_table s"
    by (simp_all add: s1_def s2_def)
  have b1: "buf s1 q = (if q = n then (buf s n)\<lparr>b_prev := p\<rparr> else buf s q)" if "q \<in> tab s" for q
    using that nt tab_pos [OF that] by (auto simp: s1_def buf_buf_at)
  have b2: "buf s2 q = (if q = p then (buf s1 p)\<lparr>b_next := n\<rparr> else buf s1 q)" if "q \<in> tab s" for q
    using that pt tab_pos [OF that] t by (auto simp: s2_def buf_buf_at)
  have bh: "buf s1 bh = buf s bh" "buf s2 bh = buf s bh" using b1 [OF b] b2 [OF b] nt pt by simp_all
  have st: "onlyif (0 < n) (upd_buf n (\<lambda>x. x\<lparr>b_prev := p\<rparr>)) s = Inr ((), s1)"
    "onlyif (0 < p) (upd_buf p (\<lambda>x. x\<lparr>b_next := n\<rparr>)) s1 = Inr ((), s2)"
    using nt pt t by (auto simp: s1_def s2_def onlyif_def upd_buf_at)
  have ex: "remove_from_hash bh s = Inr ((), s3)"
    using b b0 t hd by (simp add: remove_from_hash_def with_buf_at bn bh st s3_def assms(2) [symmetric])
  have "same_ring s s1" using nt by (auto simp: s1_def hstrip_def same_ring_def [of s s] intro!: same_at(2))
  moreover have "same_ring s1 s2" using pt t by (auto simp: s2_def hstrip_def same_ring_def [of s1 s1] intro!: same_at(2))
  moreover have "same_ring s2 s3" by (auto simp: s3_def same_ring_def [of s2 s2] intro!: same_fields)
  ultimately have "same_ring s s3" by (blast intro: same_trans(2))
  moreover have "hash_table s3 = (if p = 0 then (hash_table s)[h := n] else hash_table s)" using t by (simp add: s3_def)
  moreover have "b_next (buf s3 q) = (if q = p then n else b_next (buf s q)) \<and>
      b_prev (buf s3 q) = (if q = n then p else b_prev (buf s q))" if "q \<in> tab s" for q
    using that b1 b2 pt nt tab_pos [OF that] by (auto simp: s3_def)
  ultimately show ?thesis using ex unfolding p_def n_def by blast
qed

lemma chain_ends:
  assumes "chain_ok s h (us @ bh # vs)"
  shows "pvh s bh = 0 \<or> pvh s bh \<in> set us" "nxh s h bh = 0 \<or> nxh s h bh \<in> set vs"
proof -
  have sg: "seg (nxh s h) (pvh s) 0 us bh" "chain (nxh s h) (pvh s) bh vs"
    using assms by (auto simp: chain_ok_def chain_append)
  show "pvh s bh = 0 \<or> pvh s bh \<in> set us" using seg_ends(2) [OF sg(1)] by (cases "us = []") auto
  show "nxh s h bh = 0 \<or> nxh s h bh \<in> set vs" using sg(2) by (cases vs) auto
qed

lemma unhash_chain:
  assumes "chain_ok s h (us @ bh # vs)" "same_ring s s'"
    and "hash_table s' ! h = (if pvh s bh = 0 then nxh s h bh else hash_table s ! h)"
    and "\<forall>q \<in> tab s. b_next (buf s' q) = (if q = pvh s bh then nxh s h bh else b_next (buf s q))"
    and "\<forall>q \<in> tab s. b_prev (buf s' q) = (if q = nxh s h bh then pvh s bh else b_prev (buf s q))"
  shows "chain_ok s' h (us @ vs)"
proof -
  let ?p = "pvh s bh" and ?n = "nxh s h bh"
  have c: "distinct (us @ bh # vs)" "set (us @ vs) \<subseteq> tab s" "chain (nxh s h) (pvh s) 0 (us @ bh # vs)"
    "\<forall>x \<in> set (us @ vs). bh_hash (buf s x) = h \<and> b_dev (buf s x) \<noteq> 0"
    using assms(1) by (auto simp: chain_ok_def)
  have z: "0 \<notin> set (us @ bh # vs)" using assms(1) tab_pos [of 0 s] by (auto simp: chain_ok_def)
  have nx: "nxh s' h q = ((nxh s h)(?p := ?n)) q" if "q = 0 \<or> q \<in> tab s" for q
    using that assms(3,4) tab_pos [of q s] by (auto simp: nxh_def)
  have pv: "pvh s' q = (if ?n = 0 then pvh s else (pvh s)(?n := ?p)) q" if "q \<in> tab s" for q
    using that assms(5) tab_pos [of q s] by (auto simp: pvh_def)
  have "chain ((nxh s h)(?p := ?n)) (if ?n = 0 then pvh s else (pvh s)(?n := ?p)) 0 (us @ vs)"
    by (rule chain_remove) (use c(1,3) z in \<open>auto simp: chain_append\<close>)
  moreover have "chain (nxh s' h) (pvh s') 0 (us @ vs) =
      chain ((nxh s h)(?p := ?n)) (if ?n = 0 then pvh s else (pvh s)(?n := ?p)) 0 (us @ vs)"
    by (rule chain_cong; (rule nx | rule pv); use c(2) in auto)
  moreover have "b_dev (buf s' x) = b_dev (buf s x) \<and> bh_hash (buf s' x) = bh_hash (buf s x)" if "x \<in> set (us @ vs)" for x
  proof -
    have "hstrip (buf s' x) = hstrip (buf s x)" using that c(2) assms(2) unfolding same_ring_def by blast
    then show ?thesis using hstrip_fields(2,3) [of "buf s' x" "buf s x"] by (simp add: bh_hash_def)
  qed
  ultimately show ?thesis using c same_ring_links(1) [OF assms(2)] by (simp add: chain_ok_def)
qed

text \<open>Buffers that are on no chain, or on another one, keep their links when \<open>bh\<close> leaves its chain.\<close>

definition unlinked :: "nat \<Rightarrow> nat \<Rightarrow> 'a fs_scheme \<Rightarrow> 'a fs_scheme \<Rightarrow> bool" where
  "unlinked h bh s s' \<longleftrightarrow> same_ring s s' \<and>
     hash_table s' = (if pvh s bh = 0 then (hash_table s)[h := nxh s h bh] else hash_table s) \<and>
     (\<forall>q \<in> tab s. b_next (buf s' q) = (if q = pvh s bh then nxh s h bh else b_next (buf s q))) \<and>
     (\<forall>q \<in> tab s. b_prev (buf s' q) = (if q = nxh s h bh then pvh s bh else b_prev (buf s q)))"

lemma unlinked_other:
  assumes "table_ok s B" "h < NR_HASH" "B h = us @ bh # vs" "unlinked h bh s s'"
    and "q \<in> tab s" "b_dev (buf s q) = 0 \<or> bh_hash (buf s q) \<noteq> h"
  shows "buf s' q = buf s q"
proof (rule hstrip_eq)
  have c: "chain_ok s h (us @ bh # vs)" using assms(1,2) by (simp add: table_ok_def assms(3) [symmetric])
  have m: "pvh s bh = 0 \<or> pvh s bh \<in> set (B h)" "nxh s h bh = 0 \<or> nxh s h bh \<in> set (B h)"
    using chain_ends [OF c] by (auto simp: assms(3))
  have ne: "q \<noteq> pvh s bh \<and> q \<noteq> nxh s h bh"
    using m tab_pos [OF assms(5)] chains_disjoint(1,2) [OF assms(1,2), of q] assms(6) by (metis less_irrefl)
  note u = assms(4) [unfolded unlinked_def]
  show "hstrip (buf s' q) = hstrip (buf s q)" using u assms(5) unfolding same_ring_def by blast
  show "b_next (buf s' q) = b_next (buf s q)" using u assms(5) ne by simp
  show "b_prev (buf s' q) = b_prev (buf s q)" using u assms(5) ne by simp
qed

lemma unlinked_chains:
  assumes "table_ok s B" "h = bh_hash (buf s bh)" "B h = us @ bh # vs" "unlinked h bh s s'" "k < NR_HASH"
  shows "chain_ok s' k (removeAll bh (B k))"
proof (cases "k = h")
  case True
  have c: "chain_ok s h (us @ bh # vs)" using assms(1,5) True by (simp add: table_ok_def assms(3) [symmetric])
  note u = assms(4) [unfolded unlinked_def]
  have "removeAll bh (B h) = us @ vs" using c by (simp add: assms(3) chain_ok_def)
  moreover have "chain_ok s' h (us @ vs)"
    by (rule unhash_chain [OF c]) (use u assms(1,5) True in \<open>simp_all add: table_ok_def\<close>)
  ultimately show ?thesis using True by simp
next
  case False
  have h: "h < NR_HASH" by (simp add: assms(2) bh_hash_lt)
  note u = assms(4) [unfolded unlinked_def]
  have "chain_ok s' k (B k)"
  proof (rule chain_ok_cong)
    show "chain_ok s k (B k)" using assms(1,5) by (simp add: table_ok_def)
    fix x assume x: "x \<in> set (B k)"
    note d = chains_disjoint [OF assms(1,5) x]
    have "buf s' x = buf s x" by (rule unlinked_other [OF assms(1) h assms(3,4) d(3)]) (use d False in simp)
    then show "nxh s' k x = nxh s k x \<and> pvh s' x = pvh s x"
      "b_dev (buf s' x) = b_dev (buf s x) \<and> b_blocknr (buf s' x) = b_blocknr (buf s x)"
      using tab_pos [OF d(3)] by (simp_all add: nxh_def pvh_def)
  qed (use u False in \<open>simp_all add: same_ring_def\<close>)
  moreover have "bh \<notin> set (B k)" using chains_disjoint(1) [OF assms(1,5)] assms(2) False by auto
  ultimately show ?thesis by simp
qed

lemma remove_from_hash_ok:
  assumes "table_ok s B" "bh \<in> tab s" "h = bh_hash (buf s bh)"
    and "if b_dev (buf s bh) = 0 then b_next (buf s bh) = 0 \<and> b_prev (buf s bh) = 0 else bh \<in> set (B h)"
  shows "\<exists>s'. remove_from_hash bh s = Inr ((), s') \<and> table_ok s' (\<lambda>h. removeAll bh (B h)) \<and> same_ring s s' \<and>
    (\<forall>q \<in> tab s. b_dev (buf s q) = 0 \<longrightarrow> buf s' q = buf s q)"
proof (cases "b_dev (buf s bh) = 0")
  case True
  have h: "h < NR_HASH" by (simp add: assms(3) bh_hash_lt)
  have no: "bh \<notin> set (B k)" if "k < NR_HASH" for k using chains_disjoint(2) [OF assms(1) that] True by auto
  have "chain (nxh s h) (pvh s) 0 (B h)" using assms(1) h by (simp add: table_ok_def chain_ok_def)
  then have "hash_table s ! h \<noteq> bh" using no [OF h] tab_pos [OF assms(2)] by (auto dest!: chain_head split: if_splits)
  then have "remove_from_hash bh s = Inr ((), s)"
    using True assms(2-4) by (simp add: remove_from_hash_def with_buf_at onlyif_def)
  moreover have "table_ok s (\<lambda>h. removeAll bh (B h))" using assms(1) no by (simp add: table_ok_def)
  ultimately show ?thesis by (auto simp: same_ring_def)
next
  case False
  have h: "h < NR_HASH" by (simp add: assms(3) bh_hash_lt)
  obtain us vs where B: "B h = us @ bh # vs" using assms(4) False by (auto dest: split_list)
  have c: "chain_ok s h (us @ bh # vs)" and hl: "h < length (hash_table s)"
    using assms(1) h by (simp_all add: table_ok_def B [symmetric])
  obtain s' where s': "remove_from_hash bh s = Inr ((), s')" "unlinked h bh s s'"
    using unhash_links [OF c assms(3) hl] unfolding unlinked_def by blast
  have "length (hash_table s') = NR_HASH" "same_ring s s'" using assms(1) s'(2) by (simp_all add: table_ok_def unlinked_def)
  then show ?thesis
    using s'(1) unlinked_chains [OF assms(1,3) B s'(2)] unlinked_other [OF assms(1) h B s'(2)] by (auto simp: table_ok_def)
qed

lemma acts3:
  "a s = Inr ((), s2) \<Longrightarrow> b s2 = Inr ((), s3) \<Longrightarrow> c s3 = Inr ((), s4) \<Longrightarrow> acts [a, b, c] s = Inr ((), s4)"
  by simp

text \<open>Putting a buffer whose links are clear in front of its chain: the second half of \<open>insert_into_hash\<close>.\<close>

definition push_front :: "nat \<Rightarrow> nat \<Rightarrow> ('a fs_scheme, unit) act" where
  "push_front h bh =
     acts [bnd (rd (\<lambda>s. hash_table s ! h)) (\<lambda>n. upd_buf bh (\<lambda>b. b\<lparr>b_next := n\<rparr>)),
           upd (\<lambda>s. s\<lparr>hash_table := (hash_table s)[h := bh]\<rparr>),
           with_buf bh (\<lambda>b. if b_next b = 0 then upd (\<lambda>s. write_q 24 (bh_addr s bh) s)
             else upd_buf (b_next b) (\<lambda>n. n\<lparr>b_prev := bh\<rparr>))]"

lemma insert_into_hash_push:
  "insert_into_hash bh =
     acts [upd_buf bh (\<lambda>b. b\<lparr>b_prev := 0, b_next := 0\<rparr>),
           with_buf bh (\<lambda>b. if b_dev b = 0 then ret () else push_front (bh_hash b) bh)]"
  unfolding insert_into_hash_def push_front_def ..

lemma push_links:
  assumes "table_ok s B" "bh \<in> tab s" "h = bh_hash (buf s bh)" "h < NR_HASH" "bh \<notin> set (B h)" "n = hash_table s ! h"
  shows "\<exists>s'. push_front h bh s = Inr ((), s') \<and>
      same_ring s s' \<and> hash_table s' = (hash_table s)[h := bh] \<and>
      (\<forall>q \<in> tab s. buf s' q = (if q = bh then (buf s bh)\<lparr>b_next := n\<rparr>
         else if q = n then (buf s n)\<lparr>b_prev := bh\<rparr> else buf s q))"
proof -
  have c: "chain_ok s h (B h)" using assms(1,4) by (simp add: table_ok_def)
  have n: "n \<noteq> bh" "n = 0 \<or> n \<in> tab s"
    using c chain_head [of s h "B h"] assms(5,6) tab_pos [OF assms(2)]
    by (cases "B h"; auto simp: chain_ok_def)+
  define s2 where "s2 = buf_at bh (\<lambda>b. b\<lparr>b_next := n\<rparr>) s"
  define s3 where "s3 = s2\<lparr>hash_table := (hash_table s)[h := bh]\<rparr>"
  define s4 where "s4 = (if n = 0 then write_q 24 (bh_addr s3 bh) s3 else buf_at n (\<lambda>b. b\<lparr>b_prev := bh\<rparr>) s3)"
  have t: "tab s2 = tab s" "tab s3 = tab s" "hash_table s2 = hash_table s" "hash_table s3 = (hash_table s)[h := bh]"
    by (simp_all add: s2_def s3_def tab_def)
  have b3: "buf s3 q = (if q = bh then (buf s bh)\<lparr>b_next := n\<rparr> else buf s q)" if "q \<in> tab s" for q
    using that assms(2) by (simp add: s3_def s2_def buf_buf_at)
  have b4: "buf s4 q = (if q = n then (buf s3 n)\<lparr>b_prev := bh\<rparr> else buf s3 q)" if "q \<in> tab s" for q
    using that n(2) t(2) tab_pos [OF that] by (auto simp: s4_def write_q_def buf_buf_at)
  show ?thesis
  proof (intro exI conjI ballI)
    show "push_front h bh s = Inr ((), s4)"
      unfolding push_front_def
    proof (rule acts3)
      show "bnd (rd (\<lambda>s. hash_table s ! h)) (\<lambda>n. upd_buf bh (\<lambda>b. b\<lparr>b_next := n\<rparr>)) s = Inr ((), s2)"
        using assms(2,6) by (simp add: upd_buf_at s2_def)
      show "upd (\<lambda>s. s\<lparr>hash_table := (hash_table s)[h := bh]\<rparr>) s2 = Inr ((), s3)" by (simp add: s3_def t)
      show "with_buf bh (\<lambda>b. if b_next b = 0 then upd (\<lambda>s. write_q 24 (bh_addr s bh) s)
          else upd_buf (b_next b) (\<lambda>n. n\<lparr>b_prev := bh\<rparr>)) s3 = Inr ((), s4)"
        using assms(2) t n b3 [OF assms(2)] by (auto simp: with_buf_at upd_buf_at s4_def)
    qed
    have "same_ring s s2" unfolding s2_def by (rule same_at(2)) (use assms(2) in \<open>simp_all add: hstrip_def\<close>)
    moreover have "same_ring s2 s3" unfolding s3_def by (rule same_fields)
    moreover have "same_ring s3 s4" using n t
      by (auto simp: s4_def write_q_def hstrip_def intro!: same_at(2) same_fields)
    ultimately show "same_ring s s4" by (blast intro: same_trans(2))
    show "hash_table s4 = (hash_table s)[h := bh]" using t by (simp add: s4_def write_q_def)
    show "buf s4 q = (if q = bh then (buf s bh)\<lparr>b_next := n\<rparr> else if q = n then (buf s n)\<lparr>b_prev := bh\<rparr> else buf s q)"
      if "q \<in> tab s" for q using b3 [OF that] b4 [OF that] n tab_pos [OF that] by auto
  qed
qed

lemma push_chain:
  assumes "chain_ok s h xs" "bh \<in> tab s" "bh \<notin> set xs" "n = hash_table s ! h"
    and bufs: "\<And>q. q \<in> tab s \<Longrightarrow> buf s' q = (if q = bh then (buf s bh)\<lparr>b_next := n\<rparr>
         else if q = n then (buf s n)\<lparr>b_prev := bh\<rparr> else buf s q)"
  shows "chain (nxh s' h) (pvh s') bh xs"
proof -
  have d: "distinct xs" "set xs \<subseteq> tab s" "bh \<notin> set xs" using assms(1,3) by (auto simp: chain_ok_def)
  have hd: "n = (if xs = [] then 0 else hd xs)" using assms(1) chain_head [of s h xs] assms(4) by (simp add: chain_ok_def)
  show ?thesis
  proof (cases xs)
    case Nil
    then show ?thesis using hd bufs [OF assms(2)] tab_pos [OF assms(2)] by (simp add: nxh_def)
  next
    case (Cons m ws)
    then have m: "n = m" "m \<in> tab s" "m \<noteq> bh" "m \<noteq> 0" "chain (nxh s h) (pvh s) m ws"
      using hd d assms(1) tab_pos by (auto simp: chain_ok_def)
    have "chain (nxh s' h) (pvh s') m ws = chain (nxh s h) (pvh s) m ws"
    proof (rule chain_cong)
      show "nxh s' h x = nxh s h x" if "x \<in> set (m # ws)" for x
      proof -
        have "x \<in> tab s" "x \<noteq> bh" using that d Cons by auto
        then show ?thesis using bufs [of x] tab_pos [of x s] by (simp add: nxh_def)
      qed
      show "pvh s' x = pvh s x" if "x \<in> set ws" for x
      proof -
        have "x \<in> tab s" "x \<noteq> bh" "x \<noteq> n" using that d Cons m(1) by auto
        then show ?thesis using bufs [of x] by (simp add: pvh_def)
      qed
    qed
    then show ?thesis using m bufs [OF m(2)] bufs [OF assms(2)] tab_pos [OF assms(2)] Cons by (simp add: nxh_def pvh_def)
  qed
qed

lemma push_table:
  assumes "table_ok s B" "bh \<in> tab s" "h = bh_hash (buf s bh)" "\<forall>k < NR_HASH. bh \<notin> set (B k)" "n = hash_table s ! h"
    and "b_dev (buf s bh) \<noteq> 0" "b_prev (buf s bh) = 0" "tab s' = tab s" "hash_table s' = (hash_table s)[h := bh]"
    and bufs: "\<And>q. q \<in> tab s \<Longrightarrow> buf s' q = (if q = bh then (buf s bh)\<lparr>b_next := n\<rparr>
         else if q = n then (buf s n)\<lparr>b_prev := bh\<rparr> else buf s q)"
  shows "table_ok s' (B(h := bh # B h))"
proof -
  have h: "h < NR_HASH" "length (hash_table s) = NR_HASH" using assms(1,3) bh_hash_lt by (simp_all add: table_ok_def)
  have c: "chain_ok s h (B h)" using assms(1) h by (simp add: table_ok_def)
  have d: "distinct (B h)" "set (B h) \<subseteq> tab s" "bh \<notin> set (B h)" using c assms(4) h by (auto simp: chain_ok_def)
  have hd: "n = (if B h = [] then 0 else hd (B h))" using c chain_head [of s h "B h"] assms(5) by (simp add: chain_ok_def)
  have keys: "b_dev (buf s' x) = b_dev (buf s x) \<and> b_blocknr (buf s' x) = b_blocknr (buf s x)" if "x \<in> tab s" for x
    using bufs [OF that] by simp
  have "chain (nxh s' h) (pvh s') bh (B h)" by (rule push_chain [OF c assms(2) d(3) assms(5) bufs])
  then have "chain (nxh s' h) (pvh s') 0 (bh # B h)"
    using bufs [OF assms(2)] assms(7,9) h tab_pos [OF assms(2)] by (simp add: nxh_def pvh_def)
  moreover have "bh_hash (buf s' x) = h \<and> b_dev (buf s' x) \<noteq> 0" if "x \<in> set (bh # B h)" for x
    using that keys [of x] chains_disjoint [OF assms(1) h(1), of x] assms(2,3,6) by (auto simp: bh_hash_def)
  ultimately have "chain_ok s' h (bh # B h)" using d assms(2,8) by (simp add: chain_ok_def)
  moreover have "chain_ok s' k (B k)" if "k < NR_HASH" "k \<noteq> h" for k
  proof (rule chain_ok_cong)
    show "chain_ok s k (B k)" using assms(1) that by (simp add: table_ok_def)
    fix x
    assume x: "x \<in> set (B k)"
    note e = chains_disjoint [OF assms(1) that(1) x]
    have "x \<noteq> bh" "x \<noteq> n"
      using x assms(4) that e chains_disjoint(1) [OF assms(1) h(1), of x] tab_pos [OF e(3)] hd
      by (auto split: if_splits)
    then show "nxh s' k x = nxh s k x \<and> pvh s' x = pvh s x" using bufs [OF e(3)] tab_pos [OF e(3)] by (simp add: nxh_def pvh_def)
    show "b_dev (buf s' x) = b_dev (buf s x) \<and> b_blocknr (buf s' x) = b_blocknr (buf s x)" by (rule keys [OF e(3)])
  qed (use assms(8,9) that in simp_all)
  ultimately show ?thesis using h assms(9) by (simp add: table_ok_def)
qed

text \<open>A change of a buffer that is on no chain, and one that concerns neither links nor keys, keep the chains.\<close>

lemma table_ok_outside:
  assumes "table_ok s B" "bh \<in> tab s" "\<forall>k < NR_HASH. bh \<notin> set (B k)"
  shows "table_ok (buf_at bh f s) B" (is "table_ok ?s1 B")
proof -
  have "chain_ok ?s1 k (B k)" if "k < NR_HASH" for k
  proof (rule chain_ok_cong)
    show "chain_ok s k (B k)" using assms(1) that by (simp add: table_ok_def)
    fix x
    assume x: "x \<in> set (B k)"
    then have "x \<in> tab s" "x \<noteq> bh" using chains_disjoint(3) [OF assms(1) that] assms(3) that by auto
    then show "nxh ?s1 k x = nxh s k x \<and> pvh ?s1 x = pvh s x"
        "b_dev (buf ?s1 x) = b_dev (buf s x) \<and> b_blocknr (buf ?s1 x) = b_blocknr (buf s x)"
      using assms(2) by (simp_all add: links_at buf_buf_at)
  qed simp_all
  then show ?thesis using assms(1) by (simp add: table_ok_def)
qed

lemma table_ok_at:
  assumes "table_ok s B" "p \<in> tab s" "b_next (f (buf s p)) = b_next (buf s p)" "b_prev (f (buf s p)) = b_prev (buf s p)"
    "b_dev (f (buf s p)) = b_dev (buf s p)" "b_blocknr (f (buf s p)) = b_blocknr (buf s p)"
  shows "table_ok (buf_at p f s) B"
proof -
  have "chain_ok (buf_at p f s) k (B k)" if "k < NR_HASH" for k
  proof (rule chain_ok_cong)
    show "chain_ok s k (B k)" using assms(1) that by (simp add: table_ok_def)
    fix x
    assume x: "x \<in> set (B k)"
    note t = chains_disjoint(3) [OF assms(1) that x]
    show "nxh (buf_at p f s) k x = nxh s k x \<and> pvh (buf_at p f s) x = pvh s x"
      using t assms tab_pos [OF t] by (simp add: links_at) (simp add: nxh_def pvh_def)
    show "b_dev (buf (buf_at p f s) x) = b_dev (buf s x) \<and> b_blocknr (buf (buf_at p f s) x) = b_blocknr (buf s x)"
      using t assms by (simp add: buf_buf_at)
  qed simp_all
  then show ?thesis using assms(1) by (simp add: table_ok_def)
qed

lemma table_head:
  assumes "table_ok s B" "h < NR_HASH"
  shows "hash_table s ! h = 0 \<or> hash_table s ! h \<in> set (B h)"
proof -
  have "chain (nxh s h) (pvh s) 0 (B h)" using assms by (simp add: table_ok_def chain_ok_def)
  then show ?thesis using chain_head by (cases "B h = []") fastforce+
qed

lemma insert_into_hash_ok:
  assumes "table_ok s B" "bh \<in> tab s" "h = bh_hash (buf s bh)" "\<forall>k < NR_HASH. bh \<notin> set (B k)"
  shows "\<exists>s'. insert_into_hash bh s = Inr ((), s') \<and> same_ring s s' \<and>
    table_ok s' (if b_dev (buf s bh) = 0 then B else B(h := bh # B h)) \<and>
    (b_dev (buf s bh) = 0 \<longrightarrow> b_next (buf s' bh) = 0 \<and> b_prev (buf s' bh) = 0) \<and>
    (\<forall>q \<in> tab s. q \<noteq> bh \<and> b_dev (buf s q) = 0 \<longrightarrow> buf s' q = buf s q)"
proof -
  define s1 where "s1 = buf_at bh (\<lambda>b. b\<lparr>b_prev := 0, b_next := 0\<rparr>) s"
  have t1: "tab s1 = tab s" "hash_table s1 = hash_table s" by (simp_all add: s1_def)
  have b1: "buf s1 q = (if q = bh then (buf s bh)\<lparr>b_prev := 0, b_next := 0\<rparr> else buf s q)" if "q \<in> tab s" for q
    using that assms(2) by (simp add: s1_def buf_buf_at)
  have r1: "same_ring s s1" unfolding s1_def by (rule same_at(2)) (use assms(2) in \<open>simp_all add: hstrip_def\<close>)
  have w1: "table_ok s1 B" unfolding s1_def by (rule table_ok_outside [OF assms(1,2,4)])
  note bh = b1 [OF assms(2)]
  show ?thesis
  proof (cases "b_dev (buf s bh) = 0")
    case True
    then have "insert_into_hash bh s = Inr ((), s1)"
      using assms(2) bh t1 by (simp add: insert_into_hash_def upd_buf_at with_buf_at s1_def [symmetric])
    then show ?thesis using True r1 w1 b1 assms(2) by auto
  next
    case False
    have h1: "h = bh_hash (buf s1 bh)" "bh \<in> tab s1" using assms(2,3) bh t1 by (simp_all add: bh_hash_def)
    have hl: "h < NR_HASH" by (simp add: assms(3) bh_hash_lt)
    obtain s' where p: "push_front h bh s1 = Inr ((), s')" and s': "same_ring s1 s'" "hash_table s' = (hash_table s1)[h := bh]"
      "\<forall>q \<in> tab s1. buf s' q = (if q = bh then (buf s1 bh)\<lparr>b_next := hash_table s1 ! h\<rparr>
         else if q = hash_table s1 ! h then (buf s1 (hash_table s1 ! h))\<lparr>b_prev := bh\<rparr> else buf s1 q)"
      using push_links [OF w1 h1(2,1) hl _ refl] assms(4) hl by (elim allE impE exE conjE) auto
    have ex: "insert_into_hash bh s = Inr ((), s')"
      using assms(2) bh False t1 p h1(1)
      by (simp add: insert_into_hash_push upd_buf_at with_buf_at s1_def [symmetric])
    have "table_ok s' (B(h := bh # B h))"
      by (rule push_table [OF w1 h1(2,1) assms(4) refl _ _ same_ring_links(1) [OF s'(1)] s'(2) bspec [OF s'(3)]])
        (use bh False in simp_all)
    moreover have "buf s' q = buf s q" if "q \<in> tab s" "q \<noteq> bh" "b_dev (buf s q) = 0" for q
      using bspec [OF s'(3), of q] b1 [OF that(1)] that t1 table_head [OF w1 hl] tab_pos [OF that(1)]
        chains_disjoint(2) [OF assms(1) hl, of q] by auto
    ultimately show ?thesis using False ex same_trans(2) [OF r1 s'(1)] by auto
  qed
qed

end
