(* ===== verification/Buffer_Correct.thy ===== *)
theory Buffer_Correct
  imports Buffer_Links
begin

text \<open>
  What the operations of the buffer cache promise: \<open>find_buffer\<close> finds the buffer of a block exactly
  when there is one, \<open>getblk\<close> returns a buffer for the block and keeps the invariant, and
  \<open>buffer_init\<close> establishes it.
\<close>

section \<open>Searching\<close>

definition holds :: "int \<Rightarrow> int \<Rightarrow> buffer_head \<Rightarrow> bool" where
  "holds dev block b \<longleftrightarrow> uint (b_dev b) = dev \<and> uint (b_blocknr b) = block"

definition or_null :: "nat option \<Rightarrow> nat" where "or_null = case_option 0 id"

lemma chain_find_first:
  assumes "chain (nxh s h) (pvh s) a xs" "set xs \<subseteq> tab s" "length xs < n"
  shows "chain_find n dev block (nxh s h a) s = Inr (or_null (find (\<lambda>p. holds dev block (buf s p)) xs), s)"
  using assms
proof (induction xs arbitrary: a n)
  case Nil
  then obtain m where "n = Suc m" by (cases n) auto
  then show ?case using Nil by (simp add: or_null_def)
next
  case (Cons x xs)
  then obtain m where m: "n = Suc m" by (cases n) auto
  have x: "nxh s h a = x" "x \<noteq> 0" "x \<in> tab s" "b_next (buf s x) = nxh s h x" using Cons.prems by (auto simp: nxh_def)
  have "chain_find m dev block (nxh s h x) s = Inr (or_null (find (\<lambda>p. holds dev block (buf s p)) xs), s)"
    using Cons.prems m by (intro Cons.IH) auto
  then show ?case using x m by (simp add: with_buf_at holds_def or_null_def)
qed

lemma find_buffer_finds:
  assumes "table_ok s B"
  shows "find_buffer dev block s =
    Inr (or_null (find (\<lambda>p. holds dev block (buf s p)) (B (hashfn dev block))), s)"
proof -
  let ?h = "hashfn dev block"
  have c: "chain_ok s ?h (B ?h)" using assms hashfn_lt by (simp add: table_ok_def)
  have "length (B ?h) \<le> card (tab s)"
    using c card_mono [of "tab s" "set (B ?h)"] by (simp add: chain_ok_def distinct_card tab_def)
  then have "length (B ?h) < length (buffers s) + 1" by (simp add: tab_def)
  then show ?thesis
    using chain_find_first [of s ?h 0 "B ?h"] c by (simp add: find_buffer_def chain_ok_def nxh_def)
qed

lemma wait_unlocked:
  "p \<in> tab s \<Longrightarrow> \<not> b_lock (buf s p) \<Longrightarrow> 0 < e_fuel E \<Longrightarrow> wait_on_buffer E p s = Inr ((), s)"
  by (cases "e_fuel E") (auto simp: wait_on_buffer_def in_tab_tab)

lemma free_scan_first:
  assumes "seg (nxf s) (pvf s) x xs f" "f \<notin> set xs" "free_list s = f" "set (x # xs) \<subseteq> tab s"
    and "\<forall>p \<in> tab s. \<not> b_lock (buf s p)" "length xs < n" "0 < e_fuel E"
  shows "free_scan n E x s = Inr (or_null (find (\<lambda>p. b_count (buf s p) = 0) (x # xs)), s)"
  using assms
proof (induction xs arbitrary: x n)
  case Nil
  then obtain m where "n = Suc m" by (cases n) auto
  then show ?case using Nil by (simp add: with_buf_at wait_unlocked in_tab_tab or_null_def nxf_def)
next
  case (Cons y ys)
  then obtain m where m: "n = Suc m" by (cases n) auto
  have x: "b_next_free (buf s x) = y" "y \<noteq> f" "x \<in> tab s" "free_list s = f" "\<not> b_lock (buf s x)"
    using Cons.prems by (auto simp: nxf_def)
  have "free_scan m E y s = Inr (or_null (find (\<lambda>p. b_count (buf s p) = 0) (y # ys)), s)"
    using Cons.prems m by (intro Cons.IH) auto
  then show ?case using x m Cons.prems(7) by (auto simp: with_buf_at wait_unlocked in_tab_tab or_null_def)
qed

section \<open>Taking a buffer out and putting it back\<close>

definition strip :: "buffer_head \<Rightarrow> buffer_head" where
  "strip b = b\<lparr>b_next_free := 0, b_prev_free := 0, b_next := 0, b_prev := 0\<rparr>"

definition same_data :: "'a fs_scheme \<Rightarrow> 'a fs_scheme \<Rightarrow> bool" where
  "same_data s s' \<longleftrightarrow> tab s' = tab s \<and> (\<forall>p \<in> tab s. strip (buf s' p) = strip (buf s p))"

text \<open>Buffers without a block keep their place outside the chains.\<close>

definition same_loose :: "nat \<Rightarrow> 'a fs_scheme \<Rightarrow> 'a fs_scheme \<Rightarrow> bool" where
  "same_loose p s s' \<longleftrightarrow> (\<forall>q \<in> tab s. q \<noteq> p \<and> b_dev (buf s q) = 0 \<longrightarrow>
     b_next (buf s' q) = b_next (buf s q) \<and> b_prev (buf s' q) = b_prev (buf s q))"

lemma strip_of: "fstrip b = fstrip c \<Longrightarrow> strip b = strip c" "hstrip b = hstrip c \<Longrightarrow> strip b = strip c"
  by (cases b; cases c; simp add: fstrip_def hstrip_def strip_def)+

lemma strip_fields:
  assumes "strip b = strip c"
  shows "b_data b = b_data c" "b_dev b = b_dev c" "b_blocknr b = b_blocknr c" "b_uptodate b = b_uptodate c"
    "b_dirt b = b_dirt c" "b_count b = b_count c" "b_lock b = b_lock c"
  using assms by (cases b; cases c; simp add: strip_def)+

lemma same_data_of:
  "same_hash s s' \<Longrightarrow> same_data s s'" "same_ring s s' \<Longrightarrow> same_data s s'"
  unfolding same_hash_def same_ring_def same_data_def using strip_of by blast+

lemma same_data_trans: "same_data s t \<Longrightarrow> same_data t u \<Longrightarrow> same_data s u"
  by (simp add: same_data_def)

lemma same_data_dev: "same_data s s' \<Longrightarrow> q \<in> tab s \<Longrightarrow> b_dev (buf s' q) = b_dev (buf s q)"
  unfolding same_data_def using strip_fields(2) by blast

lemma remove_from_queues_ok:
  assumes "ring_ok s r" "p \<in> set r" "2 \<le> length r" "table_ok s B"
    and "if b_dev (buf s p) = 0 then b_next (buf s p) = 0 \<and> b_prev (buf s p) = 0 else p \<in> set (B (bh_hash (buf s p)))"
  shows "\<exists>s' r'. remove_from_queues p s = Inr ((), s') \<and> ring_ok s' r' \<and> set r' = set r - {p} \<and>
    table_ok s' (\<lambda>h. removeAll p (B h)) \<and> same_data s s' \<and> same_loose p s s'"
proof -
  have p: "p \<in> tab s" using assms(1,2) by (auto simp: ring_ok_def)
  obtain u where u: "remove_from_hash p s = Inr ((), u)" "table_ok u (\<lambda>h. removeAll p (B h))" "same_ring s u"
      "\<forall>q \<in> tab s. b_dev (buf s q) = 0 \<longrightarrow> buf u q = buf s q"
    using remove_from_hash_ok [OF assms(4) p refl assms(5)] by blast
  obtain s' r' where s': "remove_from_free p u = Inr ((), s')" "ring_ok s' r'" "set r' = set r - {p}" "same_hash u s'"
    using remove_from_free_ok [OF ring_ok_same [OF u(3) assms(1)] assms(2,3)] by blast
  have "same_data s s'" using same_data_trans [OF same_data_of(2) [OF u(3)] same_data_of(1) [OF s'(4)]] .
  moreover have "same_loose p s s'" unfolding same_loose_def
  proof (intro ballI impI)
    fix q
    assume q: "q \<in> tab s" "q \<noteq> p \<and> b_dev (buf s q) = 0"
    then have "buf u q = buf s q" using u(4) by blast
    moreover have "fstrip (buf s' q) = fstrip (buf u q)"
      using s'(4) q(1) same_ring_links(1) [OF u(3)] unfolding same_hash_def by blast
    ultimately show "b_next (buf s' q) = b_next (buf s q) \<and> b_prev (buf s' q) = b_prev (buf s q)"
      using fstrip_fields(9,10) [of "buf s' q" "buf u q"] by simp
  qed
  moreover have "remove_from_queues p s = Inr ((), s')" using u(1) s'(1) by (simp add: remove_from_queues_def)
  ultimately show ?thesis using s'(2,3) table_ok_same [OF s'(4) u(2)] by blast
qed

lemma insert_into_queues_ok:
  assumes "ring_ok s r" "p \<in> tab s" "p \<notin> set r" "table_ok s B" "\<forall>k < NR_HASH. p \<notin> set (B k)"
  shows "\<exists>s'. insert_into_queues p s = Inr ((), s') \<and> ring_ok s' (r @ [p]) \<and>
    table_ok s' (if b_dev (buf s p) = 0 then B else B(bh_hash (buf s p) := p # B (bh_hash (buf s p)))) \<and>
    (b_dev (buf s p) = 0 \<longrightarrow> b_next (buf s' p) = 0 \<and> b_prev (buf s' p) = 0) \<and> same_data s s' \<and> same_loose p s s'"
proof -
  obtain u where u: "insert_into_free p s = Inr ((), u)" "ring_ok u (r @ [p])" "same_hash s u"
    using insert_into_free_ok [OF assms(1-3)] by blast
  have t: "tab u = tab s" using u(3) by (simp add: same_hash_def)
  have f: "fstrip (buf u q) = fstrip (buf s q)" if "q \<in> tab s" for q using u(3) that by (simp add: same_hash_def)
  have k: "b_dev (buf u p) = b_dev (buf s p)" "bh_hash (buf u p) = bh_hash (buf s p)"
    using fstrip_fields(2,3) [OF f [OF assms(2)]] by (simp_all add: bh_hash_def)
  obtain s' where s': "insert_into_hash p u = Inr ((), s')" "same_ring u s'"
      "table_ok s' (if b_dev (buf s p) = 0 then B else B(bh_hash (buf s p) := p # B (bh_hash (buf s p))))"
      "b_dev (buf s p) = 0 \<longrightarrow> b_next (buf s' p) = 0 \<and> b_prev (buf s' p) = 0"
      "\<forall>q \<in> tab s. q \<noteq> p \<and> b_dev (buf u q) = 0 \<longrightarrow> buf s' q = buf u q"
    using insert_into_hash_ok [OF table_ok_same [OF u(3) assms(4)] _ refl assms(5)] assms(2) unfolding k t by blast
  have "same_loose p s s'" unfolding same_loose_def
  proof (intro ballI impI)
    fix q
    assume q: "q \<in> tab s" "q \<noteq> p \<and> b_dev (buf s q) = 0"
    then have "buf s' q = buf u q" using s'(5) fstrip_fields(2) [OF f] by simp
    then show "b_next (buf s' q) = b_next (buf s q) \<and> b_prev (buf s' q) = b_prev (buf s q)"
      using fstrip_fields(9,10) [OF f [OF q(1)]] by simp
  qed
  moreover have "same_data s s'" using same_data_trans [OF same_data_of(1) [OF u(3)] same_data_of(2) [OF s'(2)]] .
  moreover have "insert_into_queues p s = Inr ((), s')" using u(1) s'(1) by (simp add: insert_into_queues_def)
  ultimately show ?thesis using s'(3,4) ring_ok_same [OF s'(2) u(2)] by blast
qed

section \<open>getblk\<close>

definition members :: "'a fs_scheme \<Rightarrow> (nat \<Rightarrow> nat list) \<Rightarrow> bool" where
  "members s B \<longleftrightarrow> (\<forall>p \<in> tab s. if b_dev (buf s p) = 0 then b_next (buf s p) = 0 \<and> b_prev (buf s p) = 0
     else p \<in> set (B (bh_hash (buf s p))))"

definition idle :: "'a fs_scheme \<Rightarrow> bool" where
  "idle s \<longleftrightarrow> (\<forall>p \<in> tab s. \<not> b_lock (buf s p) \<and> (b_count (buf s p) = 0 \<longrightarrow> \<not> b_dirt (buf s p)))"

lemma find_buffer_none:
  assumes "table_ok s B" "\<forall>p \<in> set (B (hashfn dev block)). \<not> holds dev block (buf s p)"
  shows "find_buffer dev block s = Inr (0, s)"
proof -
  have "find (\<lambda>p. holds dev block (buf s p)) (B (hashfn dev block)) = None" using assms(2) by (simp add: find_None_iff)
  then show ?thesis using find_buffer_finds [OF assms(1)] by (simp add: or_null_def)
qed

lemma find_buffer_some:
  assumes "table_ok s B" "members s B" "inj_on (\<lambda>p. (b_dev (buf s p), b_blocknr (buf s p))) {p \<in> tab s. b_dev (buf s p) \<noteq> 0}"
    and "p \<in> tab s" "holds dev block (buf s p)" "dev \<noteq> 0"
  shows "find_buffer dev block s = Inr (p, s)"
proof -
  let ?P = "\<lambda>p. holds dev block (buf s p)"
  have nz: "b_dev (buf s p) \<noteq> 0" using assms(5,6) by (auto simp: holds_def)
  have "bh_hash (buf s p) = hashfn dev block" using assms(5) by (simp add: holds_def bh_hash_def)
  then have p: "p \<in> set (B (hashfn dev block))" using assms(2,4) nz by (auto simp: members_def)
  then obtain q where q: "find ?P (B (hashfn dev block)) = Some q"
    using assms(5) by (cases "find ?P (B (hashfn dev block))") (auto simp: find_None_iff)
  then have q': "q \<in> set (B (hashfn dev block))" "?P q" by (auto simp: find_Some_iff)
  then have "q \<in> tab s" "b_dev (buf s q) \<noteq> 0" using chains_disjoint [OF assms(1) hashfn_lt] by blast+
  moreover have "(b_dev (buf s q), b_blocknr (buf s q)) = (b_dev (buf s p), b_blocknr (buf s p))"
    using q'(2) assms(5) by (simp add: holds_def word_uint_eq_iff)
  ultimately have "q = p" using inj_onD [OF assms(3)] assms(4) nz by blast
  then show ?thesis using find_buffer_finds [OF assms(1)] q by (simp add: or_null_def)
qed

lemma cache_wf_iff:
  "cache_wf s \<longleftrightarrow> (\<exists>r B. ring_ok s r \<and> set r = tab s \<and> table_ok s B \<and> members s B) \<and>
     inj_on (\<lambda>p. (b_dev (buf s p), b_blocknr (buf s p))) {p \<in> tab s. b_dev (buf s p) \<noteq> 0}"
  by (auto simp: cache_wf_def members_def)

lemma getblk_hit:
  assumes "cache_wf s" "idle s" "p \<in> tab s" "holds dev block (buf s p)" "dev \<noteq> 0" "0 < e_fuel E"
  shows "getblk E dev block s = Inr (p, buf_at p (\<lambda>b. b\<lparr>b_count := b_count b + 1\<rparr>) s)"
proof -
  obtain n where n: "e_fuel E = Suc n" using assms(6) by (cases "e_fuel E") auto
  have "find_buffer dev block s = Inr (p, s)"
    using assms(1,3-5) find_buffer_some by (auto simp: cache_wf_iff)
  moreover have "wait_on_buffer E p (buf_at p (\<lambda>b. b\<lparr>b_count := b_count b + 1\<rparr>) s) =
      Inr ((), buf_at p (\<lambda>b. b\<lparr>b_count := b_count b + 1\<rparr>) s)"
    using assms(2,3,6) by (intro wait_unlocked) (auto simp: idle_def buf_buf_at)
  ultimately show ?thesis using assms(3,4) tab_pos [OF assms(3)]
    by (simp add: getblk_def n get_hash_table_def upd_buf_at with_buf_at buf_buf_at holds_def)
qed

text \<open>The steps of \<open>getblk\<close> that give the free buffer \<open>p\<close> to another block.\<close>

definition claim :: "int \<Rightarrow> int \<Rightarrow> buffer_head \<Rightarrow> buffer_head" where
  "claim dev block b = b\<lparr>b_dev := of_int dev, b_blocknr := of_int block, b_dirt := False, b_uptodate := False\<rparr>"

lemma strip_claim: "strip b = strip c \<Longrightarrow> strip (claim dev block b) = strip (claim dev block c)"
  by (cases b; cases c; simp add: strip_def claim_def)

lemma members_after:
  assumes "members s B" "p \<in> tab s" "b_dev (buf s' p) \<noteq> 0" "same_loose p s s'" "tab s' = tab s"
    and "\<forall>q \<in> tab s. q \<noteq> p \<longrightarrow> strip (buf s' q) = strip (buf s q)"
  shows "members s' ((\<lambda>h. removeAll p (B h))(bh_hash (buf s' p) := p # removeAll p (B (bh_hash (buf s' p)))))"
  unfolding members_def assms(5)
proof (intro ballI)
  fix q
  assume q: "q \<in> tab s"
  show "if b_dev (buf s' q) = 0 then b_next (buf s' q) = 0 \<and> b_prev (buf s' q) = 0
    else q \<in> set (((\<lambda>h. removeAll p (B h))(bh_hash (buf s' p) := p # removeAll p (B (bh_hash (buf s' p))))) (bh_hash (buf s' q)))"
  proof (cases "q = p")
    case False
    then have "b_dev (buf s' q) = b_dev (buf s q)" "bh_hash (buf s' q) = bh_hash (buf s q)"
      using strip_fields(2,3) [of "buf s' q" "buf s q"] assms(6) q by (simp_all add: bh_hash_def)
    then show ?thesis using False assms(1,4) q by (auto simp: members_def same_loose_def)
  qed (use assms(3) in simp)
qed

lemma same_loose_claim:
  assumes "same_loose p s t" "same_data s t" "same_loose p (buf_at p f t) u" "p \<in> tab s"
  shows "same_loose p s u"
  unfolding same_loose_def
proof (intro ballI impI)
  fix q
  assume q: "q \<in> tab s" "q \<noteq> p \<and> b_dev (buf s q) = 0"
  have t: "tab t = tab s" using assms(2) by (simp add: same_data_def)
  have "buf (buf_at p f t) q = buf t q" using q assms(4) t by (simp add: buf_buf_at)
  then show "b_next (buf u q) = b_next (buf s q) \<and> b_prev (buf u q) = b_prev (buf s q)"
    using assms(1,3) q t same_data_dev [OF assms(2) q(1)] by (simp add: same_loose_def)
qed

lemma reuse_buffer:
  assumes "ring_ok s r" "set r = tab s" "2 \<le> length r" "table_ok s B" "members s B" "p \<in> tab s"
    and "0 < dev" "dev < 65536" "0 \<le> block" "block < 65536" "\<forall>q \<in> tab s. \<not> holds dev block (buf s q)"
  shows "\<exists>t u. remove_from_queues p s = Inr ((), t) \<and> same_data s t \<and>
    find_buffer dev block (buf_at p (claim dev block) t) = Inr (0, buf_at p (claim dev block) t) \<and>
    insert_into_queues p (buf_at p (claim dev block) t) = Inr ((), u) \<and> tab u = tab s \<and>
    (\<exists>r B. ring_ok u r \<and> set r = tab u \<and> table_ok u B \<and> members u B) \<and>
    strip (buf u p) = strip (claim dev block (buf s p)) \<and> (\<forall>q \<in> tab s. q \<noteq> p \<longrightarrow> strip (buf u q) = strip (buf s q))"
proof -
  let ?B = "\<lambda>h. removeAll p (B h)"
  have pr: "p \<in> set r" using assms(2,6) by simp
  have mp: "if b_dev (buf s p) = 0 then b_next (buf s p) = 0 \<and> b_prev (buf s p) = 0 else p \<in> set (B (bh_hash (buf s p)))"
    using assms(5,6) unfolding members_def by blast
  obtain t r' where t: "remove_from_queues p s = Inr ((), t)" "ring_ok t r'" "set r' = tab s - {p}"
      "table_ok t ?B" "same_data s t" "same_loose p s t"
    using remove_from_queues_ok [OF assms(1) pr assms(3,4) mp] assms(2) by auto
  have tt: "tab t = tab s" "p \<in> tab t" using t(5) assms(6) by (simp_all add: same_data_def)
  define v where "v = buf_at p (claim dev block) t"
  have bv: "buf v q = (if q = p then claim dev block (buf t p) else buf t q)" if "q \<in> tab s" for q
    using that tt by (simp add: v_def buf_buf_at)
  have tv: "tab v = tab s" using tt by (simp add: v_def)
  have no: "\<forall>k < NR_HASH. p \<notin> set (?B k)" by simp
  have wv: "table_ok v ?B" unfolding v_def using table_ok_outside [OF t(4) tt(2)] by simp
  have rv: "ring_ok v r'" unfolding v_def using ring_ok_at [OF t(2) tt(2)] by (simp add: claim_def)
  have fv: "find_buffer dev block v = Inr (0, v)"
  proof (rule find_buffer_none [OF wv], rule ballI)
    fix q
    assume q: "q \<in> set (?B (hashfn dev block))"
    then have "q \<in> tab s" "q \<noteq> p" using chains_disjoint(3) [OF wv hashfn_lt] tv by auto
    then show "\<not> holds dev block (buf v q)"
      using bv assms(11) strip_fields(2,3) [of "buf t q" "buf s q"] t(5) by (simp add: holds_def same_data_def)
  qed
  obtain u where u: "insert_into_queues p v = Inr ((), u)" "ring_ok u (r' @ [p])"
      "table_ok u (if b_dev (buf v p) = 0 then ?B else ?B(bh_hash (buf v p) := p # ?B (bh_hash (buf v p))))"
      "same_data v u" "same_loose p v u"
    using insert_into_queues_ok [OF rv _ _ wv no] t(3) tv assms(6) by auto
  have tu: "tab u = tab s" using u(4) tv by (simp add: same_data_def)
  have su: "strip (buf u q) = strip (if q = p then claim dev block (buf s p) else buf s q)" if "q \<in> tab s" for q
  proof -
    have "strip (buf t q) = strip (buf s q)" using t(5) that by (simp add: same_data_def)
    then have "strip (buf v q) = strip (if q = p then claim dev block (buf s p) else buf s q)"
      using bv [OF that] strip_claim [of "buf t q" "buf s q" dev block] by (cases "q = p") auto
    then show ?thesis using u(4) that tv by (simp add: same_data_def)
  qed
  have key: "b_dev (buf u p) = b_dev (buf v p)" "bh_hash (buf u p) = bh_hash (buf v p)"
    using strip_fields(2,3) [of "buf u p" "buf v p"] u(4) tv assms(6) by (simp_all add: same_data_def bh_hash_def)
  have "uint (of_int dev :: u16) = dev" using assms(7,8) by (simp add: uint_word_of_int_eq take_bit_eq_mod)
  then have nz: "b_dev (buf v p) \<noteq> 0" using bv [OF assms(6)] assms(7) by (auto simp: claim_def)
  have "members u (?B(bh_hash (buf u p) := p # ?B (bh_hash (buf u p))))"
    by (rule members_after [OF assms(5,6)]) (use nz key tu su t u same_loose_claim [OF t(6,5), of _ u] assms(6) v_def in auto)
  moreover have "table_ok u (?B(bh_hash (buf u p) := p # ?B (bh_hash (buf u p))))" using u(3) nz key by simp
  moreover have "set (r' @ [p]) = tab u" using t(3) tu assms(6) by auto
  ultimately have "\<exists>r B. ring_ok u r \<and> set r = tab u \<and> table_ok u B \<and> members u B" using u(2) by blast
  then show ?thesis using t(1,5) fv u(1) tu su [OF assms(6)] su unfolding v_def by auto
qed

lemma cache_wf_count:
  assumes "cache_wf s" "p \<in> tab s"
  shows "cache_wf (buf_at p (\<lambda>b. b\<lparr>b_count := c b\<rparr>) s)" (is "cache_wf ?s")
proof -
  obtain r B where w: "ring_ok s r" "set r = tab s" "table_ok s B" "members s B"
      "inj_on (\<lambda>p. (b_dev (buf s p), b_blocknr (buf s p))) {p \<in> tab s. b_dev (buf s p) \<noteq> 0}"
    using assms(1) by (auto simp: cache_wf_iff)
  have b: "b_dev (buf ?s q) = b_dev (buf s q)" "b_blocknr (buf ?s q) = b_blocknr (buf s q)"
      "b_next (buf ?s q) = b_next (buf s q)" "b_prev (buf ?s q) = b_prev (buf s q)" "bh_hash (buf ?s q) = bh_hash (buf s q)"
    if "q \<in> tab s" for q
    using that assms(2) by (simp_all add: buf_buf_at bh_hash_def)
  have "ring_ok ?s r" "table_ok ?s B"
    using ring_ok_at [OF w(1) assms(2)] table_ok_at [OF w(3) assms(2)] by simp_all
  moreover have "members ?s B" using w(4) by (simp add: members_def b)
  moreover have "inj_on (\<lambda>p. (b_dev (buf ?s p), b_blocknr (buf ?s p))) {p \<in> tab ?s. b_dev (buf ?s p) \<noteq> 0}"
    using w(5) by (auto simp: inj_on_def b)
  ultimately show ?thesis using w(2) by (auto simp: cache_wf_iff)
qed

lemma free_scan_free:
  assumes "ring_ok s r" "set r = tab s" "idle s" "length r \<le> e_fuel E" "q \<in> tab s" "b_count (buf s q) = 0"
  shows "\<exists>p. free_scan (e_fuel E) E (free_list s) s = Inr (p, s) \<and> p \<in> tab s \<and> b_count (buf s p) = 0"
proof -
  obtain f xs where r: "r = f # xs" "free_list s = f" "f \<notin> set xs" "seg (nxf s) (pvf s) f xs f"
    using assms(1) by (cases r) (auto simp: ring_ok_def)
  let ?P = "\<lambda>p. b_count (buf s p) = 0"
  have "free_scan (e_fuel E) E f s = Inr (or_null (find ?P (f # xs)), s)"
    by (rule free_scan_first [OF r(4,3,2)]) (use assms(2-4) r in \<open>auto simp: idle_def\<close>)
  moreover obtain p where p: "find ?P r = Some p"
    using assms(2,5,6) by (cases "find ?P r") (auto simp: find_None_iff)
  moreover have "p \<in> set r" "?P p" using p by (auto simp: find_Some_iff nth_mem)
  ultimately show ?thesis using r(2) assms(2) unfolding r(1) [symmetric] by (auto simp: or_null_def)
qed

lemma inj_claim:
  assumes "inj_on (\<lambda>p. (b_dev (buf s p), b_blocknr (buf s p))) {p \<in> tab s. b_dev (buf s p) \<noteq> 0}"
    and "tab u = tab s" "holds dev block (buf u p)" "\<forall>q \<in> tab s. \<not> holds dev block (buf s q)"
    and "\<forall>q \<in> tab s. q \<noteq> p \<longrightarrow> strip (buf u q) = strip (buf s q)"
  shows "inj_on (\<lambda>p. (b_dev (buf u p), b_blocknr (buf u p))) {p \<in> tab u. b_dev (buf u p) \<noteq> 0}"
proof (rule inj_onI)
  fix x y
  assume xy: "x \<in> {p \<in> tab u. b_dev (buf u p) \<noteq> 0}" "y \<in> {p \<in> tab u. b_dev (buf u p) \<noteq> 0}"
    "(b_dev (buf u x), b_blocknr (buf u x)) = (b_dev (buf u y), b_blocknr (buf u y))"
  have keep: "b_dev (buf u q) = b_dev (buf s q) \<and> b_blocknr (buf u q) = b_blocknr (buf s q)" if "q \<in> tab s" "q \<noteq> p" for q
    using assms(5) that strip_fields(2,3) [of "buf u q" "buf s q"] by blast
  have other: "\<not> holds dev block (buf u q)" if "q \<in> tab s" "q \<noteq> p" for q
    using keep [OF that] assms(4) that(1) by (simp add: holds_def)
  have "holds dev block (buf u x) \<longleftrightarrow> holds dev block (buf u y)" using xy(3) by (simp add: holds_def)
  then have "x = p \<longleftrightarrow> y = p" using other [of x] other [of y] xy(1,2) assms(2,3) by auto
  moreover have "x = y" if "x \<noteq> p" "y \<noteq> p"
    using inj_onD [OF assms(1), of x y] keep [of x] keep [of y] xy assms(2) that by simp
  ultimately show "x = y" by blast
qed

lemma cache_parts:
  assumes "cache_wf s"
  obtains r B where "ring_ok s r" "set r = tab s" "length r = length (buffers s)" "table_ok s B" "members s B"
    "inj_on (\<lambda>p. (b_dev (buf s p), b_blocknr (buf s p))) {p \<in> tab s. b_dev (buf s p) \<noteq> 0}"
proof -
  obtain r B where w: "ring_ok s r" "set r = tab s" "table_ok s B" "members s B"
      "inj_on (\<lambda>p. (b_dev (buf s p), b_blocknr (buf s p))) {p \<in> tab s. b_dev (buf s p) \<noteq> 0}"
    using assms by (auto simp: cache_wf_iff)
  moreover have "length r = length (buffers s)" using w(1,2) distinct_card [of r] by (simp add: ring_ok_def tab_def)
  ultimately show thesis by (intro that)
qed

text \<open>The way through \<open>getblk\<close> when nothing interferes and the block is in no buffer.\<close>

lemma getblk_path:
  assumes "0 < e_fuel E" "find_buffer dev block s = Inr (0, s)"
    and "free_scan (e_fuel E) E (free_list s) s = Inr (p, s)" "p \<in> tab s"
    and "remove_from_queues p (buf_at p (\<lambda>b. b\<lparr>b_count := b_count b + 1\<rparr>) s) = Inr ((), t)"
    and "p \<in> tab t" "\<not> b_dirt (buf t p)"
    and "find_buffer dev block (buf_at p (claim dev block) t) = Inr (0, buf_at p (claim dev block) t)"
    and "insert_into_queues p (buf_at p (claim dev block) t) = Inr ((), u)"
  shows "getblk E dev block s = Inr (p, u)"
proof -
  obtain n where n: "e_fuel E = Suc n" using assms(1) by (cases "e_fuel E") auto
  have miss: "get_hash_table E dev block s = Inr (0, s)" using assms(2) by (simp add: get_hash_table_def n)
  have cl: "upd_buf p (\<lambda>b. b\<lparr>b_dev := of_int dev, b_blocknr := of_int block, b_dirt := False, b_uptodate := False\<rparr>) t =
      Inr ((), buf_at p (claim dev block) t)"
    unfolding upd_buf_at [OF assms(6)] by (simp add: claim_def [abs_def])
  have "acts [upd_buf p (\<lambda>b. b\<lparr>b_count := b_count b + 1\<rparr>), remove_from_queues p,
      with_buf p (\<lambda>b. onlyif (b_dirt b) (sync_dev E (uint (b_dev b)))),
      upd_buf p (\<lambda>b. b\<lparr>b_dev := of_int dev, b_blocknr := of_int block, b_dirt := False, b_uptodate := False\<rparr>)] s =
      Inr ((), buf_at p (claim dev block) t)"
    using assms(4-7) cl by (simp add: upd_buf_at [OF assms(4)] with_buf_at onlyif_def)
  moreover have "getblk E dev block s = getblk_loop (Suc n) E dev block s" by (simp only: getblk_def n)
  ultimately show ?thesis using miss assms(3,8,9) tab_pos [OF assms(4)] by (simp del: acts.simps)
qed

lemma getblk_miss:
  assumes "cache_wf s" "idle s" "2 \<le> length (buffers s)" "length (buffers s) \<le> e_fuel E"
    and "0 < dev" "dev < 65536" "0 \<le> block" "block < 65536" "\<forall>q \<in> tab s. \<not> holds dev block (buf s q)"
    and "q \<in> tab s" "b_count (buf s q) = 0"
  shows "\<exists>p s'. getblk E dev block s = Inr (p, s') \<and> cache_wf s' \<and> p \<in> tab s \<and> tab s' = tab s \<and>
    b_count (buf s p) = 0 \<and> strip (buf s' p) = strip (claim dev block ((buf s p)\<lparr>b_count := 1\<rparr>)) \<and>
    (\<forall>q \<in> tab s. q \<noteq> p \<longrightarrow> strip (buf s' q) = strip (buf s q))"
proof -
  have fuel: "0 < e_fuel E" using assms(3,4) by linarith
  obtain r B where w: "ring_ok s r" "set r = tab s" "length r = length (buffers s)" "table_ok s B"
    using cache_parts [OF assms(1)] .
  obtain p where p: "free_scan (e_fuel E) E (free_list s) s = Inr (p, s)" "p \<in> tab s" "b_count (buf s p) = 0"
    using free_scan_free [OF w(1,2) assms(2) _ assms(10,11)] w(3) assms(4) by auto
  have none: "find_buffer dev block s = Inr (0, s)"
    by (rule find_buffer_none [OF w(4)]) (use assms(9) chains_disjoint(3) [OF w(4) hashfn_lt] in blast)
  define s1 where "s1 = buf_at p (\<lambda>b. b\<lparr>b_count := b_count b + 1\<rparr>) s"
  have b1: "buf s1 x = (if x = p then (buf s p)\<lparr>b_count := 1\<rparr> else buf s x)" if "x \<in> tab s" for x
    using that p by (simp add: s1_def buf_buf_at)
  have t1: "tab s1 = tab s" "length (buffers s1) = length (buffers s)" by (simp_all add: s1_def)
  have c1: "cache_wf s1" unfolding s1_def by (rule cache_wf_count [OF assms(1) p(2)])
  obtain r1 B1 where w1: "ring_ok s1 r1" "set r1 = tab s1" "length r1 = length (buffers s)" "table_ok s1 B1" "members s1 B1"
      "inj_on (\<lambda>p. (b_dev (buf s1 p), b_blocknr (buf s1 p))) {p \<in> tab s1. b_dev (buf s1 p) \<noteq> 0}"
    using cache_parts [OF c1] unfolding t1 .
  have h1: "\<forall>x \<in> tab s1. \<not> holds dev block (buf s1 x)" using assms(9) b1 by (auto simp: holds_def t1)
  have l1: "2 \<le> length r1" "p \<in> tab s1" using w1(3) assms(3) p(2) t1 by simp_all
  obtain t u where u: "remove_from_queues p s1 = Inr ((), t)" "same_data s1 t"
      "find_buffer dev block (buf_at p (claim dev block) t) = Inr (0, buf_at p (claim dev block) t)"
      "insert_into_queues p (buf_at p (claim dev block) t) = Inr ((), u)" "tab u = tab s1"
      "\<exists>r B. ring_ok u r \<and> set r = tab u \<and> table_ok u B \<and> members u B"
      "strip (buf u p) = strip (claim dev block (buf s1 p))" "\<forall>q \<in> tab s1. q \<noteq> p \<longrightarrow> strip (buf u q) = strip (buf s1 q)"
    using reuse_buffer [OF w1(1,2) l1(1) w1(4,5) l1(2) assms(5-8) h1] by blast
  have d: "p \<in> tab t" "\<not> b_dirt (buf t p)"
    using u(2) l1(2) strip_fields(5) [of "buf t p" "buf s1 p"] b1 [OF p(2)] assms(2) p(2,3) by (auto simp: same_data_def idle_def)
  have "holds dev block (buf u p)"
    using strip_fields(2,3) [OF u(7)] assms(5-8)
    by (simp add: holds_def claim_def uint_word_of_int_eq take_bit_eq_mod)
  then have "cache_wf u" using inj_claim [OF w1(6) u(5) _ h1 u(8)] u(6) by (simp add: cache_wf_iff)
  moreover have "getblk E dev block s = Inr (p, u)"
    by (rule getblk_path [OF fuel none p(1,2) _ d u(3,4)]) (use u(1) s1_def in simp)
  ultimately show ?thesis using p u(5,7,8) b1 t1 by auto
qed

section \<open>Set-up\<close>

lemma seg_upt:
  assumes "\<And>i. a \<le> i \<Longrightarrow> i < n \<Longrightarrow> nx i = Suc i \<and> pv (Suc i) = i" "nx n = b" "pv b = n" "a \<le> n"
  shows "seg nx pv a [Suc a..<Suc n] b"
  using assms
proof (induction "n - a" arbitrary: a)
  case 0
  then show ?case by simp
next
  case (Suc k)
  then have "seg nx pv (Suc a) [Suc (Suc a)..<Suc n] b" by (intro Suc.hyps(1)) auto
  moreover have "[Suc a..<Suc n] = Suc a # [Suc (Suc a)..<Suc n]" using Suc.hyps(2) by (intro upt_conv_Cons) simp
  ultimately show ?case using Suc.prems(1) [of a] Suc.hyps(2) by simp
qed

lemma buffer_init_wf:
  assumes "buffer_init junk s = Inr ((), s')"
  shows "cache_wf s' \<and> idle s' \<and> (\<forall>p \<in> tab s'. b_count (buf s' p) = 0 \<and> b_dev (buf s' p) = 0) \<and>
    length (buffers s') = init_count (unat (start_buffer s)) (unat BUFFER_END)"
proof -
  define n where "n = init_count (unat (start_buffer s)) (unat BUFFER_END)"
  have n: "0 < n" using assms by (cases n) (auto simp: buffer_init_def n_def)
  have s': "length (buffers s') = n" "free_list s' = 1" "hash_table s' = replicate NR_HASH 0"
    using assms n by (auto simp: buffer_init_def n_def)
  have b: "buf s' (Suc k) = (junk k)\<lparr>b_dev := 0, b_dirt := False, b_count := 0, b_lock := False,
      b_uptodate := False, b_wait := 0, b_next := 0, b_prev := 0, b_prev_free := (if k = 0 then n else k),
      b_next_free := (if k = n - 1 then 1 else k + 2)\<rparr>" if "k < n" for k
    using assms n that by (auto simp: buffer_init_def n_def)
  have p: "\<exists>k < n. p = Suc k" if "p \<in> tab s'" for p using that s'(1) by (cases p) (auto simp: tab_def)
  have l: "nxf s' (Suc k) = (if k = n - 1 then 1 else k + 2)" "pvf s' (Suc k) = (if k = 0 then n else k)" if "k < n" for k
    unfolding nxf_def pvf_def b [OF that] by simp_all
  obtain m where m: "n = Suc m" using n by (cases n) auto
  have "seg (nxf s') (pvf s') (Suc 0) [Suc (Suc 0)..<Suc n] 1"
  proof (rule seg_upt)
    show "nxf s' i = Suc i \<and> pvf s' (Suc i) = i" if "Suc 0 \<le> i" "i < n" for i
      using that l(1) [of "i - 1"] l(2) [of i] by (cases i) (auto simp: m)
  qed (use l(1) [of m] l(2) [of 0] m in \<open>simp_all add: One_nat_def\<close>)
  moreover have "[1..<Suc n] = Suc 0 # [Suc (Suc 0)..<Suc n]" using n by (simp add: upt_conv_Cons One_nat_def)
  ultimately have ring: "ring_ok s' [1..<Suc n]" using s' n
    by (simp add: ring_ok_def tab_def One_nat_def subset_iff del: upt_Suc)
  have "table_ok s' (\<lambda>_. [])" using s' by (simp add: table_ok_def chain_ok_def nxh_def)
  moreover have "members s' (\<lambda>_. [])" using p b by (fastforce simp: members_def)
  moreover have z: "b_count (buf s' p) = 0 \<and> b_dev (buf s' p) = 0 \<and> \<not> b_lock (buf s' p) \<and> \<not> b_dirt (buf s' p)" if "p \<in> tab s'" for p
    using p [OF that] b by auto
  moreover have "inj_on (\<lambda>p. (b_dev (buf s' p), b_blocknr (buf s' p))) {p \<in> tab s'. b_dev (buf s' p) \<noteq> 0}"
    by (rule inj_onI) (use z in auto)
  moreover have "set [1..<Suc n] = tab s'" using s'(1) by (auto simp: tab_def)
  ultimately have "cache_wf s'" unfolding cache_wf_iff using ring by blast
  then show ?thesis using z s'(1) n_def by (auto simp: idle_def)
qed


definition small_cache :: fs where
  "small_cache = (case buffer_init (\<lambda>_. \<lparr>b_data = (\<lambda>_. 0), b_dev = 0, b_blocknr = 0, b_uptodate = False, b_dirt = False,
     b_count = 0, b_lock = False, b_wait = 0, b_prev = 0, b_next = 0, b_prev_free = 0, b_next_free = 0\<rparr>)
     ((start_fs (\<lambda>_. 0))\<lparr>start_buffer := 0x200000 - 2 * 1024 - 2 * 56\<rparr>) of Inr (_, s) \<Rightarrow> s)"


end
