(* ===== verification/Pipe_Correct.thy ===== *)
theory Pipe_Correct
  imports File_Io Start
begin

text \<open>
  A pipe is a bounded queue of bytes in its page: the interface of \<open>Fifo\<close> for the positions kept in
  the zones of the i-node, and what \<open>read_pipe\<close> and \<open>write_pipe\<close> transfer.
\<close>

section \<open>Positions in the zone array\<close>

lemma nine: "length zs = 9 \<Longrightarrow> \<exists>a b c d e f g h i. zs = [a, b, c, d, e, f, g, h, i]"
  by (auto simp: numeral_eq_Suc length_Suc_conv)

lemma zone_cases:
  obtains "n < 16" | k where "n = 16 + k" "k < 16" | k where "n = 32 + k" "k < 16" | k where "n = 48 + (k :: nat)"
proof -
  consider "n < 16" | "16 \<le> n" "n < 32" | "32 \<le> n" "n < 48" | "48 \<le> n" by linarith
  then show thesis
  proof cases
    case 1
    then show ?thesis by (rule that(1))
  next
    case 2
    then show ?thesis using that(2) [of "n - 16"] by simp
  next
    case 3
    then show ?thesis using that(3) [of "n - 32"] by simp
  next
    case 4
    then show ?thesis using that(4) [of "n - 48"] by simp
  qed
qed

lemma join_zones:
  "ucast (ucast (v :: u64) :: u16) OR push_bit 16 (ucast (ucast (drop_bit 16 v) :: u16) OR
     push_bit 16 (ucast (ucast (drop_bit 32 v) :: u16) OR push_bit 16 (ucast (ucast (drop_bit 48 v) :: u16)))) = (v :: u64)"
proof (rule bit_word_eqI)
  fix n
  assume "n < LENGTH(64)"
  then show "bit (ucast (ucast (v :: u64) :: u16) OR push_bit 16 (ucast (ucast (drop_bit 16 v) :: u16) OR
     push_bit 16 (ucast (ucast (drop_bit 32 v) :: u16) OR push_bit 16 (ucast (ucast (drop_bit 48 v) :: u16)))) :: u64) n = bit v n"
    by (cases n rule: zone_cases) (simp_all add: bit_simps)
qed

lemma zones_get_set:
  assumes "length zs = 9"
  shows "get_zones 0 (set_zones 0 v zs) = v" "get_zones 4 (set_zones 0 v zs) = get_zones 4 zs"
    "get_zones 4 (set_zones 4 v zs) = v" "get_zones 0 (set_zones 4 v zs) = get_zones 0 zs"
    "length (set_zones 0 v zs) = 9" "length (set_zones 4 v zs) = 9"
proof -
  obtain a b c d e f g h i where z: "zs = [a, b, c, d, e, f, g, h, i]" using nine [OF assms] by auto
  have u: "[0..<4] = [0, 1, 2, 3 :: nat]" by (simp add: upt_rec)
  show "get_zones 0 (set_zones 0 v zs) = v" "get_zones 4 (set_zones 0 v zs) = get_zones 4 zs"
    "get_zones 4 (set_zones 4 v zs) = v" "get_zones 0 (set_zones 4 v zs) = get_zones 0 zs"
    "length (set_zones 0 v zs) = 9" "length (set_zones 4 v zs) = 9"
    using join_zones [of v] by (simp_all add: z set_zones_def get_zones_def u)
qed

lemma INC_PIPE_mod:
  assumes "unat v < 4096"
  shows "unat (INC_PIPE v) = (unat v + 1) mod 4096"
proof -
  have m: "(4095 :: u32) = mask 12" by (simp add: mask_eq_exp_minus_1)
  have w: "unat (ucast v + 1 :: u32) = unat v + 1"
    using assms by (simp add: unat_word_ariths unsigned_ucast_eq take_bit_eq_mod)
  have hi: "v AND NOT 0xFFFFFFFF = 0"
  proof -
    have "unat (take_bit 32 v) = unat v" using assms by (simp add: take_bit_eq_mod unat_mod)
    then have "v = take_bit 32 v" by (simp only: word_unat_eq_iff)
    then have "v AND NOT (mask 32) = take_bit 32 v AND NOT (mask 32)" by simp
    also have "\<dots> = 0" by (rule bit_word_eqI) (auto simp: bit_simps)
    finally show ?thesis by (simp add: mask_eq_exp_minus_1)
  qed
  have "unat ((ucast v + 1 :: u32) AND 4095) = (unat v + 1) mod 4096"
    unfolding m take_bit_eq_mask [symmetric] by (simp add: take_bit_eq_mod unat_mod w)
  then show ?thesis unfolding INC_PIPE_def hi by (simp add: unsigned_ucast_eq take_bit_eq_mod)
qed

section \<open>Bytes of memory\<close>

lemma byte_split: "((a :: u64) AND NOT 7) OR (a AND 7) = a"
  by (rule bit_word_eqI) (auto simp: bit_simps)

lemma byte_index: "unat ((a :: u64) AND 7) < 8"
proof -
  have "(7 :: u64) = mask 3" by (simp add: mask_eq_exp_minus_1)
  then have "a AND 7 = take_bit 3 a" by (simp add: take_bit_eq_mask)
  then show ?thesis by (simp add: take_bit_eq_mod unat_mod)
qed

lemma byte_of_word:
  fixes w :: u64
  assumes "i < 8" "j < 8"
  shows "(ucast (drop_bit (8 * j) ((w AND NOT (push_bit (8 * i) 0xFF)) OR push_bit (8 * i) (ucast (v :: u8)))) :: u8) =
    (if j = i then v else ucast (drop_bit (8 * j) w))"
proof -
  have ff: "(0xFF :: u64) = mask 8" by (simp add: mask_eq_exp_minus_1)
  have "bit (ucast (drop_bit (8 * j) ((w AND NOT (push_bit (8 * i) (mask 8))) OR push_bit (8 * i) (ucast v))) :: u8) n =
    bit (if j = i then v else ucast (drop_bit (8 * j) w)) n" if "n < 8" for n
  proof (cases "j = i")
    case True
    then show ?thesis using that assms by (simp add: bit_simps)
  next
    case False
    then have "\<not> (8 * i \<le> 8 * j + n \<and> 8 * j + n - 8 * i < 8)" using that by auto
    then show ?thesis using that assms False by (auto simp: bit_simps dest: bit_imp_le_length)
  qed
  then show ?thesis unfolding ff by (intro bit_word_eqI) simp
qed

lemma mem_byte_set:
  "mem_byte (set_mem_byte v a s) b = (if b = a then v else mem_byte s b)"
proof (cases "b AND NOT 7 = a AND NOT 7")
  case True
  then have "b = a \<longleftrightarrow> b AND 7 = a AND 7" by (metis byte_split)
  then have "b = a \<longleftrightarrow> unat (b AND 7) = unat (a AND 7)" by (simp add: word_unat_eq_iff)
  then show ?thesis
    using byte_of_word [OF byte_index [of a] byte_index [of b], of "qmem s (a AND NOT 7)" v] True
    by (simp add: mem_byte_def set_mem_byte_def Let_def write_q_def)
next
  case False
  then show ?thesis by (auto simp: mem_byte_def set_mem_byte_def Let_def write_q_def)
qed

section \<open>The pipe as a bounded queue\<close>

definition pipe_wf :: "nat \<Rightarrow> 'a fs_scheme \<Rightarrow> bool" where
  "pipe_wf p s \<longleftrightarrow> in_tab p (inode_table s) \<and> length (i_zone (ino s p)) = 9 \<and>
     unat (PIPE_HEAD (ino s p)) < 4096 \<and> unat (PIPE_TAIL (ino s p)) < 4096"

definition pipe_bytes :: "nat \<Rightarrow> 'a fs_scheme \<Rightarrow> u8 list" where
  "pipe_bytes p s = ring 4096 (uint (PIPE_HEAD (ino s p))) (uint (PIPE_TAIL (ino s p)))
     (\<lambda>k. mem_byte s (i_size (ino s p) + of_nat k))"

text \<open>One turn of the loop of \<open>write_pipe\<close>, and of that of \<open>read_pipe\<close>, on the pipe.\<close>

definition pipe_store :: "nat \<Rightarrow> u8 \<Rightarrow> 'a fs_scheme \<Rightarrow> 'a fs_scheme" where
  "pipe_store p c s =
     inode_table_update (\<lambda>xs. xs[p - 1 := inc_head (xs ! (p - 1))])
       (set_mem_byte c (i_size (ino s p) + PIPE_HEAD (ino s p)) s)"

definition pipe_fetch :: "nat \<Rightarrow> 'a fs_scheme \<Rightarrow> u8 \<times> 'a fs_scheme" where
  "pipe_fetch p s =
     (mem_byte s (i_size (ino s p) + PIPE_TAIL (ino s p)),
      inode_table_update (\<lambda>xs. xs[p - 1 := inc_tail (xs ! (p - 1))]) s)"

lemma inode_table_set_mem_byte [simp]: "inode_table (set_mem_byte v a s) = inode_table s"
  by (simp add: set_mem_byte_def Let_def write_q_def)

lemma umem_set_mem_byte [simp]: "umem (set_mem_byte v a s) = umem s"
  by (simp add: set_mem_byte_def Let_def write_q_def)

lemma in_tab_lt: "in_tab p xs \<Longrightarrow> p - 1 < length xs" by (auto simp: in_tab_def)

lemma inc_positions:
  assumes "length (i_zone i) = 9"
  shows "PIPE_HEAD (inc_head i) = INC_PIPE (PIPE_HEAD i)" "PIPE_TAIL (inc_head i) = PIPE_TAIL i"
    "PIPE_TAIL (inc_tail i) = INC_PIPE (PIPE_TAIL i)" "PIPE_HEAD (inc_tail i) = PIPE_HEAD i"
    "length (i_zone (inc_head i)) = 9" "length (i_zone (inc_tail i)) = 9"
  using zones_get_set [OF assms] by (simp_all add: inc_head_def inc_tail_def PIPE_HEAD_def PIPE_TAIL_def)

lemma inc_fields [simp]:
  "i_size (inc_head i) = i_size i" "i_size (inc_tail i) = i_size i"
  "i_count (inc_head i) = i_count i" "i_count (inc_tail i) = i_count i"
  by (simp_all add: inc_head_def inc_tail_def)

lemma uint_INC_PIPE:
  assumes "unat v < 4096"
  shows "uint (INC_PIPE v) = (uint v + 1) mod int 4096"
  by (simp only: uint_nat INC_PIPE_mod [OF assms] zmod_int of_nat_add of_nat_1)

lemma INC_PIPE_lt: "unat v < 4096 \<Longrightarrow> unat (INC_PIPE v) < 4096"
  by (simp add: INC_PIPE_mod)

lemma PIPE_SIZE_mod: "unat (PIPE_SIZE i) = nat ((uint (PIPE_HEAD i) - uint (PIPE_TAIL i)) mod 4096)"
proof -
  have m: "(4095 :: u64) = mask 12" by (simp add: mask_eq_exp_minus_1)
  have "uint (PIPE_SIZE i) = (uint (PIPE_HEAD i) - uint (PIPE_TAIL i)) mod 2 ^ 64 mod 2 ^ 12"
    unfolding PIPE_SIZE_def m take_bit_eq_mask [symmetric]
    by (simp add: take_bit_eq_mod uint_mod uint_word_ariths)
  also have "\<dots> = (uint (PIPE_HEAD i) - uint (PIPE_TAIL i)) mod 4096"
    by (subst mod_mod_cancel) simp_all
  finally show ?thesis by (simp add: unat_eq_nat_uint)
qed

lemma slot_distinct:
  assumes "k < 4096" "unat v < 4096"
  shows "(a :: u64) + of_nat k = a + v \<longleftrightarrow> k = unat v"
proof -
  have "of_nat k = v \<longleftrightarrow> k = unat v"
    using assms(1) by (auto simp: unat_of_nat)
  then show ?thesis by simp
qed

lemma position_range:
  assumes "unat (v :: u64) < 4096"
  shows "0 \<le> uint v" "uint v < int 4096"
  using assms by (simp_all only: uint_nat of_nat_less_iff of_nat_0_le_iff)

lemma pipe_length: "length (pipe_bytes p s) = unat (PIPE_SIZE (ino s p))"
  by (simp add: pipe_bytes_def length_ring PIPE_SIZE_mod)

lemma PIPE_SIZE_le: "unat (PIPE_SIZE i) \<le> 4095"
  by (simp add: PIPE_SIZE_mod nat_le_iff)

lemma PIPE_FULL_iff: "PIPE_FULL i \<longleftrightarrow> unat (PIPE_SIZE i) = 4095"
  by (simp add: PIPE_FULL_def word_unat_eq_iff)

lemma ino_store: "pipe_wf p s \<Longrightarrow> ino (pipe_store p c s) p = inc_head (ino s p)"
  using in_tab_lt [of p "inode_table s"] by (simp add: pipe_store_def pipe_wf_def)

lemma ino_fetch: "pipe_wf p s \<Longrightarrow> ino (snd (pipe_fetch p s)) p = inc_tail (ino s p)"
  using in_tab_lt [of p "inode_table s"] by (simp add: pipe_fetch_def pipe_wf_def)

lemma pipe_store_law:
  assumes "pipe_wf p s" "\<not> PIPE_FULL (ino s p)"
  shows "pipe_wf p (pipe_store p c s) \<and> pipe_bytes p (pipe_store p c s) = pipe_bytes p s @ [c]"
proof -
  let ?i = "ino s p"
  note b = assms(1) [unfolded pipe_wf_def]
  have z: "length (i_zone ?i) = 9" and h: "unat (PIPE_HEAD ?i) < 4096"
    using b by simp_all
  note i = ino_store [OF assms(1), of c]
  have m: "mem_byte (pipe_store p c s) a = (if a = i_size ?i + PIPE_HEAD ?i then c else mem_byte s a)" for a
    unfolding mem_byte_set [symmetric] by (simp add: pipe_store_def mem_byte_def)
  have "pipe_wf p (pipe_store p c s)"
    using b i by (auto simp: pipe_wf_def inc_positions INC_PIPE_lt in_tab_def pipe_store_def)
  moreover have "pipe_bytes p (pipe_store p c s) = pipe_bytes p s @ [c]"
    unfolding pipe_bytes_def i inc_positions [OF z] uint_INC_PIPE [OF h] inc_fields
  proof (rule ring_put)
    show "nat ((uint (PIPE_HEAD ?i) - uint (PIPE_TAIL ?i)) mod int 4096) < 4096 - 1"
      using assms(2) PIPE_SIZE_le [of ?i] by (simp add: PIPE_FULL_iff PIPE_SIZE_mod [symmetric])
    show "mem_byte (pipe_store p c s) (i_size ?i + of_nat k) =
        (if k = nat (uint (PIPE_HEAD ?i)) then c else mem_byte s (i_size ?i + of_nat k))" if "k < 4096" for k
      unfolding m slot_distinct [OF that h] by simp
  qed (use position_range [OF h] in simp_all)
  ultimately show ?thesis ..
qed

lemma pipe_fetch_law:
  assumes "pipe_wf p s" "\<not> PIPE_EMPTY (ino s p)"
  shows "pipe_wf p (snd (pipe_fetch p s)) \<and>
    pipe_bytes p s = fst (pipe_fetch p s) # pipe_bytes p (snd (pipe_fetch p s))"
proof -
  let ?i = "ino s p"
  note b = assms(1) [unfolded pipe_wf_def]
  have z: "length (i_zone ?i) = 9" and h: "unat (PIPE_HEAD ?i) < 4096" and l: "unat (PIPE_TAIL ?i) < 4096"
    using b by simp_all
  note i = ino_fetch [OF assms(1)]
  have m: "mem_byte (snd (pipe_fetch p s)) = mem_byte s"
    by (simp add: pipe_fetch_def mem_byte_def fun_eq_iff)
  have f: "fst (pipe_fetch p s) = mem_byte s (i_size ?i + of_nat (nat (uint (PIPE_TAIL ?i))))"
    by (simp add: pipe_fetch_def)
  have "uint (PIPE_HEAD ?i) \<noteq> uint (PIPE_TAIL ?i)"
    using assms(2) by (simp only: PIPE_EMPTY_def word_uint_eq_iff not_False_eq_True)
  then have "(uint (PIPE_HEAD ?i) - uint (PIPE_TAIL ?i)) mod int 4096 \<noteq> 0"
    using ring_empty [of 4096, OF _ position_range [OF h] position_range [OF l], of "\<lambda>_. 0"]
    by (auto simp: ring_def)
  then have "pipe_bytes p s = fst (pipe_fetch p s) # pipe_bytes p (snd (pipe_fetch p s))"
    unfolding pipe_bytes_def i inc_positions [OF z] uint_INC_PIPE [OF l] inc_fields f m
    by (intro ring_get) (use position_range [OF l] in simp_all)
  moreover have "pipe_wf p (snd (pipe_fetch p s))"
    using b i by (auto simp: pipe_wf_def inc_positions INC_PIPE_lt in_tab_def pipe_fetch_def)
  ultimately show ?thesis by simp
qed

interpretation pipeq: bounded_fifo "pipe_wf p" "pipe_bytes p" 4095 "pipe_store p" "pipe_fetch p"
  "\<lambda>s. PIPE_EMPTY (ino s p)" "\<lambda>s. PIPE_FULL (ino s p)" for p
proof
  show "PIPE_EMPTY (ino s p) \<longleftrightarrow> pipe_bytes p s = []" if "pipe_wf p s" for s :: "'a fs_scheme"
    using that position_range unfolding PIPE_EMPTY_def pipe_bytes_def pipe_wf_def
    by (subst ring_empty) (auto simp: word_uint_eq_iff)
qed (auto simp: pipe_length PIPE_FULL_iff PIPE_SIZE_le pipe_store_law pipe_fetch_law)

section \<open>Reading and writing\<close>

text \<open>What the pipe holds does not depend on the fields the wait queue and user memory use.\<close>

definition pipe_view :: "nat \<Rightarrow> 'a fs_scheme \<Rightarrow> bool \<times> u8 list \<times> u16 \<times> (u64 \<Rightarrow> u8)" where
  "pipe_view p s = (pipe_wf p s, pipe_bytes p s, i_count (ino s p), umem s)"

lemma pipe_view_wake_up: "pipe_wf p s \<Longrightarrow> pipe_view p (wake_up (ino_wait p) s) = pipe_view p s"
  by (auto simp: pipe_view_def pipe_wf_def pipe_bytes_def in_tab_def wake_up_def ino_wait_def set_state_def
      upd_task_def PIPE_HEAD_def PIPE_TAIL_def mem_byte_def)

lemma umem_pipe_store: "umem (pipe_store p c s) = umem s"
  by (simp add: pipe_store_def)

lemma pipe_view_store:
  "pipe_wf p s \<Longrightarrow> \<not> PIPE_FULL (ino s p) \<Longrightarrow>
   pipe_view p (pipe_store p c s) = (True, pipe_bytes p s @ [c], i_count (ino s p), umem s)"
  unfolding pipe_view_def ino_store using pipe_store_law [of p s c]
  by (simp add: umem_pipe_store)

lemma pipe_put_all:
  assumes "pipe_wf p s" "length (pipe_bytes p s) + count \<le> 4095" "0 < e_fuel E"
  shows "\<exists>s'. pipe_put count E p b n s = Inr ((int (n + count), True), s') \<and>
    pipe_view p s' = (True, pipe_bytes p s @ text_at (umem s) b count, i_count (ino s p), umem s)"
  using assms
proof (induction count arbitrary: b n s)
  case 0
  then show ?case by (simp add: pipe_view_def text_at_def)
next
  case (Suc count)
  have nf: "\<not> PIPE_FULL (ino s p)" using pipeq.full_iff [OF Suc.prems(1)] Suc.prems(2) by simp
  define u where "u = wake_up (ino_wait p) (pipe_store p (umem s b) s)"
  note st = pipe_view_store [OF Suc.prems(1) nf, of "umem s b"]
  have "pipe_view p u = (True, pipe_bytes p s @ [umem s b], i_count (ino s p), umem s)"
    unfolding u_def st [symmetric] by (rule pipe_view_wake_up) (use st in \<open>simp add: pipe_view_def\<close>)
  then have u: "pipe_wf p u" "pipe_bytes p u = pipe_bytes p s @ [umem s b]" "i_count (ino u p) = i_count (ino s p)"
      "umem u = umem s"
    by (simp_all add: pipe_view_def)
  have tab: "in_tab p (inode_table s)" using Suc.prems(1) by (simp add: pipe_wf_def)
  obtain f where f: "e_fuel E = Suc f" using Suc.prems(3) by (cases "e_fuel E") auto
  have "pipe_put (Suc count) E p b n s = pipe_put count E p (b + 1) (n + 1) u"
    using tab nf by (simp add: f with_ino_def u_def pipe_store_def get_fs_byte_def)
  then show ?case
    using Suc.IH [OF u(1), of "b + 1" "n + 1"] Suc.prems(2,3) u(2-4) by (simp add: text_at_Suc)
qed

lemma address_after:
  assumes "i < 4095"
  shows "b \<noteq> b + 1 + (of_nat i :: u64)"
proof
  assume "b = b + 1 + of_nat i"
  then have "of_nat (Suc i) = (0 :: u64)" by (simp add: add.assoc)
  moreover have "unat (of_nat (Suc i) :: u64) = Suc i" using assms by (simp only: unat_of_nat) simp
  ultimately show False by simp
qed

lemma inode_table_update_umem:
  "inode_table_update f (s\<lparr>umem := m\<rparr>) = (inode_table_update f s)\<lparr>umem := m\<rparr>"
  by simp

lemma pipe_get_all:
  assumes "pipe_wf p s" "k = min count (length (pipe_bytes p s))"
  shows "\<exists>s'. pipe_get count p b n s = Inr (n + k, s') \<and> pipe_wf p s' \<and>
    pipe_bytes p s' = drop k (pipe_bytes p s) \<and> i_count (ino s' p) = i_count (ino s p) \<and>
    (\<forall>i < k. umem s' (b + of_nat i) = pipe_bytes p s ! i) \<and>
    (\<forall>a. (\<forall>i < k. a \<noteq> b + of_nat i) \<longrightarrow> umem s' a = umem s a)"
  using assms
proof (induction count arbitrary: b n s k)
  case (Suc count)
  show ?case
  proof (cases "PIPE_EMPTY (ino s p)")
    case True
    then show ?thesis using pipeq.empty_iff [OF Suc.prems(1)] Suc.prems by (simp add: with_ino_def pipe_wf_def)
  next
    case False
    define u where "u = (snd (pipe_fetch p s))\<lparr>umem := (umem s)(b := fst (pipe_fetch p s))\<rparr>"
    have law: "pipe_wf p u" "pipe_bytes p s = umem u b # pipe_bytes p u" "i_count (ino u p) = i_count (ino s p)"
      using pipe_fetch_law [OF Suc.prems(1) False] ino_fetch [OF Suc.prems(1)]
      by (simp_all add: u_def pipe_wf_def pipe_bytes_def mem_byte_def)
    define j where "j = min count (length (pipe_bytes p u))"
    have k: "k = Suc j" using Suc.prems(2) law(2) by (simp add: j_def)
    have "pipe_get (Suc count) p b n s = pipe_get count p (b + 1) (n + 1) u"
      using Suc.prems(1) False by (simp add: with_ino_def pipe_wf_def u_def pipe_fetch_def put_fs_byte_def inode_table_update_umem)
    then obtain s' where s': "pipe_get (Suc count) p b n s = Inr (n + 1 + j, s')" "pipe_wf p s'"
        "pipe_bytes p s' = drop j (pipe_bytes p u)" "i_count (ino s' p) = i_count (ino u p)"
        "\<forall>i < j. umem s' (b + 1 + of_nat i) = pipe_bytes p u ! i"
        "\<forall>a. (\<forall>i < j. a \<noteq> b + 1 + of_nat i) \<longrightarrow> umem s' a = umem u a"
      using Suc.IH [OF law(1) j_def, of "b + 1" "n + 1"] by auto
    have "j \<le> 4095" using pipeq.within [OF law(1)] by (simp add: j_def)
    then have "b \<noteq> b + 1 + of_nat i" if "i < j" for i
      using that by (intro address_after) simp
    then have "umem s' b = umem u b" using s'(6) by simp
    then have "umem s' (b + of_nat i) = pipe_bytes p s ! i" if "i < k" for i
      using that s'(5) law(2) by (cases i) (auto simp: k add.assoc)
    moreover have "umem s' a = umem s a" if "\<forall>i < k. a \<noteq> b + of_nat i" for a
    proof -
      have "a \<noteq> b + 1 + of_nat i" if "i < j" for i using \<open>\<forall>i < k. _\<close> that
        by (auto simp: k add.assoc dest: spec [of _ "Suc i"])
      moreover have "a \<noteq> b" using \<open>\<forall>i < k. _\<close> by (auto simp: k)
      ultimately show ?thesis using s'(6) by (simp add: u_def)
    qed
    ultimately show ?thesis using s'(1-4) law by (intro exI [of _ s']) (simp add: k)
  qed
qed simp

text \<open>
  C7: A write that finds room in a pipe and a later read transfer the bytes in order: the write
  returns its count and appends the bytes of the user's buffer to what the pipe holds; the read
  returns the smaller of its count and what is there, stores exactly those first bytes in the
  other buffer, changes no other byte of user memory, and leaves the rest in the pipe.
\<close>

theorem pipe_transfers:
  assumes "pipe_wf p s" "i_count (ino s p) = 2" "0 < e_fuel E" "0 < n"
    and "length (pipe_bytes p s) + n \<le> 4095" "k = min m (length (pipe_bytes p s) + n)"
  shows "\<exists>s1 s2. write_pipe E p src (int n) s = Inr (int n, s1) \<and>
    pipe_bytes p s1 = pipe_bytes p s @ text_at (umem s) src n \<and>
    read_pipe E p dst (int m) s1 = Inr (int k, s2) \<and>
    text_at (umem s2) dst k = take k (pipe_bytes p s1) \<and> pipe_bytes p s2 = drop k (pipe_bytes p s1) \<and>
    (\<forall>a. (\<forall>i < k. a \<noteq> dst + of_nat i) \<longrightarrow> umem s2 a = umem s a)"
proof -
  obtain f where f: "e_fuel E = Suc f" using assms(3) by (cases "e_fuel E") auto
  define u where "u = wake_up (ino_wait p) s"
  have u: "pipe_wf p u" "pipe_bytes p u = pipe_bytes p s" "i_count (ino u p) = 2" "umem u = umem s"
    using pipe_view_wake_up [OF assms(1)] assms(1,2) by (simp_all add: u_def pipe_view_def)
  obtain v where v: "pipe_put n E p src 0 u = Inr ((int n, True), v)"
      "pipe_view p v = (True, pipe_bytes p s @ text_at (umem s) src n, 2, umem s)"
    using pipe_put_all [OF u(1), of n E src 0] assms(3,5) u(2-4) by auto
  define s1 where "s1 = wake_up (ino_wait p) v"
  have "pipe_view p s1 = pipe_view p v" unfolding s1_def using v(2) by (intro pipe_view_wake_up) (simp add: pipe_view_def)
  then have s1: "pipe_wf p s1" "pipe_bytes p s1 = pipe_bytes p s @ text_at (umem s) src n" "umem s1 = umem s"
    using v(2) by (simp_all add: pipe_view_def)
  have w: "write_pipe E p src (int n) s = Inr (int n, s1)"
    using u(1,3) v(1) by (simp add: write_pipe_def with_ino_def u_def [symmetric] s1_def pipe_wf_def onlyif_def)
  obtain t where t: "pipe_get m p dst 0 s1 = Inr (k, t)" "pipe_wf p t"
      "pipe_bytes p t = drop k (pipe_bytes p s1)" "\<forall>i < k. umem t (dst + of_nat i) = pipe_bytes p s1 ! i"
      "\<forall>a. (\<forall>i < k. a \<noteq> dst + of_nat i) \<longrightarrow> umem t a = umem s1 a"
    using pipe_get_all [OF s1(1), of k m dst 0] assms(6) s1(2) by auto
  have ne: "\<not> PIPE_EMPTY (ino s1 p)" using pipeq.empty_iff [OF s1(1)] s1(2) assms(4) by (auto simp: text_at_def)
  define s2 where "s2 = wake_up (ino_wait p) t"
  have s2: "pipe_bytes p s2 = pipe_bytes p t" "umem s2 = umem t"
    using pipe_view_wake_up [OF t(2)] by (simp_all add: s2_def pipe_view_def)
  have "read_pipe E p dst (int m) s1 = Inr (int k, s2)"
    using ne s1(1) t(1) by (simp add: read_pipe_def f with_ino_def pipe_wf_def s2_def)
  moreover have len: "k \<le> length (pipe_bytes p s1)" using assms(6) s1(2) by simp
  have "text_at (umem s2) dst k = take k (pipe_bytes p s1)"
    using t(4) s2(2) len by (intro nth_equalityI) (auto simp: text_at_def)
  ultimately show ?thesis using w s1 s2 t(3,5) by auto
qed

definition pipe_example :: "fs" where
  "pipe_example = (start_fs (\<lambda>a. if a = 5 then 72 else 105))\<lparr>inode_table :=
     [zero_inode\<lparr>i_count := 2, i_size := 0x200000, i_zone := [4095, 0, 0, 0, 4095, 0, 0, 0, 0]\<rparr>]\<rparr>"

theorem pipe_transfers_witness:
  "\<exists>s1 s2. write_pipe (quiet_env 1) 1 5 2 pipe_example = Inr (2, s1) \<and> pipe_bytes 1 s1 = [72, 105] \<and>
     read_pipe (quiet_env 1) 1 100 9 s1 = Inr (2, s2) \<and> text_at (umem s2) 100 2 = [72, 105] \<and> pipe_bytes 1 s2 = []"
proof -
  have w: "pipe_wf 1 pipe_example" and b: "pipe_bytes 1 pipe_example = []"
    by (simp_all add: pipe_wf_def pipe_bytes_def ring_def pipe_example_def in_tab_def PIPE_HEAD_def PIPE_TAIL_def get_zones_def)
  have "i_count (ino pipe_example 1) = 2" by (simp add: pipe_example_def)
  from pipe_transfers [OF w this, of "quiet_env 1" 2 2 9 5 100] b
  show ?thesis by (auto simp: text_at_def upt_rec pipe_example_def)
qed

end
