(* ===== verification/Serial.thy ===== *)
theory Serial
  imports Fs_State
begin

text \<open>
  The interrupt handlers of the serial lines, \<open>src/kernel/rs_io.nasm\<close>. \<open>E\<close> says what reading and
  writing a port of the chip does. \<open>table_list\<close> of \<open>tty_io.c\<close> holds the read and the write queue of
  each terminal in turn, so the handlers get the line as an even index \<open>k\<close> into it.
\<close>

section \<open>Ports\<close>

definition in_port :: "'s dev_env \<Rightarrow> u16 \<Rightarrow> ('s, u8) act" where
  "in_port E port s = Inr (e_in E port s)"

definition out_port :: "'a sched_scheme dev_env \<Rightarrow> u8 \<Rightarrow> u16 \<Rightarrow> ('a sched_scheme, unit) act" where
  "out_port E v port = upd (\<lambda>s. e_out E v port (outb v port s))"

section \<open>The queues of a line\<close>

definition line_in :: "'a ttys_scheme \<Rightarrow> nat \<Rightarrow> tty_queue" where "line_in s k = tt_read_q (tty s (k div 2))"
definition line_out :: "'a ttys_scheme \<Rightarrow> nat \<Rightarrow> tty_queue" where "line_out s k = tt_write_q (tty s (k div 2))"

definition rs_port :: "'a ttys_scheme \<Rightarrow> nat \<Rightarrow> u16" where "rs_port s k = ucast (q_data (line_in s k))"

abbreviation RS_STARTUP :: int where "RS_STARTUP \<equiv> 256"

text \<open>\<open>mov qword [rbx], 0\<close> on a task that is not \<open>NULL\<close>: its state becomes running.\<close>

definition rs_wake :: "nat \<Rightarrow> ('a ttys_scheme, unit) act" where
  "rs_wake k = upd (\<lambda>s. wake_task (q_proc_list (line_out s k)) s)"

section \<open>The four causes\<close>

definition modem_status :: "'a ttys_scheme dev_env \<Rightarrow> nat \<Rightarrow> ('a ttys_scheme, unit) act" where
  "modem_status E k = bnd (rd (\<lambda>s. rs_port s k + 6)) (\<lambda>p. thn (in_port E p) (ret ()))"

definition line_status :: "'a ttys_scheme dev_env \<Rightarrow> nat \<Rightarrow> ('a ttys_scheme, unit) act" where
  "line_status E k = bnd (rd (\<lambda>s. rs_port s k + 5)) (\<lambda>p. thn (in_port E p) (ret ()))"

text \<open>
  The terminal number handed to \<open>do_tty_interrupt\<close> is the index into \<open>table_list\<close> itself, since the
  byte offset is divided by 8 and a terminal has two entries of 8 bytes. Beyond \<open>tty_table\<close> it faults.
\<close>

definition read_char :: "'a ttys_scheme dev_env \<Rightarrow> nat \<Rightarrow> ('a ttys_scheme, unit) act" where
  "read_char E k =
     bnd (rd (\<lambda>s. rs_port s k)) (\<lambda>p.
     bnd (in_port E p) (\<lambda>al.
     bnd (rd (\<lambda>s. line_in s k)) (\<lambda>q.
     thn (upd (upd_read_q (k div 2) (\<lambda>q. q\<lparr>q_buf := (q_buf q)[nat (q_head q) := al]\<rparr>)))
     (if INC (q_head q) = q_tail q then ret ()
      else thn (upd (upd_read_q (k div 2) (\<lambda>q. q\<lparr>q_head := INC (q_head q)\<rparr>)))
        (\<lambda>s. if k < length (tty_table s) then do_tty_interrupt E k s else Inl Fault)))))"

definition write_buffer_empty :: "'a ttys_scheme dev_env \<Rightarrow> nat \<Rightarrow> ('a ttys_scheme, unit) act" where
  "write_buffer_empty E k =
     thn (rs_wake k)
     (bnd (rd (\<lambda>s. rs_port s k + 1)) (\<lambda>p.
      bnd (in_port E p) (\<lambda>al. out_port E (al AND 0x0d) p)))"

definition write_char :: "'a ttys_scheme dev_env \<Rightarrow> nat \<Rightarrow> ('a ttys_scheme, unit) act" where
  "write_char E k =
     bnd (rd (\<lambda>s. CHARS (line_out s k))) (\<lambda>n.
     if n = 0 then write_buffer_empty E k
     else thn (onlyif (n \<le> RS_STARTUP) (rs_wake k))
       (bnd (rd (\<lambda>s. (rs_port s k, GETCH (line_out s k)))) (\<lambda>(p, c, q).
        thn (acts [out_port E c p, upd (upd_write_q (k div 2) (\<lambda>q. q\<lparr>q_tail := INC (q_tail q)\<rparr>))])
        (bnd (rd (\<lambda>s. EMPTY (line_out s k))) (\<lambda>e. if e then write_buffer_empty E k else ret ())))))"

section \<open>The handlers\<close>

text \<open>The identification register says what to do until its lowest bit is set; causes above 6 end the loop.\<close>

fun rep_int :: "nat \<Rightarrow> 'a ttys_scheme dev_env \<Rightarrow> u16 \<Rightarrow> nat \<Rightarrow> ('a ttys_scheme, unit) act" where
  "rep_int 0 E iir k = stop Diverge"
| "rep_int (Suc fuel) E iir k =
     bnd (in_port E iir) (\<lambda>al.
     if al AND 1 \<noteq> 0 \<or> al > 6 then ret ()
     else thn (if al = 0 then modem_status E k else if al = 2 then write_char E k
               else if al = 4 then read_char E k else line_status E k)
       (rep_int fuel E iir k))"

definition rs_int :: "'a ttys_scheme dev_env \<Rightarrow> nat \<Rightarrow> ('a ttys_scheme, unit) act" where
  "rs_int E k =
     bnd (rd (\<lambda>s. rs_port s k + 2)) (\<lambda>iir. thn (rep_int (e_fuel E) E iir k) (out_port E 0x20 0x20))"

definition rs1_interrupt :: "'a ttys_scheme dev_env \<Rightarrow> ('a ttys_scheme, unit) act" where
  "rs1_interrupt E = rs_int E 2"

definition rs2_interrupt :: "'a ttys_scheme dev_env \<Rightarrow> ('a ttys_scheme, unit) act" where
  "rs2_interrupt E = rs_int E 4"

end
