(* ===== verification/Serial_Correct.thy ===== *)
theory Serial_Correct
  imports Serial Start
begin

text \<open>What the serial handlers do with the queues: the output is sent in order, and where input goes.\<close>

text \<open>A chip whose registers are not part of the machine's memory.\<close>

definition outside :: "'s dev_env \<Rightarrow> bool" where
  "outside E \<longleftrightarrow> (\<forall>p v s. snd (e_in E p s) = s \<and> e_out E v p s = s)"

lemma outside_in: "outside E \<Longrightarrow> in_port E p s = Inr (fst (e_in E p s), s)"
  by (metis in_port_def outside_def prod.collapse)

lemma outside_out: "outside E \<Longrightarrow> out_port E v p s = Inr ((), outb v p s)"
  by (simp add: out_port_def outside_def)

lemma wake_fields [simp]:
  "tty_table (wake_task p s) = tty_table s" "outs (wake_task p s) = outs s"
  by (simp_all add: wake_task_def set_state_def upd_task_def)

section \<open>Output\<close>

lemma buffer_empty_outside:
  assumes "outside E"
  shows "\<exists>s' x. write_buffer_empty E k s = Inr ((), s') \<and> tty_table s' = tty_table s \<and>
    outs s' = (rs_port s k + 1, x AND 0x0d) # outs s"
  by (auto simp: write_buffer_empty_def rs_wake_def outside_in [OF assms] outside_out [OF assms] rs_port_def line_in_def outb_def)

lemma write_char_sends:
  assumes "outside E" "k div 2 < length (tty_table s)" "q_wf (line_out s k)" "q_chars (line_out s k) = c # cs"
  shows "\<exists>s' x. write_char E k s = Inr ((), s') \<and> length (tty_table s') = length (tty_table s) \<and>
    line_in s' k = line_in s k \<and> q_wf (line_out s' k) \<and> q_chars (line_out s' k) = cs \<and>
    outs s' = (if cs = [] then [(rs_port s k + 1, x AND 0x0d)] else []) @ (rs_port s k, c) # outs s"
proof -
  let ?q = "line_out s k"
  have ne: "\<not> EMPTY ?q" "CHARS ?q \<noteq> 0" using assms(3,4) ttyq.empty_iff q_chars_length [of ?q] by auto
  note g = ttyq.get_law [OF assms(3) ne(1)]
  have c: "fst (GETCH ?q) = c" "q_chars (snd (GETCH ?q)) = cs" "q_wf (snd (GETCH ?q))" using g assms(4) by auto
  define w where "w = (if CHARS ?q \<le> RS_STARTUP then wake_task (q_proc_list ?q) s else s)"
  define u where "u = upd_write_q (k div 2) (\<lambda>q. q\<lparr>q_tail := INC (q_tail q)\<rparr>) (outb c (rs_port s k) w)"
  have w: "tty_table w = tty_table s" "outs w = outs s" by (simp_all add: w_def)
  have u: "line_out u k = snd (GETCH ?q)" "line_in u k = line_in s k" "length (tty_table u) = length (tty_table s)"
      "outs u = (rs_port s k, c) # outs s" "rs_port u k = rs_port s k"
    using assms(2) w by (simp_all add: u_def line_out_def line_in_def upd_write_q_def upd_tty_def outb_def GETCH_def rs_port_def)
  have e: "EMPTY (line_out u k) \<longleftrightarrow> cs = []" using ttyq.empty_iff [OF c(3)] c(2) by (simp add: u(1))
  have wk: "onlyif (CHARS ?q \<le> RS_STARTUP) (rs_wake k) s = Inr ((), w)" by (simp add: w_def rs_wake_def onlyif_def)
  have wl: "rs_port w k = rs_port s k" "line_out w k = ?q" by (simp_all add: rs_port_def line_in_def line_out_def w)
  have gq: "GETCH ?q = (c, snd (GETCH ?q))" using c(1) by (metis prod.collapse)
  have "write_char E k s = (if cs = [] then write_buffer_empty E k u else Inr ((), u))"
    unfolding write_char_def using ne(2) wk e
    by (simp add: wl outside_out [OF assms(1)] u_def [symmetric] split_beta c(1))
  then show ?thesis using buffer_empty_outside [OF assms(1), of k u] u c by (cases "cs = []") (auto simp: line_in_def line_out_def)
qed

text \<open>The transmitter asks for characters \<open>n\<close> times.\<close>

fun transmit :: "'a ttys_scheme dev_env \<Rightarrow> nat \<Rightarrow> nat \<Rightarrow> ('a ttys_scheme, unit) act" where
  "transmit E k 0 = ret ()"
| "transmit E k (Suc n) = thn (write_char E k) (transmit E k n)"

text \<open>
  C15: a serial line sends what is in its write queue, in order and each character once: after as many
  transmitter interrupts as there are characters the queue is empty, the characters have gone to the
  data port, and with the last of them the transmitter interrupt has been switched off.
\<close>

theorem serial_transmits:
  assumes "outside E" "k div 2 < length (tty_table s)" "q_wf (line_out s k)" "q_chars (line_out s k) = cs" "cs \<noteq> []"
  shows "\<exists>s' x. transmit E k (length cs) s = Inr ((), s') \<and> EMPTY (line_out s' k) \<and>
    outs s' = (rs_port s k + 1, x AND 0x0d) # rev (map (Pair (rs_port s k)) cs) @ outs s"
  using assms(2-5)
proof (induction cs arbitrary: s)
  case (Cons c cs)
  obtain u x where u: "write_char E k s = Inr ((), u)" "length (tty_table u) = length (tty_table s)"
      "line_in u k = line_in s k" "q_wf (line_out u k)" "q_chars (line_out u k) = cs"
      "outs u = (if cs = [] then [(rs_port s k + 1, x AND 0x0d)] else []) @ (rs_port s k, c) # outs s"
    using write_char_sends [OF assms(1) Cons.prems(1-3)] by blast
  have port: "rs_port u k = rs_port s k" using u(3) by (simp add: rs_port_def)
  show ?case
  proof (cases "cs = []")
    case True
    then show ?thesis using u ttyq.empty_iff [OF u(4)] by auto
  next
    case False
    then show ?thesis using Cons.IH [of u] u Cons.prems(1) port by auto
  qed
qed simp

definition serial_output :: ttys where
  "serial_output = start_ttys (\<lambda>_. 0)
     (tty_table_init[1 := (tty_table_init ! 1)\<lparr>tt_write_q := fold PUTCH [72, 105] (empty_q 0x3f8)\<rparr>])"

theorem serial_transmits_witness:
  "\<exists>s' x. transmit (quiet_env 1) 2 2 serial_output = Inr ((), s') \<and> EMPTY (line_out s' 2) \<and>
     outs s' = [(0x3f9, x AND 0x0d), (0x3f8, 105), (0x3f8, 72)]"
proof -
  have q: "line_out serial_output 2 = fold PUTCH [72, 105] (empty_q 0x3f8)" "outs serial_output = []"
    "rs_port serial_output 2 = 0x3f8" "length (tty_table serial_output) = 3"
    by (simp_all add: serial_output_def start_ttys_def tty_table_init_def line_out_def line_in_def rs_port_def empty_q_def)
  have e: "q_wf (empty_q 0x3f8)" "q_chars (empty_q 0x3f8) = []" by (simp_all add: empty_q_def q_wf_def q_chars_def ring_def)
  have w: "q_wf (line_out serial_output 2)" "q_chars (line_out serial_output 2) = [72, 105]"
    using ttyq.put_all [OF e(1), of "[72, 105]"] e(2) by (simp_all add: q(1))
  have "outside (quiet_env 1 :: ttys dev_env)" by (simp add: outside_def quiet_env_def)
  from serial_transmits [OF this _ w] q(2-4) show ?thesis by (auto simp del: transmit.simps simp: numeral_2_eq_2)
qed

section \<open>Input\<close>

text \<open>
  C38: a character received on a serial line does not reach its own terminal. On the first line it is
  put into the read queue of terminal 1, but the line discipline is run for terminal 2; on the second
  line the handler leaves the table of terminals.
\<close>

theorem serial_input_misdirected:
  assumes "outside E" "length (tty_table s) = 3" "n \<in> {1, 2}" "q_wf (tt_read_q (tty s n))" "\<not> FULL (tt_read_q (tty s n))"
  shows "read_char E (2 * n) s =
    (if n = 1 then do_tty_interrupt E 2 (upd_read_q 1 (PUTCH (fst (e_in E (rs_port s 2) s))) s) else Inl Fault)"
proof -
  let ?q = "tt_read_q (tty s n)" and ?al = "fst (e_in E (rs_port s (2 * n)) s)"
  have "INC (q_head ?q) \<noteq> q_tail ?q" using INC_full [OF assms(4)] assms(5) by simp
  moreover have "upd_read_q n (\<lambda>q. q\<lparr>q_head := INC (q_head q)\<rparr>)
      (upd_read_q n (\<lambda>q. q\<lparr>q_buf := (q_buf q)[nat (q_head q) := ?al]\<rparr>) s) = upd_read_q n (PUTCH ?al) s"
    using assms(2,3) by (auto simp: upd_read_q_def upd_tty_def PUTCH_def)
  ultimately have "read_char E (2 * n) s = (if 2 * n < 3 then do_tty_interrupt E (2 * n) (upd_read_q n (PUTCH ?al) s) else Inl Fault)"
    using assms(2) by (simp add: read_char_def outside_in [OF assms(1)] line_in_def) (simp add: upd_read_q_def upd_tty_def)
  then show ?thesis using assms(3) by auto
qed

theorem serial_input_misdirected_witness:
  "read_char (quiet_env 1) 4 serial_output = Inl Fault \<and>
   read_char (quiet_env 1) 2 serial_output = do_tty_interrupt (quiet_env 1) 2 (upd_read_q 1 (PUTCH 0) serial_output)"
proof -
  have w: "q_wf (tt_read_q (tty serial_output n)) \<and> \<not> FULL (tt_read_q (tty serial_output n))" if "n \<in> {1, 2}" for n
    using that by (auto simp: serial_output_def start_ttys_def tty_table_init_def empty_q_def q_wf_def FULL_def QLEFT_def)
  have "outside (quiet_env 1 :: ttys dev_env)" "length (tty_table serial_output) = 3" "fst (e_in (quiet_env 1) p s) = 0" for p and s :: ttys
    by (simp_all add: outside_def quiet_env_def serial_output_def start_ttys_def tty_table_init_def)
  then show ?thesis
    using serial_input_misdirected [of "quiet_env 1" serial_output 1] serial_input_misdirected [of "quiet_env 1" serial_output 2] w
    by simp
qed

end
