(* ===== verification/Keyboard.thy ===== *)
theory Keyboard
  imports Serial
begin

text \<open>
  The keyboard interrupt, \<open>src/kernel/keyboard.nasm\<close>. The three bytes of its data section extend
  the state; \<open>rax\<close> holds the scan code when a handler starts, \<open>rcx\<close> is what the interrupted
  program had in that register.
\<close>

record keyboard = ttys +
  kb_mode :: u8 \<comment> \<open>shift 1 and 2, ctrl 4 and 8, alt 0x10 and 0x20, caps lock 0x40, caps held 0x80\<close>
  kb_leds :: u8
  kb_e0 :: u8

definition kb_start :: "ttys \<Rightarrow> keyboard" where
  "kb_start s = ttys.extend s (keyboard.fields 0 2 0)"

definition upd_mode :: "(u8 \<Rightarrow> u8) \<Rightarrow> ('a keyboard_scheme, unit) act" where
  "upd_mode f = upd (\<lambda>s. s\<lparr>kb_mode := f (kb_mode s)\<rparr>)"

definition kb_test :: "u8 \<Rightarrow> u8 \<Rightarrow> bool" where "kb_test b m \<longleftrightarrow> b AND m \<noteq> 0"

section \<open>The queue\<close>

text \<open>
  The bytes of \<open>rbx:rax\<close>, lowest first, from index \<open>h\<close> of the buffer on: the new head, unless the
  queue is full, and the buffer. The test for the end follows the shift.
\<close>

function put_loop :: "u64 \<Rightarrow> u64 \<Rightarrow> int \<Rightarrow> int \<Rightarrow> u8 list \<Rightarrow> int option \<times> u8 list" where
  "put_loop rax rbx h t b =
     (let b = b[nat h := ucast rax]; h = INC h; rax' = drop_bit 8 rax OR push_bit 56 rbx in
      if h = t then (None, b)
      else if rax' = 0 then (Some h, b)
      else put_loop rax' (drop_bit 8 rbx) h t b)"
  by pat_completeness auto
termination
proof (relation "measures [\<lambda>(rax, rbx, _). unat rbx, \<lambda>(rax, rbx, _). unat rax]", goal_cases)
  case (2 rax rbx h t b b' h' rax')
  have d: "unat (drop_bit 8 w) = unat w div 256" for w :: u64 by (simp add: drop_bit_eq_div unat_div)
  show ?case
  proof (cases "rbx = 0")
    case True
    then have "rax \<noteq> 0" using 2 by auto
    then have "unat rax \<noteq> 0" by (simp add: word_unat_eq_iff)
    then show ?thesis using True 2 by (simp add: d)
  next
    case False
    then have "unat rbx \<noteq> 0" by (simp add: word_unat_eq_iff)
    then show ?thesis by (simp add: d)
  qed
qed simp

declare put_loop.simps [simp del]

definition put_queue :: "u64 \<Rightarrow> u64 \<Rightarrow> ('a keyboard_scheme, unit) act" where
  "put_queue rax rbx =
     bnd (rd (\<lambda>s. tt_read_q (tty s 0))) (\<lambda>q.
     case put_loop rax rbx (q_head q) (q_tail q) (q_buf q) of
       (None, b) \<Rightarrow> upd (upd_read_q 0 (\<lambda>q. q\<lparr>q_buf := b\<rparr>))
     | (Some h, b) \<Rightarrow> thn (upd (upd_read_q 0 (\<lambda>q. q\<lparr>q_buf := b, q_head := h\<rparr>)))
         (upd (wake_task (q_proc_list q))))"

section \<open>Modifier keys\<close>

definition ctrl_alt_common :: "u8 \<Rightarrow> ('a keyboard_scheme, unit) act" where
  "ctrl_alt_common al = bnd (rd kb_e0) (\<lambda>e. upd_mode (\<lambda>m. m OR (if e = 0 then al else al + al)))"

definition unctrl_unalt_common :: "u8 \<Rightarrow> ('a keyboard_scheme, unit) act" where
  "unctrl_unalt_common al = bnd (rd kb_e0) (\<lambda>e. upd_mode (\<lambda>m. m AND NOT (if e = 0 then al else al + al)))"

fun kb_wait :: "nat \<Rightarrow> 's dev_env \<Rightarrow> ('s, unit) act" where
  "kb_wait 0 E = stop Diverge"
| "kb_wait (Suc n) E = bnd (in_port E 0x64) (\<lambda>al. if kb_test al 2 then kb_wait n E else ret ())"

definition set_leds :: "'a keyboard_scheme dev_env \<Rightarrow> ('a keyboard_scheme, unit) act" where
  "set_leds E =
     acts [kb_wait (e_fuel E) E, out_port E 0xed 0x60, kb_wait (e_fuel E) E,
           bnd (rd kb_leds) (\<lambda>l. out_port E l 0x60)]"

definition upd_leds :: "(u8 \<Rightarrow> u8) \<Rightarrow> ('a keyboard_scheme, unit) act" where
  "upd_leds f = upd (\<lambda>s. s\<lparr>kb_leds := f (kb_leds s)\<rparr>)"

definition caps :: "'a keyboard_scheme dev_env \<Rightarrow> ('a keyboard_scheme, unit) act" where
  "caps E =
     bnd (rd kb_mode) (\<lambda>m.
     if kb_test m 0x80 then ret ()
     else acts [upd_leds (\<lambda>l. l XOR 4), upd_mode (\<lambda>m. m XOR 0x40), upd_mode (\<lambda>m. m OR 0x80), set_leds E])"

definition scroll :: "'a keyboard_scheme dev_env \<Rightarrow> ('a keyboard_scheme, unit) act" where
  "scroll E = thn (upd_leds (\<lambda>l. l XOR 1)) (set_leds E)"

definition num_lock :: "'a keyboard_scheme dev_env \<Rightarrow> ('a keyboard_scheme, unit) act" where
  "num_lock E = thn (upd_leds (\<lambda>l. l XOR 2)) (set_leds E)"

section \<open>Cursor and function keys\<close>

definition chars :: "string \<Rightarrow> u8 list" where "chars = map (\<lambda>c. of_nat (of_char c))"

definition num_table :: "u8 list" where "num_table = chars ''789 456 1230,''"
definition cur_table :: "u8 list" where "cur_table = chars ''HA5 DGC YB623''"

text \<open>\<open>reboot\<close> resets the machine and then loops forever: it never comes back.\<close>

definition reboot :: "'a keyboard_scheme dev_env \<Rightarrow> ('a keyboard_scheme, unit) act" where
  "reboot E = thn (kb_wait (e_fuel E) E) (stop Diverge)"

text \<open>The escape sequence of a cursor key: \<open>ESC [\<close>, the letter or digit, and a tilde after a digit.\<close>

definition cur_key :: "nat \<Rightarrow> ('a keyboard_scheme, unit) act" where
  "cur_key i =
     (let al = cur_table ! i; ax = (if al > 0x39 then ucast al else ucast al OR 0x7E00) in
      put_queue (push_bit 16 ax OR 0x5B1B) 0)"

definition cursor :: "'a keyboard_scheme dev_env \<Rightarrow> u8 \<Rightarrow> ('a keyboard_scheme, unit) act" where
  "cursor E al =
     (if al < 0x47 \<or> al - 0x47 > 12 then ret ()
      else let i = al - 0x47 in
        bnd (rd (\<lambda>s. (kb_mode s, kb_leds s, kb_e0 s))) (\<lambda>(m, l, e).
        if i = 12 \<and> kb_test m 0x0c \<and> kb_test m 0x30 then reboot E
        else if e = 1 \<or> \<not> kb_test l 2 \<or> kb_test m 3 then cur_key (unat i)
        else put_queue (ucast (num_table ! unat i)) 0))"

definition func_table :: "u64 list" where
  "func_table = [0x415b5b1b, 0x425b5b1b, 0x435b5b1b, 0x445b5b1b, 0x455b5b1b, 0x465b5b1b,
     0x475b5b1b, 0x485b5b1b, 0x495b5b1b, 0x4a5b5b1b, 0x4b5b5b1b, 0x4c5b5b1b]"

definition func :: "u64 \<Rightarrow> u8 \<Rightarrow> ('a keyboard_scheme, unit) act" where
  "func rcx al =
     (if al < 0x3B then ret ()
      else let i = al - 0x3B; j = (if i \<le> 9 then i else i - 18) in
        if i > 9 \<and> (j < 10 \<or> j > 11) then ret ()
        else if sint rcx < 4 then ret ()
        else put_queue (func_table ! unat j) 0)"

section \<open>Characters\<close>

definition key_map :: "u8 list" where
  "key_map = [0, 27] @ chars ''1234567890+'' @ [39, 127, 9] @ chars ''qwertyuiop}'' @ [0, 10, 0] @ chars ''asdfghjkl|{'' @
     [0, 0, 39] @ chars ''zxcvbnm,.-'' @ [0] @ chars ''*'' @ [0, 32] @ replicate 16 0 @ chars ''-'' @ [0, 0, 0] @ chars ''+'' @
     replicate 7 0 @ chars ''<'' @ replicate 10 0"

definition shift_map :: "u8 list" where
  "shift_map = [0, 27] @ chars ''!'' @ [34] @ chars ''#$%&/()=?'' @ [96, 127, 9] @ chars ''QWERTYUIOP]^'' @ [10, 0] @
     chars ''ASDFGHJKL'' @ [92, 91] @ [0, 0] @ chars ''*ZXCVBNM;:_'' @ [0] @ chars ''*'' @ [0, 32] @ replicate 16 0 @
     chars ''-'' @ [0, 0, 0] @ chars ''+'' @ replicate 7 0 @ chars ''>'' @ replicate 10 0"

definition alt_map :: "u8 list" where
  "alt_map = [0, 0, 0] @ chars ''@'' @ [0] @ chars ''$'' @ [0, 0] @ chars ''{[]}'' @ [92, 0] @ [0, 0] @ replicate 11 0 @
     chars ''~'' @ [10, 0] @ replicate 11 0 @ [0, 0] @ replicate 11 0 @ [0, 0, 0, 0] @ replicate 16 0 @ replicate 5 0 @
     replicate 7 0 @ chars ''|'' @ replicate 10 0"

text \<open>The character of a key: the map the modifiers choose, then caps lock, control and alt.\<close>

definition self_map :: "u8 \<Rightarrow> u8 list" where
  "self_map m = (if kb_test m 0x20 then alt_map else if kb_test m 3 then shift_map else key_map)"

definition self_char :: "u8 \<Rightarrow> u8 \<Rightarrow> u8" where
  "self_char m c =
     (let c = (if kb_test m 0x4c \<and> 0x61 \<le> c \<and> c \<le> 0x7A then c - 32 else c);
          c = (if kb_test m 0x0c \<and> 64 \<le> c \<and> c < 96 then c - 64 else c)
      in if kb_test m 0x10 then c OR 0x80 else c)"

definition do_self :: "u8 \<Rightarrow> ('a keyboard_scheme, unit) act" where
  "do_self al =
     bnd (rd kb_mode) (\<lambda>m.
     let c = self_map m ! unat al in
     if c = 0 then ret () else put_queue (ucast (self_char m c)) 0)"

definition minus :: "u8 \<Rightarrow> ('a keyboard_scheme, unit) act" where
  "minus al = bnd (rd kb_e0) (\<lambda>e. if e \<noteq> 1 then do_self al else put_queue 0x2F 0)"

section \<open>The interrupt\<close>

datatype key_handler = Key_none | Key_self | Key_ctrl | Key_lshift | Key_minus | Key_rshift | Key_alt | Key_caps
  | Key_func | Key_num | Key_scroll | Key_cursor

text \<open>
  The table has an entry for every scan code. The handlers for released keys (\<open>unctrl\<close>, \<open>unalt\<close>,
  \<open>unlshift\<close>, \<open>unrshift\<close>, \<open>uncaps\<close>) are not in it: all codes from 92 on are \<open>none\<close>.
\<close>

definition key_table :: "key_handler list" where
  "key_table =
     [Key_none] @ replicate 28 Key_self @ [Key_ctrl] @ replicate 12 Key_self @ [Key_lshift] @ replicate 10 Key_self @
     [Key_minus, Key_rshift, Key_self, Key_alt, Key_self, Key_caps] @ replicate 10 Key_func @ [Key_num, Key_scroll] @
     replicate 3 Key_cursor @ [Key_self] @ replicate 3 Key_cursor @ [Key_self] @ replicate 5 Key_cursor @
     [Key_none, Key_none, Key_self, Key_func, Key_func, Key_none, Key_none, Key_none] @ replicate 168 Key_none"

definition run_key :: "'a keyboard_scheme dev_env \<Rightarrow> u64 \<Rightarrow> u8 \<Rightarrow> ('a keyboard_scheme, unit) act" where
  "run_key E rcx al =
     (case key_table ! unat al of
        Key_none \<Rightarrow> ret ()
      | Key_self \<Rightarrow> do_self al
      | Key_ctrl \<Rightarrow> ctrl_alt_common 0x04
      | Key_alt \<Rightarrow> ctrl_alt_common 0x10
      | Key_lshift \<Rightarrow> upd_mode (\<lambda>m. m OR 1)
      | Key_rshift \<Rightarrow> upd_mode (\<lambda>m. m OR 2)
      | Key_minus \<Rightarrow> minus al
      | Key_caps \<Rightarrow> caps E
      | Key_func \<Rightarrow> func rcx al
      | Key_num \<Rightarrow> num_lock E
      | Key_scroll \<Rightarrow> scroll E
      | Key_cursor \<Rightarrow> cursor E al)"

definition set_e0 :: "u8 \<Rightarrow> ('a keyboard_scheme, unit) act" where
  "set_e0 v = upd (\<lambda>s. s\<lparr>kb_e0 := v\<rparr>)"

definition keyboard_interrupt :: "'a keyboard_scheme dev_env \<Rightarrow> u64 \<Rightarrow> ('a keyboard_scheme, unit) act" where
  "keyboard_interrupt E rcx =
     bnd (in_port E 0x60) (\<lambda>al.
     thn (if al = 0xe0 then set_e0 1 else if al = 0xe1 then set_e0 2 else thn (run_key E rcx al) (set_e0 0))
     (bnd (in_port E 0x61) (\<lambda>a.
      acts [out_port E (a OR 0x80) 0x61, out_port E ((a OR 0x80) AND 0x7F) 0x61, out_port E 0x20 0x20,
            do_tty_interrupt E 0])))"

lemma table_lengths: "length key_map = 97" "length shift_map = 97" "length alt_map = 97" "length key_table = 260"
  by (simp_all add: key_map_def shift_map_def alt_map_def key_table_def chars_def)

end
