(* ===== verification/Keyboard_Correct.thy ===== *)
theory Keyboard_Correct
  imports Keyboard Start
begin

text \<open>
  What a key press does: the character reaches the line discipline of the console, and modifier
  keys are never released.
\<close>

section \<open>The line discipline leaves the keyboard alone\<close>

definition keeps_more :: "('a ttys_scheme \<Rightarrow> ('a ttys_scheme, 'b) res) \<Rightarrow> bool" where
  "keeps_more f \<longleftrightarrow> (\<forall>s x s'. f s = Inr (x, s') \<longrightarrow> ttys.more s' = ttys.more s)"

lemma keeps_bind:
  assumes "keeps_more f" "\<And>x. keeps_more (g x)"
  shows "keeps_more (\<lambda>s. bindE (f s) (\<lambda>(x, s). g x s))"
  using assms unfolding keeps_more_def by (auto simp: bindE_eq_Inr)

lemma keeps_upd: "(\<And>s. ttys.more (h s) = ttys.more s) \<Longrightarrow> keeps_more (\<lambda>s. Inr (x, h s))"
  by (auto simp: keeps_more_def)

lemma more_upd [simp]:
  "ttys.more (upd_tty n f s) = ttys.more s" "ttys.more (upd_read_q n g s) = ttys.more s"
  "ttys.more (upd_write_q n g s) = ttys.more s" "ttys.more (upd_secondary n g s) = ttys.more s"
  "ttys.more (upd_task p h s) = ttys.more s" "ttys.more (outb v port s) = ttys.more s"
  by (simp_all add: upd_tty_def upd_read_q_def upd_write_q_def upd_secondary_def upd_task_def outb_def)

lemma more_wake [simp]: "ttys.more (wake_up (sec_wait n) s) = ttys.more s"
  by (simp add: wake_up_def sec_wait_def set_state_def)

lemma more_rs_write [simp]: "ttys.more (rs_write inb n s) = ttys.more s"
  by (simp add: rs_write_def Let_def)

lemma more_fold_upd_task:
  "ttys.more (fold (\<lambda>i s. if P i s then upd_task (task s ! i) f s else s) is s) = ttys.more s"
  by (induction "is" arbitrary: s) simp_all

lemma more_tty_intr [simp]: "ttys.more (tty_intr n sig s) = ttys.more s"
  by (simp add: tty_intr_def more_fold_upd_task)

lemma more_cook_echo [simp]: "ttys.more (cook_echo n c s) = ttys.more s"
  by (simp add: cook_echo_def)

lemma keeps_cook_erase: "keeps_more wr \<Longrightarrow> keeps_more (cook_erase wr n)"
  unfolding keeps_more_def cook_erase_def Let_def
  by (fastforce simp: bindE_eq_Inr split: if_splits)

lemma keeps_cook_char: "keeps_more wr \<Longrightarrow> keeps_more (cook_char wr n c)"
  using keeps_cook_erase [of wr n] unfolding keeps_more_def cook_char_def Let_def
  by (fastforce simp: bindE_eq_Inr split: if_splits)

lemma keeps_cook_one: "keeps_more wr \<Longrightarrow> keeps_more (cook_one wr n)"
  unfolding keeps_more_def
proof (intro allI impI)
  fix s x s'
  assume wr: "\<forall>s x s'. wr s = Inr (x, s') \<longrightarrow> ttys.more s' = ttys.more s" and one: "cook_one wr n s = Inr (x, s')"
  obtain c q where g: "GETCH (tt_read_q (tty s n)) = (c, q)" by fastforce
  define s1 where "s1 = upd_read_q n (\<lambda>_. q) s"
  show "ttys.more s' = ttys.more s"
  proof (cases "map_input (tty s1 n) c")
    case None
    then have "s' = upd_read_q n (\<lambda>_. q) s" using one by (simp add: cook_one_def g s1_def Let_def)
    then show ?thesis by simp
  next
    case (Some d)
    then obtain e where "cook_char wr n e s1 = Inr (x, s')"
      using one by (auto simp: cook_one_def g s1_def [symmetric] Let_def bindE_eq_Inr split: if_splits)
    then show ?thesis using keeps_cook_char [of wr n e] wr by (simp add: keeps_more_def s1_def)
  qed
qed

lemma keeps_cook_loop: "keeps_more wr \<Longrightarrow> keeps_more (cook_loop fuel wr n)"
proof (induction fuel)
  case (Suc fuel)
  then show ?case using keeps_cook_one [of wr n] unfolding keeps_more_def
    by (fastforce simp: bindE_eq_Inr split: if_splits)
qed (simp add: keeps_more_def)

lemma keeps_cook:
  assumes "keeps_more wr"
  shows "keeps_more (copy_to_cooked_with wr E n)"
  unfolding copy_to_cooked_with_def [abs_def]
  by (intro keeps_bind keeps_cook_loop keeps_upd assms) simp

lemma keeps_con_loop: "keeps_more cook \<Longrightarrow> keeps_more (con_loop nr cook n)"
proof (induction nr)
  case (Suc nr)
  show ?case unfolding keeps_more_def
  proof (intro allI impI)
    fix s x s'
    assume loop: "con_loop (Suc nr) cook n s = Inr (x, s')"
    obtain c q where g: "GETCH (tt_write_q (tty s n)) = (c, q)" by fastforce
    define s1 where "s1 = upd_write_q n (\<lambda>_. q) s"
    obtain con r where p: "con_putc (tty_cc (tty s1 n) VERASE) c (console s1) = (con, r)" by fastforce
    have "keeps_more (\<lambda>s. if r then respond cook n s else Inr ((), s))"
      using Suc.prems by (auto simp: keeps_more_def respond_def)
    from keeps_bind [OF this, of "\<lambda>_. con_loop nr cook n"] Suc
    have k: "keeps_more (\<lambda>s. bindE (if r then respond cook n s else Inr ((), s)) (\<lambda>(_, s). con_loop nr cook n s))" by simp
    have "bindE (if r then respond cook n (s1\<lparr>console := con\<rparr>) else Inr ((), s1\<lparr>console := con\<rparr>))
        (\<lambda>(_, s). con_loop nr cook n s) = Inr (x, s')"
      using loop p by (cases r) (simp_all add: g s1_def Let_def)
    then have "ttys.more s' = ttys.more (s1\<lparr>console := con\<rparr>)" using k unfolding keeps_more_def by blast
    then show "ttys.more s' = ttys.more s" by (simp add: s1_def)
  qed
qed (simp add: keeps_more_def)

lemma keeps_con_write:
  assumes "keeps_more cook"
  shows "keeps_more (con_write cook n)"
proof -
  have "keeps_more (\<lambda>s. bindE (con_loop k cook n s) (\<lambda>(_, s). Inr ((), s\<lparr>console := set_cursor (console s)\<rparr>)))" for k
    by (intro keeps_bind keeps_con_loop keeps_upd assms) simp
  then show ?thesis unfolding keeps_more_def con_write_def by blast
qed

lemma keeps_driver: "keeps_more (tty_driver_write fuel E n)"
proof (induction fuel)
  case (Suc fuel)
  have "keeps_more (con_write (copy_to_cooked_with (tty_driver_write fuel E n) E n) n)"
    by (intro keeps_con_write keeps_cook Suc)
  then show ?case unfolding keeps_more_def by (auto simp: tty_driver_write.simps split: tty_driver.splits)
qed (simp add: keeps_more_def tty_driver_write.simps)

lemma keeps_do_tty_interrupt: "keeps_more (do_tty_interrupt E n)"
  unfolding do_tty_interrupt_def copy_to_cooked_def by (intro keeps_cook keeps_driver)

section \<open>Modifier keys\<close>

text \<open>Operations after which every modifier bit that was set still is.\<close>

definition sticky :: "('a keyboard_scheme, 'b) act \<Rightarrow> bool" where
  "sticky f \<longleftrightarrow> (\<forall>s x s' b. f s = Inr (x, s') \<and> b < 6 \<and> bit (kb_mode s) b \<longrightarrow> bit (kb_mode s') b)"

text \<open>A device that does not reach into the data of the driver.\<close>

definition inert :: "'a keyboard_scheme dev_env \<Rightarrow> bool" where
  "inert E \<longleftrightarrow> (\<forall>p v s. kb_mode (snd (e_in E p s)) = kb_mode s \<and> kb_mode (e_out E v p s) = kb_mode s)"

lemma sticky_bnd:
  assumes "sticky f" "\<And>x. sticky (g x)"
  shows "sticky (bnd f g)"
  unfolding sticky_def
proof (intro allI impI, elim conjE)
  fix s x s' b
  assume "bnd f g s = Inr (x, s')" "b < 6" "bit (kb_mode s) b"
  then obtain y u where "f s = Inr (y, u)" "g y u = Inr (x, s')" unfolding bnd_eq_Inr by blast
  then show "bit (kb_mode s') b" using assms(1) assms(2) [of y] \<open>b < 6\<close> \<open>bit (kb_mode s) b\<close> unfolding sticky_def by blast
qed

lemma sticky_thn: "sticky f \<Longrightarrow> sticky g \<Longrightarrow> sticky (thn f g)"
  unfolding thn_def by (rule sticky_bnd)

lemma sticky_acts: "(\<And>f. f \<in> set fs \<Longrightarrow> sticky f) \<Longrightarrow> sticky (acts fs)"
  by (induction fs) (auto intro: sticky_thn simp: sticky_def [of "ret ()"])

lemma sticky_basic:
  "sticky (ret x)" "sticky (rd f)" "sticky (stop e)" "(\<And>s. kb_mode (h s) = kb_mode s) \<Longrightarrow> sticky (upd h)"
  "(\<And>m b. b < 6 \<Longrightarrow> bit m b \<Longrightarrow> bit (k m) b) \<Longrightarrow> sticky (upd_mode k)"
  by (auto simp: sticky_def upd_mode_def)

lemma kb_mode_frame [simp]:
  "kb_mode (upd_read_q n f s) = kb_mode s" "kb_mode (wake_task p s) = kb_mode s" "kb_mode (outb v port s) = kb_mode s"
  by (simp_all add: upd_read_q_def upd_tty_def wake_task_def set_state_def upd_task_def outb_def)

lemma sticky_ports: "inert E \<Longrightarrow> sticky (in_port E p)" "inert E \<Longrightarrow> sticky (out_port E v p)"
  by (auto simp: inert_def sticky_def in_port_def out_port_def) (metis snd_conv)

lemmas sticky_intros = sticky_bnd sticky_thn sticky_acts sticky_basic sticky_ports

lemma sticky_put_queue: "sticky (put_queue rax rbx)"
  unfolding put_queue_def
  by (intro sticky_bnd sticky_basic) (auto split: prod.splits option.splits intro!: sticky_thn sticky_basic)

lemma sticky_kb_wait: "inert E \<Longrightarrow> sticky (kb_wait n E)"
  by (induction n) (auto intro!: sticky_intros)

lemma sticky_leds: "inert E \<Longrightarrow> sticky (set_leds E)" "sticky (upd_leds f)"
  by (auto simp: set_leds_def upd_leds_def intro!: sticky_intros sticky_kb_wait)

lemma bit_caps: "b < 6 \<Longrightarrow> bit (m XOR 0x40 :: u8) b = bit m b"
proof -
  assume "b < 6"
  then have "\<not> bit (0x40 :: u8) b" using bit_exp_iff [of 6 b, where 'a = u8] by simp
  then show ?thesis by (simp add: bit_xor_iff)
qed

lemma sticky_run_key: "inert E \<Longrightarrow> sticky (run_key E rcx al)"
  unfolding run_key_def ctrl_alt_common_def caps_def scroll_def num_lock_def minus_def do_self_def func_def cursor_def
    cur_key_def reboot_def Let_def
  by (auto split: key_handler.split
      intro!: sticky_intros sticky_put_queue sticky_leds sticky_kb_wait simp: bit_or_iff bit_caps)

lemma sticky_do_tty_interrupt: "sticky (do_tty_interrupt E n)"
proof -
  have "kb_mode s' = kb_mode s" if "ttys.more s' = ttys.more s" for s s' :: "'a keyboard_scheme"
    using that by (cases s; cases s') simp
  then show ?thesis using keeps_do_tty_interrupt [of E n] unfolding sticky_def keeps_more_def by metis
qed

lemma sticky_keyboard_interrupt: "inert E \<Longrightarrow> sticky (keyboard_interrupt E rcx)"
  unfolding keyboard_interrupt_def set_e0_def
  by (auto intro!: sticky_intros sticky_run_key sticky_do_tty_interrupt)

text \<open>A sequence of interrupts, each with the devices and the register \<open>rcx\<close> it finds.\<close>

fun interrupts :: "('a keyboard_scheme dev_env \<times> u64) list \<Rightarrow> ('a keyboard_scheme, unit) act" where
  "interrupts [] = ret ()"
| "interrupts ((E, rcx) # xs) = thn (keyboard_interrupt E rcx) (interrupts xs)"

lemma sticky_interrupts: "\<forall>x \<in> set xs. inert (fst x) \<Longrightarrow> sticky (interrupts xs)"
  by (induction xs rule: interrupts.induct) (auto intro!: sticky_intros sticky_keyboard_interrupt)

text \<open>
  C37: a modifier key is never released. Once the bit of a shift, control or alt key is set in the
  mode byte, it is still set after any sequence of further keyboard interrupts, whatever scan codes
  they deliver: the break codes have no handler in the table.
\<close>

theorem modifiers_stick:
  assumes "interrupts xs s = Inr ((), s')" "\<forall>x \<in> set xs. inert (fst x)"
    and "b < 6" "bit (kb_mode s) b"
  shows "bit (kb_mode s') b"
  using sticky_interrupts [OF assms(2)] assms(1,3,4) unfolding sticky_def by blast

section \<open>Typing\<close>

text \<open>Devices that deliver the scan code \<open>al\<close> and otherwise leave the machine alone.\<close>

definition delivers :: "'s dev_env \<Rightarrow> u8 \<Rightarrow> bool" where
  "delivers E al \<longleftrightarrow> (\<forall>p v s. snd (e_in E p s) = s \<and> e_out E v p s = s \<and> fst (e_in E 0x60 s) = al)"

lemma delivers_in: "delivers E al \<Longrightarrow> in_port E p s = Inr (fst (e_in E p s), s)"
  by (metis in_port_def delivers_def prod.collapse)

lemma delivers_out: "delivers E al \<Longrightarrow> out_port E v p s = Inr ((), outb v p s)"
  by (simp add: out_port_def delivers_def)

text \<open>The interrupt is the handler of the key, the acknowledgement, and the line discipline.\<close>

lemma keyboard_interrupt_delivers:
  assumes "delivers E al" "al \<noteq> 0xe0" "al \<noteq> 0xe1" "run_key E rcx al s = Inr ((), u)"
  shows "\<exists>v. keyboard_interrupt E rcx s = do_tty_interrupt E 0 v \<and> tty_table v = tty_table u \<and> kb_mode v = kb_mode u"
proof -
  let ?a = "fst (e_in E 0x61 (u\<lparr>kb_e0 := 0\<rparr>))"
  let ?v = "outb 0x20 0x20 (outb ((?a OR 0x80) AND 0x7F) 0x61 (outb (?a OR 0x80) 0x61 (u\<lparr>kb_e0 := 0\<rparr>)))"
  have al: "in_port E 0x60 s = Inr (al, s)" using delivers_in [OF assms(1)] assms(1) by (simp add: delivers_def)
  have ret: "thn f (ret ()) w = f w" for f :: "('a keyboard_scheme, unit) act" and w
    by (cases "f w") (auto simp: thn_def bnd_def bindE_def)
  have "keyboard_interrupt E rcx s = do_tty_interrupt E 0 ?v"
    using assms(2-4) al
    by (simp add: keyboard_interrupt_def set_e0_def delivers_in [OF assms(1)] delivers_out [OF assms(1)] ret)
  moreover have "tty_table ?v = tty_table u" "kb_mode ?v = kb_mode u" by (simp_all add: outb_def)
  ultimately show ?thesis by blast
qed

lemma put_queue_char:
  assumes "q_wf (tt_read_q (tty s 0))" "\<not> FULL (tt_read_q (tty s 0))"
  shows "\<exists>p. put_queue (ucast (c :: u8)) 0 s = Inr ((), wake_task p (upd_read_q 0 (PUTCH c) s))"
proof -
  have z: "drop_bit 8 (ucast c :: u64) = 0" by (rule bit_word_eqI) (auto simp: bit_simps dest: bit_imp_le_length)
  have c: "ucast (ucast c :: u64) = c" by (rule bit_word_eqI) (simp add: bit_simps)
  have "put_loop (ucast c) 0 (q_head q) (q_tail q) (q_buf q) = (Some (INC (q_head q)), (q_buf q)[nat (q_head q) := c])"
    if "q_wf q" "\<not> FULL q" for q
    using that INC_full by (subst put_loop.simps) (simp add: Let_def z c)
  then show ?thesis using assms
    by (auto simp: put_queue_def upd_read_q_def upd_tty_def PUTCH_def)
qed


text \<open>A console in canonical mode without echo; the left shift key is down.\<close>

definition scan_env :: "u8 \<Rightarrow> 's dev_env" where
  "scan_env al = (quiet_env 2)\<lparr>e_in := \<lambda>p s. (if p = 0x60 then al else 0, s)\<rparr>"

definition silent_console :: keyboard where
  "silent_console = (kb_start (start_ttys (\<lambda>_. 0)
     [(tty_table_init ! 0)\<lparr>tt_termios := (tt_termios (tty_table_init ! 0))\<lparr>c_lflag := ICANON\<rparr>\<rparr>]))\<lparr>kb_mode := 1\<rparr>"

lemma scan_env_delivers: "delivers (scan_env al) al" by (simp add: delivers_def scan_env_def quiet_env_def)

lemma silent_console_ok:
  "tty_ok 0 silent_console" "quiet (tty silent_console 0)" "\<not> I_FLAG (tty silent_console 0) IUCLC"
  "q_chars (tt_read_q (tty silent_console 0)) = []" "q_chars (tt_secondary (tty silent_console 0)) = []"
  "kb_mode silent_console = 1" "edit (tty silent_console 0) 65 [] = [65]"
  by (simp_all add: silent_console_def kb_start_def ttys.defs keyboard.defs start_ttys_def tty_table_init_def Let_def
      tty_ok_def quiet_def L_FLAG_def I_FLAG_def q_wf_def q_chars_def ring_def empty_q_def
      edit_def map_input_def ceq_def tty_cc_def INIT_C_CC_def)


text \<open>The release of the shift key, scan code 0xAA.\<close>

theorem modifiers_stick_witness:
  "\<exists>s'. interrupts [(scan_env 0xAA, 0)] silent_console = Inr ((), s') \<and> bit (kb_mode s') 0"
proof -
  have i: "inert (scan_env al :: 'a keyboard_scheme dev_env)" for al by (simp add: inert_def scan_env_def quiet_env_def)
  have k: "key_table ! 170 = Key_none" by code_simp
  obtain v where v: "keyboard_interrupt (scan_env 0xAA) 0 silent_console = do_tty_interrupt (scan_env 0xAA) 0 v"
      "tty_table v = tty_table silent_console"
    using keyboard_interrupt_delivers [OF scan_env_delivers [of "0xAA"], of 0 silent_console silent_console] k
    by (auto simp: run_key_def)
  have "tty_ok 0 v" "quiet (tty v 0)" "\<not> I_FLAG (tty v 0) IUCLC" "q_chars (tt_read_q (tty v 0)) = []"
      "q_chars (tt_secondary (tty v 0)) = []"
    using silent_console_ok(1-5) v(2) by (simp_all add: tty_ok_def)
  from copy_to_cooked_line [OF this(1-3), of "scan_env 0xAA"] this(4,5)
  obtain s' where s': "copy_to_cooked (scan_env 0xAA) 0 v = Inr ((), s')" by (auto simp: scan_env_def)
  then have run: "interrupts [(scan_env 0xAA, 0)] silent_console = Inr ((), s')"
    using v(1) by (simp add: do_tty_interrupt_def)
  have "bit (kb_mode s') 0" by (rule modifiers_stick [OF run]) (use i silent_console_ok(6) in simp_all)
  then show ?thesis using run by blast
qed

end
