(* ===== verification/Call_Correct.thy ===== *)
theory Call_Correct
  imports System_Call Start
begin

text \<open>
  The way of a system call from the wrapper in the user library to its handler and back, and what
  the first call of every kernel, \<open>setup\<close>, comes to.
\<close>

section \<open>Dispatch\<close>

lemma table_names: "map fst (sys_call_table E fr) = map fst NR_numbers"
  by (simp add: sys_call_table_def NR_numbers_def Let_def)

lemma NR_numbers_upt: "map snd NR_numbers = [0..<nr_system_calls]" "distinct (map fst NR_numbers)"
  by code_simp+

lemma table_entry:
  assumes "map_of (sys_call_table E fr) c = Some h"
  shows "sys_call_table E fr ! NR c = (c, h) \<and> NR c < nr_system_calls"
proof -
  let ?t = "sys_call_table E fr"
  have len: "length ?t = nr_system_calls" "length NR_numbers = nr_system_calls"
    using arg_cong [OF table_names, of length, of E fr] arg_cong [OF NR_numbers_upt(1), of length] by simp_all
  have "(c, h) \<in> set ?t" using assms by (rule map_of_SomeD)
  then obtain n where n: "n < length ?t" "?t ! n = (c, h)" by (auto simp: in_set_conv_nth)
  have "fst (NR_numbers ! n) = c" using arg_cong [OF table_names, of "\<lambda>l. l ! n", of E fr] n len by simp
  moreover have "snd (NR_numbers ! n) = n" using arg_cong [OF NR_numbers_upt(1), of "\<lambda>l. l ! n"] n len by simp
  ultimately have "(c, n) \<in> set NR_numbers" using n(1) len nth_mem by (metis prod.collapse)
  then have "map_of NR_numbers c = Some n" using NR_numbers_upt(2) by (simp add: map_of_is_SomeI)
  then show ?thesis using n len by (simp add: NR_def)
qed

lemma bit_small: "- (2 ^ 31) \<le> r \<Longrightarrow> r < 2 ^ 31 \<Longrightarrow> 32 \<le> n \<Longrightarrow> bit (r :: int) n \<longleftrightarrow> r < 0"
proof -
  assume r: "- (2 ^ 31) \<le> r" "r < 2 ^ 31" and n: "32 \<le> n"
  have s: "signed_take_bit 31 r = r" using r by (simp add: signed_take_bit_int_eq_self_iff)
  have "bit r n = bit (signed_take_bit 31 r) n" by (simp only: s)
  also have "\<dots> = bit r 31" using n by (simp add: bit_signed_take_bit_iff min_def)
  also have "\<dots> = (r < 0)" using signed_take_bit_negative_iff [of 31 r] s by simp
  finally show ?thesis .
qed

lemma rax_of_signed:
  assumes "- (2 ^ 31) \<le> r" "r < 2 ^ 31" "r < 0" "e_upper E r = -1"
  shows "sint (rax_of E r) = r"
proof -
  have "rax_of E r = of_int r"
    unfolding rax_of_def assms(4)
    by (rule bit_word_eqI) (auto simp: bit_word_cat_iff bit_simps bit_small [OF assms(1,2)] assms(3))
  moreover have "sint (of_int r :: u64) = r"
    using assms(1,2) by (simp add: signed_of_int signed_take_bit_int_eq_self_iff)
  ultimately show ?thesis by simp
qed

lemma rax_of_unsigned:
  assumes "e_upper E r = 0"
  shows "sint (rax_of E r) = r mod 2 ^ 32"
proof -
  have "rax_of E r = of_int (take_bit 32 r)"
    unfolding rax_of_def assms by (rule bit_word_eqI) (auto simp: bit_word_cat_iff bit_simps)
  moreover have "signed_take_bit 63 (take_bit 32 r) = take_bit 32 r"
    using take_bit_int_less_exp [of 32 r] take_bit_nonnegative [of 32 r] by (simp add: signed_take_bit_int_eq_self_iff del: take_bit_nonnegative)
  ultimately show ?thesis by (simp add: signed_of_int take_bit_eq_mod)
qed

lemma call_result:
  assumes "- (2 ^ 31) < r" "r < 2 ^ 31" "e_upper E r = 0 \<or> r < 0 \<and> e_upper E r = -1"
  shows "syscall_result (rax_of E r) errno = (if e_upper E r = 0 then (r, errno) else (-1, - r))"
proof (cases "e_upper E r = 0")
  case True
  have "int32 (r mod 2 ^ 32) = int32 r"
    using signed_take_bit_take_bit [of 31 32 r] by (simp add: int32_def take_bit_eq_mod)
  then show ?thesis
    using assms(1,2) by (simp add: syscall_result_def Let_def rax_of_unsigned [OF True] int32_small True)
next
  case False
  then show ?thesis
    using assms rax_of_signed [of r E] by (auto simp: syscall_result_def Let_def int32_small)
qed

lemma call_arguments:
  assumes "length fr = 24" "length a \<le> 3"
  shows "take (length a) (call_args (syscall_frame c a fr)) = a \<and> syscall_frame c a fr ! FRAME_RAX = of_nat (NR c) \<and>
    length (syscall_frame c a fr) = 24"
proof -
  consider "a = []" | x where "a = [x]" | x y where "a = [x, y]" | x y z where "a = [x, y, z]"
    using assms(2) by (cases a rule: list.exhaust) (auto simp: le_Suc_eq length_Suc_conv numeral_3_eq_3)
  then show ?thesis
    by cases (use assms(1) in \<open>simp_all add: syscall_frame_def call_args_def\<close>)
qed

text \<open>
  C13: A system call through the wrapper of the user library reaches the handler of the table that has
  the name of the call, with the arguments of the wrapper in their order. When the handler leaves a
  running task with time left and the sign of its \<open>int\<close> result fills the upper half of \<open>rax\<close>, the
  wrapper returns a negative result as -1 with \<open>errno\<close> set to its absolute value; with the upper half
  clear it returns the result itself, negative or not, and leaves \<open>errno\<close>.
\<close>

theorem syscall_dispatch:
  assumes "length fr = 24" "length a \<le> 3"
    and "map_of (sys_call_table E (syscall_frame c a fr)) c = Some h"
    and "h s = Inr (r, u)" "- (2 ^ 31) < r" "r < 2 ^ 31"
    and "e_upper E r = 0 \<or> r < 0 \<and> e_upper E r = -1" "0 < e_fuel E"
    and "t_state (cur u) = 0" "t_counter (cur u) \<noteq> 0"
  shows "take (length a) (call_args (syscall_frame c a fr)) = a \<and>
    user_call E fr c a errno s = Inr (if e_upper E r = 0 then (r, errno) else (-1, - r), u)"
proof -
  let ?f = "syscall_frame c a fr"
  have f: "take (length a) (call_args ?f) = a" "?f ! FRAME_RAX = of_nat (NR c)" "length ?f = 24"
    using call_arguments [OF assms(1,2)] by blast+
  have t: "sys_call_table E ?f ! NR c = (c, h)" "NR c < nr_system_calls"
    using table_entry [OF assms(3)] by blast+
  have n: "unat (?f ! FRAME_RAX) = NR c" using t(2) by (simp add: f(2) unat_of_nat)
  have loop: "ret_from_sys_call (e_fuel E) (e_run E) u = Inr ((), u)"
    using assms(8-10) by (cases "e_fuel E") (simp_all add: bnd_def rd_def ret_def)
  have "system_call E ?f s = Inr (?f[FRAME_RAX := rax_of E r], u)"
    using t assms(4) loop by (simp add: system_call_def Let_def n bnd_def thn_def ret_def)
  then show ?thesis
    using f(1,3) call_result [OF assms(5-7)] by (simp add: user_call_def bnd_def ret_def)
qed

definition call_example :: "int \<Rightarrow> fs call_env" where
  "call_example up = dev_env.extend (quiet_env 1) (call_env.fields (\<lambda>_. 0) 0 (\<lambda>_. of_int up))"

text \<open>\<open>getpid\<close> of the first task, and the call \<open>ptrace\<close> that no kernel of this version serves.\<close>

theorem syscall_dispatch_witness:
  "user_call (call_example 0) (replicate 24 0) ''getpid'' [] 7 (start_fs (\<lambda>_. 0)) = Inr ((0, 7), start_fs (\<lambda>_. 0)) \<and>
   user_call (call_example (-1)) (replicate 24 0) ''ptrace'' [1, 2, 3] 7 (start_fs (\<lambda>_. 0)) =
     Inr ((-1, ENOSYS), start_fs (\<lambda>_. 0)) \<and>
   user_call (call_example 0) (replicate 24 0) ''ptrace'' [1, 2, 3] 7 (start_fs (\<lambda>_. 0)) =
     Inr ((- ENOSYS, 7), start_fs (\<lambda>_. 0))"
proof -
  let ?s = "start_fs (\<lambda>_. 0)"
  have c: "cur ?s = INIT_TASK" by (simp add: start_fs_def ttys.defs start_ttys_def)
  have i: "t_state INIT_TASK = 0" "t_counter INIT_TASK \<noteq> 0" "t_pid INIT_TASK = 0" by (simp_all add: INIT_TASK_def)
  have e: "e_upper (call_example k) r = of_int k" "e_fuel (call_example k) = 1" for k r
    by (simp_all add: call_example_def dev_env.defs call_env.defs quiet_env_def)
  have t: "map_of (sys_call_table E fr) ''getpid'' = Some (rd sys_getpid)"
    "map_of (sys_call_table E fr) ''ptrace'' = Some (ret sys_ptrace)" for E :: "fs call_env" and fr
    by (simp_all add: sys_call_table_def Let_def)
  have r: "rd sys_getpid ?s = Inr (0, ?s)" "ret sys_ptrace ?s = Inr (- ENOSYS, ?s)"
    by (simp_all add: rd_def ret_def sys_getpid_def c i int32_small sys_ptrace_def)
  note d = syscall_dispatch [where s = ?s and u = ?s and fr = "replicate 24 0" and errno = 7]
  show ?thesis
    using d [where a = "[]", OF _ _ t(1) r(1)] d [where a = "[1, 2, 3]", OF _ _ t(2) r(2)]
    by (simp add: e c i)
qed

section \<open>The first call\<close>

lemma acts_last_stops:
  "(\<And>s. \<exists>k. g s = Inl k) \<Longrightarrow> \<exists>k. acts (fs @ [g]) s = Inl k"
proof (induction fs arbitrary: s)
  case Nil
  then obtain k where "g s = Inl k" by blast
  then show ?case by (simp add: thn_def bnd_def)
next
  case (Cons f fs)
  show ?case
  proof (cases "f s")
    case (Inr p)
    then show ?thesis using Cons.IH [OF Cons.prems, of "snd p"] by (auto simp: thn_def bnd_def split: prod.splits)
  qed (auto simp: thn_def bnd_def)
qed

lemma mount_root_panics: "mount_root E s = Inl (Panic ''bad i-node size'')"
  by (simp add: mount_root_def stop_def d_inode_size)

text \<open>
  C35: The root file system is never mounted. \<open>struct d_inode\<close> has 48 bytes under the 64-bit rules of
  layout and not 32, so \<open>mount_root\<close> panics before it touches a table; the first \<open>setup\<close> of a machine
  therefore never returns, whatever the disk holds, and every later one is refused.
\<close>

theorem setup_never_mounts:
  assumes "setup_callable s"
  shows "sizeof d_inode_fields = 48 \<and> mount_root E s = Inl (Panic ''bad i-node size'') \<and>
    (\<nexists>r t. sys_setup E s = Inr (r, t)) \<and>
    sys_setup E (s\<lparr>setup_callable := False\<rparr>) = Inr (-1, s\<lparr>setup_callable := False\<rparr>)"
proof -
  have m: "\<exists>k. mount_root E u = Inl k" for u by (simp add: mount_root_panics)
  obtain k where k: "sys_setup E s = Inl k"
    using acts_last_stops [where g = "mount_root E" and s = s and fs = "[upd (\<lambda>s. s\<lparr>setup_callable := False\<rparr>),
      acts (map (setup_drive E) [0..<NR_HD]), upd (printk (''Partition table%s ok.'' @ [CHR 0x0A, CHR 0x0D]) [AStr ''s''])]"]
      m assms
    by (auto simp: sys_setup_def bnd_def rd_def thn_def [of "acts _"] simp del: acts.simps)
  have "sys_setup E (s\<lparr>setup_callable := False\<rparr>) = Inr (-1, s\<lparr>setup_callable := False\<rparr>)"
    by (simp add: sys_setup_def bnd_def rd_def ret_def)
  with k show ?thesis by (simp add: d_inode_size mount_root_panics)
qed

theorem setup_never_mounts_witness: "\<nexists>r t. sys_setup (quiet_env 5) (start_fs (\<lambda>_. 0)) = Inr (r, t)"
proof -
  have "setup_callable (start_fs (\<lambda>_. 0))" by (simp add: start_fs_def ttys.defs fs.defs)
  from setup_never_mounts [OF this] show ?thesis by blast
qed

end
