(* ===== verification/Trap_Entry.thy ===== *)
theory Trap_Entry
  imports Traps
begin

text \<open>
  The entries of \<open>src/kernel/asm.nasm\<close> between a hardware trap and the handlers of
  \<open>src/kernel/traps.c\<close>. The processor is its registers, the stack pointer and the words of the kernel
  stack from there upwards, the top first; the stack pointer is a multiple of 8. What the code below
  takes from outside: the word that lies below the stack when the pointer is aligned (\<open>below\<close>), the
  registers a C function leaves behind (\<open>clob\<close>), the address of a handler, the task register and the
  bytes \<open>die\<close> reads through segments.
\<close>

datatype treg = RAX | RBX | RCX | RDX | RDI | RSI | RBP | R8 | R9 | R10 | R11 | R12 | R13 | R14 | R15 |
  DS | ES | RIP | CS | RFLAGS | SS

record trap_cpu =
  c_reg :: "treg \<Rightarrow> u64"
  c_rsp :: u64
  c_stack :: "u64 list"

record trap_env =
  v_below :: u64
  v_clob :: "(treg \<Rightarrow> u64) \<Rightarrow> treg \<Rightarrow> u64"
  v_addr :: "trap_entry \<Rightarrow> u64"
  v_regs :: trap_regs
  v_cr0 :: u64

definition push_word :: "u64 \<Rightarrow> trap_cpu \<Rightarrow> trap_cpu" where
  "push_word v c = c\<lparr>c_rsp := c_rsp c - 8, c_stack := v # c_stack c\<rparr>"

definition push_reg :: "treg \<Rightarrow> trap_cpu \<Rightarrow> trap_cpu" where
  "push_reg r c = push_word (c_reg c r) c"

definition pop_reg :: "treg \<Rightarrow> trap_cpu \<Rightarrow> trap_cpu" where
  "pop_reg r c = c\<lparr>c_reg := (c_reg c)(r := hd (c_stack c)), c_rsp := c_rsp c + 8, c_stack := tl (c_stack c)\<rparr>"

definition pop_seg :: "treg \<Rightarrow> trap_cpu \<Rightarrow> trap_cpu" where
  "pop_seg r c = (let c = pop_reg RBX c in c\<lparr>c_reg := (c_reg c)(r := c_reg c RBX AND 0xFFFF)\<rparr>)"

definition set_reg :: "treg \<Rightarrow> u64 \<Rightarrow> trap_cpu \<Rightarrow> trap_cpu" where
  "set_reg r v c = c\<lparr>c_reg := (c_reg c)(r := v)\<rparr>"

text \<open>\<open>and rsp, ~0xF\<close> on a multiple of 8.\<close>

definition align_stack :: "u64 \<Rightarrow> trap_cpu \<Rightarrow> trap_cpu" where
  "align_stack below c = (if c_rsp c AND 0xF = 0 then c else push_word below c)"

text \<open>\<open>iretq\<close>; afterwards the stack is the interrupted one.\<close>

definition iretq :: "trap_cpu \<Rightarrow> trap_cpu" where
  "iretq c =
     (let c = pop_reg RFLAGS (pop_reg CS (pop_reg RIP c)); sp = hd (c_stack c);
          c = pop_reg SS (c\<lparr>c_stack := tl (c_stack c)\<rparr>) in c\<lparr>c_rsp := sp, c_stack := []\<rparr>)"

definition saved_regs :: "treg list" where
  "saved_regs = [RBX, RCX, RDX, RDI, RSI, RBP, R8, R9, R10, R11, R12, R13, R14, R15]"

text \<open>The state at the call of the handler, and what is left of it after the return.\<close>

definition save_frame :: "trap_env \<Rightarrow> trap_cpu \<Rightarrow> trap_cpu" where
  "save_frame V c =
     (let c = fold push_reg (saved_regs @ [DS, ES]) c;
          c = fold (\<lambda>r. set_reg r 0x10) [RBX, DS, ES] c;
          c = set_reg RSI (c_stack c ! 18) (set_reg RDI (c_rsp c) c)
      in align_stack (v_below V) c)"

definition restore_frame :: "trap_env \<Rightarrow> trap_cpu \<Rightarrow> trap_cpu" where
  "restore_frame V c =
     (let c = c\<lparr>c_reg := v_clob V (c_reg c)\<rparr>;
          c = pop_seg DS (pop_seg ES c);
          c = fold pop_reg (rev saved_regs @ [RAX]) c
      in iretq (c\<lparr>c_rsp := c_rsp c + 8, c_stack := tl (c_stack c)\<rparr>))"

definition error_code_common :: "trap_env \<Rightarrow> (trap_cpu \<Rightarrow> u64 \<Rightarrow> u64 \<Rightarrow> ('s, unit) act) \<Rightarrow> trap_cpu \<Rightarrow> ('s, trap_cpu) act" where
  "error_code_common V handler c =
     (let c = save_frame V c in thn (handler c (c_reg c RDI) (c_reg c RSI)) (ret (restore_frame V c)))"

text \<open>The code is the same for the traps that have no error code, once a zero stands in its place.\<close>

definition no_error_code_common :: "trap_env \<Rightarrow> (trap_cpu \<Rightarrow> u64 \<Rightarrow> u64 \<Rightarrow> ('s, unit) act) \<Rightarrow> trap_cpu \<Rightarrow> ('s, trap_cpu) act" where
  "no_error_code_common = error_code_common"

text \<open>
  The call of a handler: \<open>esp\<close> is the first argument and \<open>error_code\<close> the second. \<open>do_int3\<close> has twelve
  parameters, of which the call sets two: the next four are the registers as they were and the last
  six the words on top of the stack.
\<close>

definition frame_of :: "trap_cpu \<Rightarrow> u64 \<Rightarrow> nat \<Rightarrow> u64" where
  "frame_of c esp k = c_stack c ! (unat ((esp - c_rsp c) div 8) + k)"

definition call_int3 :: "trap_env \<Rightarrow> trap_cpu \<Rightarrow> u64 \<Rightarrow> u64 \<Rightarrow> ('a sched_scheme, unit) act" where
  "call_int3 V c esp err =
     upd (do_int3 (frame_of c esp) esp (c_reg c RDX) (c_reg c RCX) (c_reg c R8) (c_reg c R9)
       (c_stack c ! 0) (c_stack c ! 1) (c_stack c ! 2) (c_stack c ! 3) (c_stack c ! 4) (c_stack c ! 5) (reg_tr (v_regs V)))"

definition call_die :: "trap_env \<Rightarrow> (trap_regs \<Rightarrow> u64 \<Rightarrow> ('s, unit) act) \<Rightarrow> trap_cpu \<Rightarrow> u64 \<Rightarrow> u64 \<Rightarrow> ('s, unit) act" where
  "call_die V f c esp err = f ((v_regs V)\<lparr>frame := frame_of c esp\<rparr>) err"

definition trap_handler :: "trap_env \<Rightarrow> trap_entry \<Rightarrow> trap_cpu \<Rightarrow> u64 \<Rightarrow> u64 \<Rightarrow> ('a sched_scheme, unit) act" where
  "trap_handler V e =
     (case e of
        Divide_error \<Rightarrow> call_die V do_divide_error
      | Debug \<Rightarrow> call_int3 V
      | Nmi \<Rightarrow> call_die V do_nmi
      | Int3 \<Rightarrow> call_int3 V
      | Overflow \<Rightarrow> call_die V do_overflow
      | Bounds \<Rightarrow> call_die V do_bounds
      | Invalid_op \<Rightarrow> call_die V do_invalid_op
      | Device_not_available \<Rightarrow> call_die V do_device_not_available
      | Double_fault \<Rightarrow> call_die V do_double_fault
      | Coprocessor_segment_overrun \<Rightarrow> call_die V do_coprocessor_segment_overrun
      | Invalid_TSS \<Rightarrow> call_die V do_invalid_TSS
      | Segment_not_present \<Rightarrow> call_die V do_segment_not_present
      | Stack_segment \<Rightarrow> call_die V do_stack_segment
      | General_protection \<Rightarrow> call_die V do_general_protection
      | Coprocessor_error \<Rightarrow> call_die V do_coprocessor_error
      | Reserved \<Rightarrow> call_die V do_reserved
      | Page_fault \<Rightarrow> (\<lambda>c esp err. stop Fault))"

definition has_error_code :: "trap_entry \<Rightarrow> bool" where
  "has_error_code e \<longleftrightarrow> e \<in> {Double_fault, Invalid_TSS, Segment_not_present, Stack_segment, General_protection}"

definition device_not_available :: "trap_env \<Rightarrow> trap_cpu \<Rightarrow> ('a sched_scheme, trap_cpu) act" where
  "device_not_available V c =
     (let c = push_reg RAX (push_word 0 c);
          leave = (\<lambda>c. let c = pop_reg RAX c in iretq (c\<lparr>c_rsp := c_rsp c + 8, c_stack := tl (c_stack c)\<rparr>)) in
      if bit (v_cr0 V) 2
      then no_error_code_common V (trap_handler V Device_not_available) (set_reg RAX (v_addr V Device_not_available) c)
      else bnd (rd id) (\<lambda>s.
        let c = set_reg RAX (current s) c in
        if current s = last_task_used_math s then ret (leave c)
        else thn (upd math_state_restore)
          (let c = push_reg RSI (push_reg RDI c); c = c\<lparr>c_reg := v_clob V (c_reg c)\<rparr>
           in ret (leave (pop_reg RDI (pop_reg RSI c))))))"

definition trap_enter :: "trap_env \<Rightarrow> trap_entry \<Rightarrow> trap_cpu \<Rightarrow> ('a sched_scheme, trap_cpu) act" where
  "trap_enter V e c =
     (if e = Device_not_available then device_not_available V c
      else if has_error_code e
      then error_code_common V (trap_handler V e) (set_reg RAX (v_addr V e) (push_reg RAX c))
      else no_error_code_common V (trap_handler V e) (set_reg RAX (v_addr V e) (push_reg RAX (push_word 0 c))))"

section \<open>What the handlers see and what is restored\<close>

lemma low_bits: "uint (x AND 0xF :: u64) = uint x mod 16"
proof -
  have "x AND 0xF = take_bit 4 x" by (simp add: take_bit_eq_mask mask_eq_exp_minus_1)
  then show ?thesis by (simp add: uint_mod_distrib take_bit_eq_mod)
qed

lemma aligned_frame: "x AND 0xF = 0 \<Longrightarrow> (x - 136) AND 0xF \<noteq> (0 :: u64)"
proof
  assume x: "x AND 0xF = 0" "(x - 136) AND 0xF = (0 :: u64)"
  have "uint x mod 16 = 0" using low_bits [of x] x(1) by simp
  moreover have "uint (x - 136) mod 16 = (uint x - 136) mod 16"
    by (simp add: uint_word_ariths(2) mod_mod_cancel)
  moreover have "uint (x - 136) mod 16 = 0" using low_bits [of "x - 136"] x(2) by simp
  ultimately show False using mod_diff_eq [of "uint x" 16 136] by simp
qed

lemmas trap_defs = push_word_def push_reg_def pop_reg_def pop_seg_def set_reg_def align_stack_def iretq_def
  saved_regs_def save_frame_def restore_frame_def Let_def

text \<open>
  The frame a handler gets, and the state it returns to, when the stack pointer was a multiple of 16
  with the error code on top: the error code lies 17 words up and not 18, and the return pops from one
  word below.
\<close>

lemma aligned_trap:
  fixes V :: trap_env and a :: u64
  assumes "c_stack c = err # rip # cs # fl # sp # ss # rest" "c_rsp c AND 0xF = 0"
  defines "d \<equiv> save_frame V (set_reg RAX a (push_reg RAX c))"
  shows "c_reg d RSI = rip" "c_reg d RDI = c_rsp c - 136" "c_rsp d = c_rsp c - 144"
    "c_stack d = v_below V # c_reg c ES # c_reg c DS # map (c_reg c) (rev saved_regs @ [RAX]) @ c_stack c"
    "restore_frame V d = c\<lparr>c_reg := (v_clob V (c_reg d))(ES := v_below V AND 0xFFFF, DS := c_reg c ES AND 0xFFFF,
       R15 := c_reg c DS, R14 := c_reg c R15, R13 := c_reg c R14, R12 := c_reg c R13, R11 := c_reg c R12,
       R10 := c_reg c R11, R9 := c_reg c R10, R8 := c_reg c R9, RBP := c_reg c R8, RSI := c_reg c RBP,
       RDI := c_reg c RSI, RDX := c_reg c RDI, RCX := c_reg c RDX, RBX := c_reg c RCX, RAX := c_reg c RBX,
       RIP := err, CS := rip, RFLAGS := cs, SS := sp), c_rsp := fl, c_stack := []\<rparr>"
  using assms(1) aligned_frame [OF assms(2)] unfolding d_def by (simp_all add: trap_defs)

lemma aligned_frame_of:
  assumes "c_stack d = w # ws" "c_rsp d = sp - 144"
  shows "frame_of d (sp - 136) = (\<lambda>k. ws ! k)"
  using assms by (simp add: frame_of_def fun_eq_iff)


text \<open>A fault with error code 8 and a breakpoint, both at \<open>0x1000\<close> with the stack at \<open>0x8000\<close>.\<close>

definition trap_example :: "u64 list \<Rightarrow> trap_cpu" where
  "trap_example st = \<lparr>c_reg = (\<lambda>_. 0), c_rsp = 0x8000, c_stack = st\<rparr>"

definition quiet_traps :: trap_env where
  "quiet_traps = \<lparr>v_below = 0, v_clob = id, v_addr = (\<lambda>_. 0),
     v_regs = \<lparr>frame = (\<lambda>_. 0), seg_long = (\<lambda>_ _. 0), seg_byte = (\<lambda>_ _. 0), reg_fs = 0, reg_tr = 0\<rparr>, v_cr0 = 0\<rparr>"


end
