(* ===== verification/Switch.thy ===== *)
theory Switch
  imports Trap_Entry Layout
begin

text \<open>
  The context switch of \<open>src/kernel/switch.nasm\<close>, on the registers and the memory, one word for each
  address that is used. The routine keeps the registers a C function must preserve and the stack
  pointer in the thread structure of the task it leaves; the return address is on the stack.
\<close>

record switch_cpu =
  w_reg :: "treg \<Rightarrow> u64"
  w_rsp :: u64
  w_mem :: "u64 \<Rightarrow> u64"

definition thread_slots :: "(treg \<times> u64) list" where
  "thread_slots = [(RBX, 16), (RBP, 24), (R12, 32), (R13, 40), (R14, 48), (R15, 56)]"

definition thread_of :: "u64 \<Rightarrow> u64" where "thread_of p = p + of_nat TASK_THREAD"

definition save_thread :: "u64 \<Rightarrow> switch_cpu \<Rightarrow> u64 \<Rightarrow> u64" where
  "save_thread prev c =
     (fold (\<lambda>(r, k) m. m(thread_of prev + k := w_reg c r)) thread_slots (w_mem c))(thread_of prev := w_rsp c)"

definition asm_switch_to :: "u64 \<Rightarrow> u64 \<Rightarrow> switch_cpu \<Rightarrow> switch_cpu" where
  "asm_switch_to prev succ c =
     (let m = save_thread prev c;
          sp = m (thread_of succ);
          g = fold (\<lambda>(r, k) g. g(r := m (thread_of succ + k))) thread_slots (w_reg c)
      in \<lparr>w_reg = g(RAX := prev, RIP := m sp), w_rsp = sp + 8, w_mem = m\<rparr>)"

definition thread_area :: "u64 \<Rightarrow> u64 set" where
  "thread_area p = insert (thread_of p) ((\<lambda>(r, k). thread_of p + k) ` set thread_slots)"

lemma thread_area_words:
  "thread_area p = {thread_of p, thread_of p + 16, thread_of p + 24, thread_of p + 32, thread_of p + 40,
     thread_of p + 48, thread_of p + 56}"
  by (simp add: thread_area_def thread_slots_def)

lemma save_thread_words:
  "save_thread p c (thread_of p) = w_rsp c"
  "(r, k) \<in> set thread_slots \<Longrightarrow> save_thread p c (thread_of p + k) = w_reg c r"
  "a \<notin> thread_area p \<Longrightarrow> save_thread p c a = w_mem c a"
  by (auto simp: save_thread_def thread_slots_def thread_area_words)

lemma switch_loads:
  "w_rsp (asm_switch_to q p c) = save_thread q c (thread_of p) + 8"
  "w_reg (asm_switch_to q p c) RIP = save_thread q c (save_thread q c (thread_of p))"
  "(r, k) \<in> set thread_slots \<Longrightarrow> w_reg (asm_switch_to q p c) r = save_thread q c (thread_of p + k)"
  "w_mem (asm_switch_to q p c) = save_thread q c"
  by (auto simp: asm_switch_to_def Let_def thread_slots_def)

lemma slot_in_area: "thread_of p \<in> thread_area p" "(r, k) \<in> set thread_slots \<Longrightarrow> thread_of p + k \<in> thread_area p"
  by (auto simp: thread_area_def)

text \<open>
  C14: A task that is switched out resumes where it was. It left by a call of \<open>__switch_to\<close>; if the
  tasks that ran meanwhile kept its thread structure and its return address, and it does not share
  its thread structure or that word with the task it is resumed from, then the switch back returns
  from that call with its stack pointer and with every register a function must preserve.
\<close>

theorem asm_switch_to_resumes:
  assumes "thread_area p \<inter> thread_area q = {}" "w_rsp c \<notin> thread_area p" "w_rsp c \<notin> thread_area q"
    and "\<And>a. a \<in> insert (w_rsp c) (thread_area p) \<Longrightarrow> w_mem d a = w_mem (asm_switch_to p n c) a"
    and "r \<in> {RBX, RBP, R12, R13, R14, R15}"
  shows "w_reg (asm_switch_to q p d) r = w_reg c r \<and> w_rsp (asm_switch_to q p d) = w_rsp c + 8 \<and>
    w_reg (asm_switch_to q p d) RIP = w_mem c (w_rsp c) \<and> w_reg (asm_switch_to q p d) RAX = q"
proof -
  have kept: "save_thread q d a = save_thread p c a" if "a \<in> thread_area p" for a
    using that assms(1) assms(4) [of a] save_thread_words(3) [of a q d] by (auto simp: switch_loads(4))
  have sp: "save_thread q d (thread_of p) = w_rsp c"
    by (simp add: kept slot_in_area save_thread_words(1))
  have "save_thread q d (w_rsp c) = w_mem c (w_rsp c)"
    using assms(2-4) by (simp add: save_thread_words(3) switch_loads(4))
  moreover obtain k where k: "(r, k) \<in> set thread_slots" using assms(5) by (auto simp: thread_slots_def)
  moreover have "save_thread q d (thread_of p + k) = w_reg c r"
    using k by (simp add: kept [OF slot_in_area(2) [OF k]] save_thread_words(2) [OF k])
  ultimately show ?thesis using sp by (simp add: switch_loads) (simp add: asm_switch_to_def Let_def)
qed

definition switch_example :: switch_cpu where
  "switch_example = \<lparr>w_reg = (\<lambda>r. if r = RBX then 7 else 0), w_rsp = 0x5FF8, w_mem = (\<lambda>a. if a = 0x5FF8 then 0x1234 else 0)\<rparr>"

text \<open>From the task at \<open>0x5000\<close> to the one at \<open>0x6000\<close> and back.\<close>

theorem asm_switch_to_resumes_witness:
  "w_reg (asm_switch_to 0x6000 0x5000 (asm_switch_to 0x5000 0x6000 switch_example)) RBX = 7 \<and>
   w_reg (asm_switch_to 0x6000 0x5000 (asm_switch_to 0x5000 0x6000 switch_example)) RIP = 0x1234"
proof -
  have "thread_area 0x5000 \<inter> thread_area 0x6000 = {}" "w_rsp switch_example \<notin> thread_area 0x5000"
    "w_rsp switch_example \<notin> thread_area 0x6000"
    by (simp_all add: thread_area_words thread_of_def TASK_THREAD_def switch_example_def)
  from asm_switch_to_resumes [OF this refl, of RBX] show ?thesis by (simp add: switch_example_def)
qed

end
