(* ===== verification/Build_Image.thy ===== *)
theory Build_Image
  imports Prelude
begin

text \<open>
  The host program of \<open>src/tools/build.c\<close> that joins the boot sector and the kernel to an image. The
  operating system it runs on is the record \<open>host\<close>: the files, whether \<open>fstat\<close> and a \<open>read\<close> at an
  offset succeed, and how much of a \<open>write\<close> at an offset of the standard output gets written. A run
  ends with an exit code, the bytes of the standard output and the messages.
\<close>

record host =
  h_files :: "string \<rightharpoonup> u8 list"
  h_stat :: "string \<Rightarrow> bool"
  h_read :: "string \<Rightarrow> nat \<Rightarrow> bool"
  h_write :: "nat \<Rightarrow> nat \<Rightarrow> nat"

datatype build_msg = Died string | Warn_size nat | Boot_bytes nat | Warn_signature | System_bytes nat

type_synonym build_run = "nat \<times> u8 list \<times> build_msg list"

definition build_die :: "string \<Rightarrow> u8 list \<Rightarrow> build_msg list \<Rightarrow> build_run" where
  "build_die str out err = (1, out, err @ [Died str])"

abbreviation quoted :: "string \<Rightarrow> string" where "quoted w \<equiv> CHR 0x27 # w @ [CHR 0x27]"

definition usage :: build_run where
  "usage = build_die ''Usage: build boot system [> image]'' [] []"

definition read_file :: "host \<Rightarrow> string \<Rightarrow> u8 list \<Rightarrow> nat \<Rightarrow> nat \<Rightarrow> u8 list option" where
  "read_file H name bs pos n = (if h_read H name pos then Some (take n (drop pos bs)) else None)"

text \<open>
  The copy of the kernel. A failed \<open>read\<close> ends the loop as the end of the file does; a short \<open>write\<close>
  gives \<open>Inl\<close>.
\<close>

function copy_system :: "host \<Rightarrow> string \<Rightarrow> u8 list \<Rightarrow> nat \<Rightarrow> u8 list \<Rightarrow> u8 list + nat \<times> u8 list" where
  "copy_system H name bs i out =
     (case read_file H name bs i 1024 of
        None \<Rightarrow> Inr (i, out)
      | Some buf \<Rightarrow>
          if buf = [] then Inr (i, out)
          else let w = h_write H (length out) (length buf); out' = out @ take w buf in
            if w \<noteq> length buf then Inl out' else copy_system H name bs (i + length buf) out')"
  by pat_completeness auto
termination
  by (relation "measure (\<lambda>(_, _, bs, i, _). length bs - i)") (auto simp: read_file_def split: if_splits)

declare copy_system.simps [simp del]

definition build_system :: "host \<Rightarrow> string \<Rightarrow> u8 list \<Rightarrow> build_msg list \<Rightarrow> build_run" where
  "build_system H name out err =
     (case h_files H name of
        None \<Rightarrow> build_die (''Unable to open '' @ quoted ''system'') out err
      | Some bs \<Rightarrow>
          (case copy_system H name bs 0 out of
             Inl out \<Rightarrow> build_die ''Write call failed'' out err
           | Inr (i, out) \<Rightarrow> (0, out, err @ [System_bytes i])))"

definition build_boot :: "host \<Rightarrow> build_msg list \<Rightarrow> u8 list \<Rightarrow> (u8 list \<times> build_msg list) + build_run" where
  "build_boot H err got =
     (let buf = got @ replicate (1024 - length got) 0;
          err = err @ [Boot_bytes (length got)] @ (if buf ! 510 \<noteq> 0x55 \<or> buf ! 511 \<noteq> 0xAA then [Warn_signature] else []);
          w = h_write H 0 512 in
      if w \<noteq> 512 then Inr (build_die ''Write call failed'' (take w buf) err) else Inl (take 512 buf, err))"

definition build :: "host \<Rightarrow> string list \<Rightarrow> build_run" where
  "build H argv =
     (if length argv \<noteq> 3 then usage
      else case h_files H (argv ! 1) of
        None \<Rightarrow> build_die (''Unable to open '' @ quoted ''boot'') [] []
      | Some bs \<Rightarrow>
          if \<not> h_stat H (argv ! 1) then build_die (''Unable to stat '' @ quoted ''boot'') [] []
          else let err = (if length bs \<noteq> 512 then [Warn_size (length bs)] else []) in
            (case read_file H (argv ! 1) bs 0 512 of
               None \<Rightarrow> build_die (''Unable to read '' @ quoted ''boot'') [] err
             | Some got \<Rightarrow>
                 if got = [] then build_die (''Unable to read '' @ quoted ''boot'') [] err
                 else (case build_boot H err got of
                         Inr run \<Rightarrow> run
                       | Inl (out, err) \<Rightarrow> build_system H (argv ! 2) out err)))"

lemma copy_system_all:
  assumes "\<And>p. h_read H name p" "\<And>p n. h_write H p n = n" "i \<le> length bs"
  shows "copy_system H name bs i out = Inr (length bs, out @ drop i bs)"
  using assms
proof (induction H name bs i out rule: copy_system.induct)
  case (1 H name bs i out)
  define buf where "buf = take 1024 (drop i bs)"
  have r: "read_file H name bs i 1024 = Some buf" using "1.prems"(1) by (simp add: read_file_def buf_def)
  have l: "i + length buf \<le> length bs" using "1.prems"(3) by (simp add: buf_def)
  have d: "buf @ drop (i + length buf) bs = drop i bs"
    using append_take_drop_id [of "length buf" "drop i bs"] by (cases "length bs - i \<le> 1024") (simp_all add: buf_def add.commute)
  show ?case
  proof (cases "buf = []")
    case True
    then show ?thesis using "1.prems"(3) d by (subst copy_system.simps) (simp add: r buf_def)
  next
    case False
    then show ?thesis
      using "1.IH" [OF r False refl refl] "1.prems" l d by (subst copy_system.simps) (simp add: r Let_def)
  qed
qed

text \<open>
  On a host without errors the image is the boot sector, cut or filled with zeros to 512 bytes, and
  then the kernel.
\<close>

theorem build_joins:
  assumes "h_files H b = Some boot" "h_files H k = Some sys" "boot \<noteq> []"
    and "h_stat H b" "\<And>f p. h_read H f p" "\<And>p n. h_write H p n = n"
  shows "\<exists>err. build H [prog, b, k] = (0, take 512 (boot @ replicate 512 0) @ sys, err @ [System_bytes (length sys)])"
  using assms
  by (auto simp: build_def read_file_def build_boot_def build_system_def copy_system_all Let_def take_replicate min_def)

theorem build_joins_witness:
  "\<exists>err. build \<lparr>h_files = [''b'' \<mapsto> [1, 2], ''k'' \<mapsto> [3]], h_stat = (\<lambda>_. True), h_read = (\<lambda>_ _. True), h_write = (\<lambda>_ n. n)\<rparr>
      [''build'', ''b'', ''k''] = (0, take 512 ([1, 2] @ replicate 512 0) @ [3], err @ [System_bytes (length [3::u8])])"
  by (rule build_joins) simp_all

text \<open>A kernel that cannot be read is left out without a message, and the program reports success.\<close>

theorem build_read_error:
  assumes "h_files H b = Some boot" "h_files H k = Some sys" "boot \<noteq> []"
    and "h_stat H b" "h_read H b 0" "\<not> h_read H k 0" "\<And>p n. h_write H p n = n"
  shows "\<exists>err. build H [prog, b, k] = (0, take 512 (boot @ replicate 512 0), err @ [System_bytes 0])"
  using assms
  by (auto simp: build_def read_file_def build_boot_def build_system_def copy_system.simps Let_def take_replicate min_def)

end
