(* ===== verification/Spec2Isabelle.thy ===== *)
theory Spec2Isabelle
  imports Memory_Correct Kstring Vsprintf Mktime Traps Tty_Correct Layout Shell System_Call Printk_Correct Process_Correct
    Bitmap_Correct Inode_Correct Buffer_Correct Pipe_Correct Serial_Correct Keyboard_Correct Call_Correct Trap_Entry Switch
    Build_Image
begin

text \<open>
  A verification library for the 64-bit port of Linux 0.01 under \<open>src/\<close>: a model of the kernel, of its
  user library and of its build tool, and theorems about them. All paths below are under \<open>src/\<close>.

  \<^bold>\<open>How the code is modelled.\<close> A kernel function is a HOL function on an explicit state. Its result is
  of type \<open>res\<close> (theory \<open>Prelude\<close>): a value and the new state, or one of four ways to stop, which are
  \<open>panic()\<close>, an access outside an object, a loop that has used up its fuel, and \<open>do_exit\<close>. The
  combinators \<open>bnd\<close>, \<open>thn\<close>, \<open>rd\<close>, \<open>upd\<close> and \<open>acts\<close> write the statements of C in their order. The state
  is a chain of records, each of which extends the one before: \<open>mm\<close> (physical memory and page counts),
  \<open>sched\<close> (tasks, timer, descriptors), \<open>ttys\<close> (terminals and console), \<open>fs\<close> (buffers, i-nodes, files,
  super blocks, disk requests), \<open>shell\<close> (the built-in shell), so that a function of a lower layer runs
  unchanged in every higher one. Machine integers are words of their width, or integers with the wrap
  written out (\<open>int32\<close>). A pointer into a table is its index plus one, and 0 is \<open>NULL\<close>.

  \<^bold>\<open>What comes from outside.\<close> The record \<open>env\<close> and its extensions \<open>dev_env\<close> and \<open>call_env\<close> are
  parameters: what the devices answer on a port and how they react to a write (\<open>e_in\<close>, \<open>e_out\<close> and so
  on), what the other tasks do to the machine while one sleeps (\<open>e_run\<close>), the bytes of the kernel stack
  that are copied out uninitialised (\<open>e_junk\<close>) and what compiled functions leave in the upper half of
  \<open>rax\<close> (\<open>e_upper\<close>). A theorem that needs a device to behave says so in a hypothesis, such as \<open>inert\<close>,
  \<open>delivers\<close> or \<open>outside\<close>.

  \<^bold>\<open>Fuel.\<close> A loop that ends only when another task or a device acts has fuel, \<open>e_fuel\<close>; without it the
  result is \<open>Diverge\<close>. The theorems about such functions give an amount that is enough: the number of
  buffers for \<open>getblk\<close>, two rounds for \<open>tty_write\<close> of up to 511 characters, one more than the number of
  characters for \<open>copy_to_cooked\<close>, one for a pipe that has room and for the return from a system call.
  The loops of the string library are partial functions, and their theorems show that they return.

  \<^bold>\<open>Memory management\<close> (\<open>mm/memory.c\<close>, \<open>mm/page.nasm\<close>, the tables of \<open>boot/head.nasm\<close>). \<open>Memory\<close> has
  the state and every function; \<open>Page_Tables\<close> the meaning of the four-level tables and the invariant
  \<open>mm_wf\<close>; \<open>Page_Faults\<close> and \<open>Page_Ranges\<close> the lemmas on single pages and on ranges; \<open>Boot_Map\<close> the
  tables at boot. \<open>Memory_Correct\<close> shows that copy on write, demand zero pages, sharing by fork and
  unmapping do what they should and keep the invariant, which booting establishes.

  \<^bold>\<open>Tasks\<close> (\<open>kernel/sched.c\<close>, \<open>kernel/fork.c\<close>, \<open>kernel/exit.c\<close>, \<open>fs/exec.c\<close>, \<open>kernel/sys.c\<close>). \<open>Sched\<close>
  has the scheduler, the sleep and wake-up calls over the locale \<open>wait_cell\<close>, the timer and the
  descriptor tables, and shows that \<open>schedule\<close> ends with a runnable task of the largest counter.
  \<open>Process\<close> has fork, exit, wait and signals, and \<open>Process_Correct\<close> the choice of fresh process ids and
  the permission of \<open>kill\<close>; \<open>Exec\<close> and \<open>Sys_Calls\<close> are models of the calls. \<open>Switch\<close> has the register
  switch of \<open>kernel/switch.nasm\<close> and shows that a task resumes where it left.

  \<^bold>\<open>Traps and calls\<close> (\<open>kernel/traps.c\<close>, \<open>kernel/asm.nasm\<close>, \<open>kernel/system_call.nasm\<close>,
  \<open>include/unistd.h\<close>, \<open>lib/\<close>). \<open>Traps\<close> has the handlers and the gate table, \<open>Trap_Entry\<close> the entries
  over the registers and the kernel stack, with the theorem that they lose the frame; \<open>System_Call\<close> has
  the call table, the entry and return path and the wrappers of the user library, and \<open>Call_Correct\<close> the
  dispatch and the fate of the first call, \<open>setup\<close>.

  \<^bold>\<open>Terminals\<close> (\<open>kernel/console.c\<close>, \<open>kernel/tty_io.c\<close>, \<open>kernel/serial.c\<close>, \<open>kernel/keyboard.nasm\<close>,
  \<open>kernel/rs_io.nasm\<close>, \<open>fs/tty_ioctl.c\<close>). \<open>Console\<close> has the terminal emulator with its memory safety and
  the meaning of text and scrolling; \<open>Fifo\<close> the locale \<open>bounded_fifo\<close> that \<open>Tty_Queue\<close> interprets for
  the queues of a terminal; \<open>Tty_Io\<close> and \<open>Tty_Ioctl\<close> the line discipline and its control; \<open>Tty_Correct\<close>
  the refinement of line editing and of writing; \<open>Keyboard\<close> and \<open>Serial\<close> the interrupt handlers, which
  call the line discipline; \<open>Keyboard_Correct\<close> and \<open>Serial_Correct\<close> what a key delivers, what a line
  sends, and where both go wrong.

  \<^bold>\<open>Files\<close> (\<open>fs/\<close>, \<open>kernel/hd.c\<close>). \<open>Fs_State\<close> has the tables, \<open>Hd\<close> the disk driver, \<open>Buffer\<close> the buffer
  cache, \<open>Bitmap\<close>, \<open>Inode\<close>, \<open>Super\<close>, \<open>Namei\<close>, \<open>File_Io\<close> and \<open>Open\<close> the layers above it up to the system
  calls. \<open>Linked_List\<close> and \<open>Buffer_Links\<close> give the meaning of the free ring and of the hash chains, and
  \<open>Buffer_Correct\<close> shows that \<open>getblk\<close> keeps both and returns the block; \<open>Bitmap_Correct\<close> interprets the
  locale \<open>allocator\<close> for the bit maps, \<open>Inode_Correct\<close> has the map from file blocks to zones, and
  \<open>Pipe_Correct\<close> interprets \<open>bounded_fifo\<close> for pipes and shows the transfer of bytes.

  \<^bold>\<open>Libraries\<close> (\<open>include/string.h\<close>, \<open>include/ctype.h\<close>, \<open>kernel/vsprintf.c\<close>, \<open>kernel/printk.c\<close>,
  \<open>kernel/mktime.c\<close>). \<open>Kstring\<close>, \<open>Vsprintf\<close> and \<open>Mktime\<close> have the functions and what they compute;
  \<open>Printk\<close> and \<open>Printk_Correct\<close> compose formatting with the console; \<open>Layout\<close> computes sizes and offsets
  of structures under the 64-bit rules, which \<open>Super\<close> and \<open>Switch\<close> use.

  \<^bold>\<open>Start-up and build\<close> (\<open>init/main.c\<close>, \<open>tools/build.c\<close>). \<open>Shell\<close> has \<open>main\<close> and the built-in shell,
  \<open>Start\<close> the example machines of the witnesses, and \<open>Build_Image\<close> the program that joins the image.

  \<^bold>\<open>Simplifications.\<close> Outside \<open>Printk\<close> a kernel message is an entry of a log with its format and
  arguments. Interrupts happen where a theorem lets them happen, and not between two statements of a
  function; the effect of other tasks is the parameter at the points where a task sleeps. The user
  address space is one byte memory. The null dereference of \<open>insert_into_queues\<close> is a write to
  physical address 24, as it is on this kernel, which maps page 0.

  \<^bold>\<open>Not modelled.\<close> The boot sector \<open>boot/boot_s.nasm\<close> and the switch to long mode in \<open>boot/head.nasm\<close>,
  which are BIOS calls and changes of the processor mode; the 32-bit sources \<open>boot/boot.s\<close>,
  \<open>boot/head.s\<close>, \<open>kernel/system_call.s\<close>, \<open>kernel/asm.s\<close>, \<open>kernel/keyboard.s\<close>, \<open>kernel/rs_io.s\<close> and
  \<open>mm/page.s\<close>, which the build does not use; headers that only hold constants and prototypes, whose
  constants appear as abbreviations of the same names; \<open>printf\<close> of \<open>init/main.c\<close>, \<open>get_fs\<close> and \<open>set_fs\<close>,
  which nothing calls.
\<close>

end
